(* ===== verification/JS_Prelude.thy ===== *)
theory JS_Prelude
  imports Complex_Main "HOL-Library.AList"
begin

text \<open>
  Shared vocabulary of the trainwreck.js development: the names of the model's basic
  types, the collections of rewrite rules the component theories register their
  evaluation and frame lemmas in, the decimal spelling of array indices that
  JavaScript uses for property keys (\<open>ToString\<close> of an index and the array-index test
  of \<open>OrdinaryOwnPropertyKeys\<close>), with its round trip, and the association-list lemmas
  the object model needs (own properties are kept as an association list in
  insertion order).
\<close>

named_theorems js_eval "rules that evaluate the JavaScript model on concrete states"
named_theorems js_frame "frame rules: what an operation of the model leaves unchanged"

type_synonym loc = nat
type_synonym key = string

section \<open>Decimal spelling of array indices\<close>

definition digit_char :: "nat \<Rightarrow> char" where
  "digit_char d = char_of (48 + d)"

definition digit_of :: "char \<Rightarrow> nat" where
  "digit_of c = of_char c - 48"

definition is_digit :: "char \<Rightarrow> bool" where
  "is_digit c \<longleftrightarrow> 48 \<le> (of_char c :: nat) \<and> (of_char c :: nat) \<le> 57"

text \<open>\<open>ToString\<close> of a non-negative integral Number: its shortest decimal spelling.\<close>

fun nat_str :: "nat \<Rightarrow> string" where
  "nat_str n = (if n < 10 then [digit_char n] else nat_str (n div 10) @ [digit_char (n mod 10)])"

declare nat_str.simps [simp del]

definition digits_val :: "string \<Rightarrow> nat" where
  "digits_val s = foldl (\<lambda>a c. 10 * a + digit_of c) 0 s"

text \<open>
  A canonical decimal string: non-empty, digits only, and no leading zero unless it is
  \<open>''0''\<close> itself.
\<close>

definition canonical_decimal :: "string \<Rightarrow> bool" where
  "canonical_decimal s \<longleftrightarrow> s \<noteq> [] \<and> list_all is_digit s \<and> (hd s = CHR ''0'' \<longrightarrow> s = ''0'')"

text \<open>
  The array-index test of the ECMAScript specification: a key is an array index when it
  is the canonical spelling of an integer below \<open>2^32 - 1 = 4294967295\<close> (compared as an
  \<open>int\<close>, so that the kernel evaluates it in binary).
\<close>

definition parse_index :: "string \<Rightarrow> nat option" where
  "parse_index s =
     (if canonical_decimal s \<and> int (digits_val s) < 4294967295 then Some (digits_val s) else None)"

definition is_array_index :: "string \<Rightarrow> bool" where
  "is_array_index s \<longleftrightarrow> parse_index s \<noteq> None"

subsection \<open>Digits\<close>

lemma digit_of_digit_char [simp]: "d < 10 \<Longrightarrow> digit_of (digit_char d) = d"
  by (simp add: digit_of_def digit_char_def)

lemma is_digit_digit_char [simp]: "d < 10 \<Longrightarrow> is_digit (digit_char d)"
  by (simp add: is_digit_def digit_char_def)

lemma digit_char_digit_of: "is_digit c \<Longrightarrow> digit_char (digit_of c) = c"
  by (simp add: is_digit_def digit_char_def digit_of_def)

lemma digit_of_less: "is_digit c \<Longrightarrow> digit_of c < 10"
  unfolding is_digit_def digit_of_def by arith

lemma digit_char_0 [simp]: "digit_char 0 = CHR ''0''"
proof -
  have "of_char CHR ''0'' = (48::nat)" by simp
  then show ?thesis by (metis add_0_right char_of_char digit_char_def)
qed

lemma digit_char_inj: "d < 10 \<Longrightarrow> e < 10 \<Longrightarrow> digit_char d = digit_char e \<longleftrightarrow> d = e"
  by (metis digit_of_digit_char)

lemma digit_char_zero_iff: "d < 10 \<Longrightarrow> digit_char d = CHR ''0'' \<longleftrightarrow> d = 0"
  using digit_char_inj [of d 0] by simp

subsection \<open>\<open>nat_str\<close>\<close>

lemma nat_str_small: "n < 10 \<Longrightarrow> nat_str n = [digit_char n]"
  by (simp add: nat_str.simps)

lemma nat_str_large: "\<not> n < 10 \<Longrightarrow> nat_str n = nat_str (n div 10) @ [digit_char (n mod 10)]"
  by (subst nat_str.simps) simp

lemma nat_str_not_Nil [simp]: "nat_str n \<noteq> []"
  by (cases "n < 10") (simp_all add: nat_str_small nat_str_large)

lemma nat_str_digits: "list_all is_digit (nat_str n)"
proof (induction n rule: nat_str.induct)
  case (1 n)
  then show ?case
    by (cases "n < 10") (simp_all add: nat_str_small nat_str_large)
qed

lemma digits_val_snoc: "digits_val (xs @ [c]) = 10 * digits_val xs + digit_of c"
  by (simp add: digits_val_def)

lemma digits_val_nat_str [simp]: "digits_val (nat_str n) = n"
proof (induction n rule: nat_str.induct)
  case (1 n)
  then show ?case
    by (cases "n < 10") (simp_all add: nat_str_small nat_str_large digits_val_snoc digits_val_def)
qed

lemma hd_nat_str_zero: "hd (nat_str n) = CHR ''0'' \<Longrightarrow> n = 0"
proof (induction n rule: nat_str.induct)
  case (1 n)
  show ?case
  proof (cases "n < 10")
    case True
    with "1.prems" show ?thesis by (simp add: nat_str_small digit_char_zero_iff)
  next
    case False
    with "1.prems" have "hd (nat_str (n div 10)) = CHR ''0''"
      by (simp add: nat_str_large)
    with False "1.IH" show ?thesis by simp
  qed
qed

lemma canonical_nat_str: "canonical_decimal (nat_str n)"
proof -
  have "nat_str n = ''0''" if "hd (nat_str n) = CHR ''0''"
  proof -
    from that have "n = 0" by (rule hd_nat_str_zero)
    then show ?thesis by (simp add: nat_str_small)
  qed
  then show ?thesis by (simp add: canonical_decimal_def nat_str_digits)
qed

lemma nat_str_inj: "nat_str m = nat_str n \<longleftrightarrow> m = n"
  by (metis digits_val_nat_str)

subsection \<open>Reading a canonical decimal string back\<close>

lemma foldl_digits_ge: "a \<le> foldl (\<lambda>a c. 10 * a + digit_of c) a cs"
proof (induction cs arbitrary: a)
  case Nil
  then show ?case by simp
next
  case (Cons c cs)
  have "a \<le> 10 * a + digit_of c" by simp
  also have "\<dots> \<le> foldl (\<lambda>a c. 10 * a + digit_of c) (10 * a + digit_of c) cs"
    by (rule Cons.IH)
  finally show ?case by simp
qed

lemma digits_val_pos:
  assumes "is_digit c" and "c \<noteq> CHR ''0''"
  shows "0 < digits_val (c # cs)"
proof -
  have "digit_of c \<noteq> 0"
    using assms digit_char_digit_of [OF assms(1)] by (metis digit_char_0)
  moreover have "digit_of c \<le> digits_val (c # cs)"
    using foldl_digits_ge [of "digit_of c" cs] by (simp add: digits_val_def)
  ultimately show ?thesis by simp
qed

lemma nat_str_digits_val:
  "canonical_decimal s \<Longrightarrow> nat_str (digits_val s) = s"
proof (induction s rule: rev_induct)
  case Nil
  then show ?case by (simp add: canonical_decimal_def)
next
  case (snoc c xs)
  have dc: "is_digit c" and dxs: "list_all is_digit xs"
    using snoc.prems by (simp_all add: canonical_decimal_def)
  show ?case
  proof (cases xs)
    case Nil
    with dc show ?thesis
      by (simp add: digits_val_def nat_str_small digit_of_less digit_char_digit_of)
  next
    case (Cons x xs')
    from snoc.prems Cons have hx: "x \<noteq> CHR ''0''"
      by (auto simp add: canonical_decimal_def)
    with Cons dxs have cxs: "canonical_decimal xs"
      by (simp add: canonical_decimal_def)
    from Cons dxs hx have pos: "0 < digits_val xs"
      by (simp add: digits_val_pos)
    let ?n = "digits_val (xs @ [c])"
    have n: "?n = 10 * digits_val xs + digit_of c"
      by (rule digits_val_snoc)
    with pos have "\<not> ?n < 10" by simp
    moreover have "?n div 10 = digits_val xs" and "?n mod 10 = digit_of c"
      using n digit_of_less [OF dc] by simp_all
    ultimately show ?thesis
      using snoc.IH [OF cxs] dc by (simp add: nat_str_large digit_char_digit_of)
  qed
qed

subsection \<open>Array indices: the round trip\<close>

lemma parse_index_nat_str: "parse_index (nat_str n) = (if n < 4294967295 then Some n else None)"
  by (simp add: parse_index_def canonical_nat_str)

lemma parse_index_Some: "parse_index s = Some n \<Longrightarrow> nat_str n = s"
  by (auto simp add: parse_index_def nat_str_digits_val split: if_splits)

section \<open>Association lists\<close>

text \<open>Own properties are an association list with distinct keys in insertion order.\<close>

lemma map_fst_map_entry [simp]: "map fst (AList.map_entry k f xs) = map fst xs"
  by (induction xs) auto

lemma map_of_map_entry_same:
  "map_of xs k = Some v \<Longrightarrow> map_of (AList.map_entry k f xs) k = Some (f v)"
  by (simp add: map_of_map_entry)

lemma map_of_map_entry_other:
  "k' \<noteq> k \<Longrightarrow> map_of (AList.map_entry k f xs) k' = map_of xs k'"
  by (simp add: map_of_map_entry)

lemma map_of_update_same: "map_of (AList.update k v xs) k = Some v"
  by (simp add: update_conv')

lemma map_of_update_other: "k' \<noteq> k \<Longrightarrow> map_of (AList.update k v xs) k' = map_of xs k'"
  by (simp add: update_conv')

lemma set_update_subset: "set (AList.update k v xs) \<subseteq> insert (k, v) (set xs)"
  by (induction xs) auto

lemma set_map_entry_subset:
  "set (AList.map_entry k f xs) \<subseteq> set xs \<union> {(k, f d) | d. (k, d) \<in> set xs}"
  by (induction xs) auto

lemma update_absent: "k \<notin> set (map fst al) \<Longrightarrow> AList.update k v al = al @ [(k, v)]"
  by (induction al) auto

lemmas alist_simps [js_eval] =
  map_of_map_entry_same map_of_map_entry_other map_of_update_same map_of_update_other

end
