(* ===== verification/JS_Values.thy ===== *)
theory JS_Values
  imports JS_Prelude
begin

text \<open>
  The JavaScript values trainwreck.js handles, the kinds of function bodies that occur in
  its heap, and the two value-level operations its code relies on: \<open>ToBoolean\<close>, used by
  the \<open>||\<close> of the method adapter (src/trainwreck.js line 21), and the \<open>||\<close> itself.
  Numbers are the finite rationals together with NaN and the two infinities (the
  library never computes with numbers; only their truthiness matters, and a double is a
  rational or one of those three); negative zero is not told apart from zero, which
  \<open>ToBoolean\<close> treats alike. Strings are character lists. Symbols and BigInts are not
  modelled.
\<close>

datatype number = Num rat | NaN | PosInf | NegInf

datatype jsval =
    VUndef
  | VNull
  | VBool bool
  | VNumber number
  | VStr string
  | VObj loc

text \<open>
  The [[Call]] slot of a function object: which body runs when it is called.
  \<open>FnClosure name scope chain\<close> is the function returned by \<open>trainwreck.fn\<close> (lines
  19--23), \<open>PropClosure name scope chain\<close> the one returned by \<open>trainwreck.prop\<close>
  (lines 33--42), each with the three variables it closes over; \<open>NativeFn i\<close> is a method
  of the program that uses the library (its behaviour is a parameter of the model),
  \<open>ApplyBuiltin\<close> is \<open>Function.prototype.apply\<close>, and \<open>LibFn\<close>, \<open>LibProp\<close> and
  \<open>LibCreate lib\<close> are the three methods of the library object itself (lines 19, 33
  and 50), \<open>create\<close> closing over the variable \<open>trainwreck\<close>, the library object
  \<open>lib\<close>.
\<close>

datatype closure =
    NativeFn nat
  | FnClosure key jsval jsval
  | PropClosure key jsval jsval
  | ApplyBuiltin
  | LibFn
  | LibProp
  | LibCreate loc

text \<open>
  Exceptions: the TypeErrors of the engine, a value thrown by a native method, and the
  error \<open>Unsupported\<close> for the engine behaviours outside the model (the coercion of a
  String- or Object-valued \<open>length\<close> in \<open>Function.prototype.apply\<close>, and of a
  property name that is not a string passed to the library's \<open>fn\<close> or \<open>prop\<close>).
\<close>

datatype js_error = TypeError string | Thrown jsval | Unsupported string

section \<open>ToBoolean and \<open>||\<close>\<close>

fun to_boolean :: "jsval \<Rightarrow> bool" where
  "to_boolean VUndef = False"
| "to_boolean VNull = False"
| "to_boolean (VBool b) = b"
| "to_boolean (VNumber (Num q)) = (q \<noteq> 0)"
| "to_boolean (VNumber NaN) = False"
| "to_boolean (VNumber PosInf) = True"
| "to_boolean (VNumber NegInf) = True"
| "to_boolean (VStr s) = (s \<noteq> [])"
| "to_boolean (VObj l) = True"

text \<open>\<open>a || b\<close> with both operands already evaluated: \<open>a\<close> if it is truthy, else \<open>b\<close>.\<close>

definition js_or :: "jsval \<Rightarrow> jsval \<Rightarrow> jsval" where
  "js_or a b = (if to_boolean a then a else b)"

definition falsy_values :: "jsval list" where
  "falsy_values = [VUndef, VNull, VBool False, VNumber (Num 0), VNumber NaN, VStr []]"

lemma to_boolean_iff_not_falsy: "\<not> to_boolean v \<longleftrightarrow> v \<in> set falsy_values"
  by (cases v rule: to_boolean.cases) (auto simp add: falsy_values_def)

lemma js_or_truthy [simp]: "to_boolean a \<Longrightarrow> js_or a b = a"
  by (simp add: js_or_def)

lemma js_or_falsy [simp]: "\<not> to_boolean a \<Longrightarrow> js_or a b = b"
  by (simp add: js_or_def)

end
