(* ===== verification/JS_Objects.thy ===== *)
theory JS_Objects
  imports JS_Values
begin

text \<open>
  The object model of the ECMAScript engine, as far as trainwreck.js exercises it: the
  heap of ordinary and function objects, the prototype chain, the property read
  \<open>o[k]\<close> ([[Get]]), the sloppy-mode property write \<open>o[k] = v\<close> ([[Set]]: the library
  has no \<open>'use strict'\<close>, so a refused write is silently ignored), \<open>typeof\<close>, and the
  key order of a \<open>for-in\<close> loop.
  Properties are data properties with the attributes [[Writable]] and [[Enumerable]];
  accessor properties (getters and setters) and [[Configurable]] are not modelled, and
  neither are the non-enumerable own properties \<open>length\<close>, \<open>name\<close> and \<open>prototype\<close>
  of function objects, which the library never reads and \<open>for-in\<close> never visits.
  The heap is a list of objects, a location its index; it only grows.
  Walks along a prototype chain are bounded by the size of the heap, which is enough
  because the invariant \<open>wf_state\<close> keeps every chain finite (the engine refuses
  cyclic prototype chains).
\<close>

record prop_desc =
  pd_value :: jsval
  pd_writable :: bool
  pd_enumerable :: bool

record js_obj =
  own_props :: "(key \<times> prop_desc) list"
  proto :: "loc option"
  extensible :: bool
  call_slot :: "closure option"

text \<open>The intrinsic prototypes the library's code reaches.\<close>

record intrinsics =
  object_prototype :: loc
  function_prototype :: loc
  boolean_prototype :: loc
  number_prototype :: loc
  string_prototype :: loc

record js_state =
  heap :: "js_obj list"
  intr :: intrinsics

section \<open>Heap access and allocation\<close>

definition obj_at :: "js_state \<Rightarrow> loc \<Rightarrow> js_obj option" where
  "obj_at st l = (if l < length (heap st) then Some (heap st ! l) else None)"

definition alloc_obj :: "js_obj \<Rightarrow> js_state \<Rightarrow> loc \<times> js_state" where
  "alloc_obj ob st = (length (heap st), st\<lparr>heap := heap st @ [ob]\<rparr>)"

definition update_obj :: "loc \<Rightarrow> (js_obj \<Rightarrow> js_obj) \<Rightarrow> js_state \<Rightarrow> js_state" where
  "update_obj l f st = st\<lparr>heap := (heap st)[l := f (heap st ! l)]\<rparr>"

text \<open>The object created by an object literal \<open>{}\<close> (line 51).\<close>

definition empty_object :: "js_state \<Rightarrow> js_obj" where
  "empty_object st =
     \<lparr>own_props = [], proto = Some (object_prototype (intr st)), extensible = True,
      call_slot = None\<rparr>"

text \<open>A function object whose body is \<open>c\<close>, as a function expression creates it.\<close>

definition function_object :: "js_state \<Rightarrow> closure \<Rightarrow> js_obj" where
  "function_object st c =
     \<lparr>own_props = [], proto = Some (function_prototype (intr st)), extensible = True,
      call_slot = Some c\<rparr>"

section \<open>Own properties and their order\<close>

definition own_prop :: "js_obj \<Rightarrow> key \<Rightarrow> prop_desc option" where
  "own_prop ob k = map_of (own_props ob) k"

text \<open>
  \<open>OrdinaryOwnPropertyKeys\<close>: the array indices in ascending numeric order, then the
  other string keys in the order they were created.
\<close>

definition own_keys :: "js_obj \<Rightarrow> key list" where
  "own_keys ob =
     (let ks = map fst (own_props ob)
      in sort_key (\<lambda>k. the (parse_index k)) (filter is_array_index ks)
         @ filter (\<lambda>k. \<not> is_array_index k) ks)"

definition enumerable_own :: "js_obj \<Rightarrow> key \<Rightarrow> bool" where
  "enumerable_own ob k = (case own_prop ob k of Some d \<Rightarrow> pd_enumerable d | None \<Rightarrow> False)"

section \<open>The prototype chain\<close>

text \<open>
  \<open>find_prop n h l k\<close> walks at most \<open>n\<close> objects of the chain from \<open>l\<close> and returns
  the first one that has \<open>k\<close> as an own property, with its descriptor.
\<close>

fun find_prop :: "nat \<Rightarrow> js_obj list \<Rightarrow> loc \<Rightarrow> key \<Rightarrow> (loc \<times> prop_desc) option" where
  "find_prop 0 h l k = None"
| "find_prop (Suc n) h l k =
     (if l < length h then
        (case own_prop (h ! l) k of
           Some d \<Rightarrow> Some (l, d)
         | None \<Rightarrow> (case proto (h ! l) of None \<Rightarrow> None | Some p \<Rightarrow> find_prop n h p k))
      else None)"

text \<open>\<open>chain_ok n h l\<close>: the chain from \<open>l\<close> stays in the heap and ends within \<open>n\<close> objects.\<close>

fun chain_ok :: "nat \<Rightarrow> js_obj list \<Rightarrow> loc \<Rightarrow> bool" where
  "chain_ok 0 h l = False"
| "chain_ok (Suc n) h l =
     (l < length h \<and> (case proto (h ! l) of None \<Rightarrow> True | Some p \<Rightarrow> chain_ok n h p))"

definition lookup :: "js_state \<Rightarrow> loc \<Rightarrow> key \<Rightarrow> (loc \<times> prop_desc) option" where
  "lookup st l k = find_prop (length (heap st)) (heap st) l k"

section \<open>Reading a property: \<open>o[k]\<close>\<close>

text \<open>[[Get]] of an ordinary object: the value found on the chain, else \<open>undefined\<close>.\<close>

definition get_prop :: "js_state \<Rightarrow> loc \<Rightarrow> key \<Rightarrow> jsval" where
  "get_prop st l k = (case lookup st l k of Some (_, d) \<Rightarrow> pd_value d | None \<Rightarrow> VUndef)"

text \<open>
  The own properties of a String value: its indices (one-character strings) and its
  \<open>length\<close>.
\<close>

definition string_own :: "string \<Rightarrow> key \<Rightarrow> jsval option" where
  "string_own s k =
     (if k = ''length'' then Some (VNumber (Num (of_nat (length s))))
      else (case parse_index k of
              Some i \<Rightarrow> if i < length s then Some (VStr [s ! i]) else None
            | None \<Rightarrow> None))"

text \<open>
  \<open>GetV\<close>: \<open>v[k]\<close> for any value. Reading a property of \<open>undefined\<close> or \<open>null\<close>
  throws a TypeError; a primitive reads through the prototype of its wrapper type.
\<close>

fun get_v :: "js_state \<Rightarrow> jsval \<Rightarrow> key \<Rightarrow> js_error + jsval" where
  "get_v st VUndef k = Inl (TypeError ''Cannot read properties of undefined'')"
| "get_v st VNull k = Inl (TypeError ''Cannot read properties of null'')"
| "get_v st (VObj l) k = Inr (get_prop st l k)"
| "get_v st (VStr s) k =
     (case string_own s k of
        Some v \<Rightarrow> Inr v
      | None \<Rightarrow> Inr (get_prop st (string_prototype (intr st)) k))"
| "get_v st (VBool b) k = Inr (get_prop st (boolean_prototype (intr st)) k)"
| "get_v st (VNumber x) k = Inr (get_prop st (number_prototype (intr st)) k)"

section \<open>Writing a property: \<open>o[k] = v\<close>\<close>

text \<open>The two ways a write changes the receiver: an own value in place, or a new property.\<close>

definition set_own_value :: "key \<Rightarrow> jsval \<Rightarrow> js_obj \<Rightarrow> js_obj" where
  "set_own_value k v ob =
     ob\<lparr>own_props := AList.map_entry k (\<lambda>d. d\<lparr>pd_value := v\<rparr>) (own_props ob)\<rparr>"

definition add_own :: "key \<Rightarrow> jsval \<Rightarrow> js_obj \<Rightarrow> js_obj" where
  "add_own k v ob =
     ob\<lparr>own_props :=
       AList.update k \<lparr>pd_value = v, pd_writable = True, pd_enumerable = True\<rparr> (own_props ob)\<rparr>"

text \<open>
  \<open>CreateDataProperty\<close> on the receiver: a new own property, writable and enumerable,
  appended to the key order; refused when the object is not extensible.
\<close>

definition create_data_prop :: "js_state \<Rightarrow> loc \<Rightarrow> key \<Rightarrow> jsval \<Rightarrow> js_state" where
  "create_data_prop st l k v =
     (if extensible (heap st ! l) then update_obj l (add_own k v) st else st)"

text \<open>
  \<open>OrdinarySet\<close> with the object itself as receiver. A non-writable property found on
  the chain refuses the write; a writable own property is overwritten in place; a
  writable inherited property or an absent one gives a new own property. In sloppy mode
  a refused write is no error: the state is simply unchanged.
\<close>

definition set_prop :: "js_state \<Rightarrow> loc \<Rightarrow> key \<Rightarrow> jsval \<Rightarrow> js_state" where
  "set_prop st l k v =
     (case lookup st l k of
        Some (l', d) \<Rightarrow>
          if \<not> pd_writable d then st
          else if l' = l then update_obj l (set_own_value k v) st
          else create_data_prop st l k v
      | None \<Rightarrow> create_data_prop st l k v)"

text \<open>
  \<open>PutValue\<close> for \<open>v[k] = x\<close> in sloppy mode: a TypeError on \<open>undefined\<close> and
  \<open>null\<close>; on other primitives the write goes to a temporary wrapper object and is lost.
\<close>

fun put_v :: "js_state \<Rightarrow> jsval \<Rightarrow> key \<Rightarrow> jsval \<Rightarrow> js_error + js_state" where
  "put_v st VUndef k x = Inl (TypeError ''Cannot set properties of undefined'')"
| "put_v st VNull k x = Inl (TypeError ''Cannot set properties of null'')"
| "put_v st (VObj l) k x = Inr (set_prop st l k x)"
| "put_v st (VStr s) k x = Inr st"
| "put_v st (VBool b) k x = Inr st"
| "put_v st (VNumber n) k x = Inr st"

section \<open>\<open>typeof\<close>\<close>

definition is_callable :: "js_state \<Rightarrow> jsval \<Rightarrow> bool" where
  "is_callable st v =
     (case v of
        VObj l \<Rightarrow> (case obj_at st l of Some ob \<Rightarrow> call_slot ob \<noteq> None | None \<Rightarrow> False)
      | _ \<Rightarrow> False)"

fun typeof_v :: "js_state \<Rightarrow> jsval \<Rightarrow> string" where
  "typeof_v st VUndef = ''undefined''"
| "typeof_v st VNull = ''object''"
| "typeof_v st (VBool b) = ''boolean''"
| "typeof_v st (VNumber n) = ''number''"
| "typeof_v st (VStr s) = ''string''"
| "typeof_v st (VObj l) = (if is_callable st (VObj l) then ''function'' else ''object'')"

section \<open>The keys of a \<open>for-in\<close> loop\<close>

text \<open>
  \<open>EnumerateObjectProperties\<close>: the own keys of each object of the chain in turn, in
  \<open>OrdinaryOwnPropertyKeys\<close> order; a key already met lower in the chain (enumerable or
  not) is skipped, and only enumerable properties are produced. Inherited properties
  are visited too: the loop of \<open>create\<close> has no \<open>hasOwnProperty\<close> filter.
\<close>

fun enum_walk :: "nat \<Rightarrow> js_obj list \<Rightarrow> loc option \<Rightarrow> key list \<Rightarrow> key list" where
  "enum_walk 0 h l vis = []"
| "enum_walk (Suc n) h None vis = []"
| "enum_walk (Suc n) h (Some l) vis =
     (if l < length h then
        (let ob = h ! l; ks = filter (\<lambda>k. k \<notin> set vis) (own_keys ob)
         in filter (enumerable_own ob) ks @ enum_walk n h (proto ob) (vis @ ks))
      else [])"

definition string_index_keys :: "string \<Rightarrow> key list" where
  "string_index_keys s = map nat_str [0..<length s]"

text \<open>
  \<open>for (k in v)\<close>: nothing for \<open>undefined\<close> and \<open>null\<close>; otherwise the keys of
  \<open>ToObject(v)\<close>. A String wrapper owns its indices (enumerable) and \<open>length\<close> (not).
\<close>

fun for_in_keys :: "js_state \<Rightarrow> jsval \<Rightarrow> key list" where
  "for_in_keys st VUndef = []"
| "for_in_keys st VNull = []"
| "for_in_keys st (VObj l) = enum_walk (length (heap st)) (heap st) (Some l) []"
| "for_in_keys st (VStr s) =
     string_index_keys s
     @ enum_walk (length (heap st)) (heap st) (Some (string_prototype (intr st)))
         (string_index_keys s @ [''length''])"
| "for_in_keys st (VBool b) =
     enum_walk (length (heap st)) (heap st) (Some (boolean_prototype (intr st))) []"
| "for_in_keys st (VNumber n) =
     enum_walk (length (heap st)) (heap st) (Some (number_prototype (intr st))) []"


section \<open>Well-formed states\<close>

text \<open>
  The type invariant of the heap: no reference leaves the heap, own keys are distinct,
  every prototype chain ends, and the intrinsics are allocated.
\<close>

definition val_ok :: "nat \<Rightarrow> jsval \<Rightarrow> bool" where
  "val_ok n v = (case v of VObj l \<Rightarrow> l < n | _ \<Rightarrow> True)"

fun closure_ok :: "nat \<Rightarrow> closure \<Rightarrow> bool" where
  "closure_ok n (FnClosure k s c) = (val_ok n s \<and> val_ok n c)"
| "closure_ok n (PropClosure k s c) = (val_ok n s \<and> val_ok n c)"
| "closure_ok n (NativeFn i) = True"
| "closure_ok n ApplyBuiltin = True"
| "closure_ok n LibFn = True"
| "closure_ok n LibProp = True"
| "closure_ok n (LibCreate l) = (l < n)"

definition obj_ok :: "nat \<Rightarrow> js_obj \<Rightarrow> bool" where
  "obj_ok n ob \<longleftrightarrow>
     distinct (map fst (own_props ob))
     \<and> list_all (\<lambda>(k, d). val_ok n (pd_value d)) (own_props ob)
     \<and> (case proto ob of None \<Rightarrow> True | Some p \<Rightarrow> p < n)
     \<and> (case call_slot ob of None \<Rightarrow> True | Some c \<Rightarrow> closure_ok n c)"

definition intr_ok :: "nat \<Rightarrow> intrinsics \<Rightarrow> bool" where
  "intr_ok n i \<longleftrightarrow>
     object_prototype i < n \<and> function_prototype i < n \<and> boolean_prototype i < n
     \<and> number_prototype i < n \<and> string_prototype i < n"

definition wf_state :: "js_state \<Rightarrow> bool" where
  "wf_state st \<longleftrightarrow>
     list_all (obj_ok (length (heap st))) (heap st)
     \<and> list_all (chain_ok (length (heap st)) (heap st)) [0..<length (heap st)]
     \<and> intr_ok (length (heap st)) (intr st)"

text \<open>Every prototype pointer stays inside the heap.\<close>

definition protos_closed :: "js_obj list \<Rightarrow> bool" where
  "protos_closed h \<longleftrightarrow> (\<forall>ob \<in> set h. case proto ob of None \<Rightarrow> True | Some p \<Rightarrow> p < length h)"

text \<open>
  Whether \<open>o[k] = v\<close> takes effect on the object at \<open>l\<close>: the property found on the
  chain (if any) is writable, and the object can take a new own property if it must.
\<close>

definition write_allowed :: "js_state \<Rightarrow> loc \<Rightarrow> key \<Rightarrow> bool" where
  "write_allowed st l k =
     (case lookup st l k of
        Some (l', d) \<Rightarrow> pd_writable d \<and> (l' = l \<or> extensible (heap st ! l))
      | None \<Rightarrow> extensible (heap st ! l))"

section \<open>Lemmas on the prototype chain\<close>

lemma chain_ok_in_heap: "chain_ok n h l \<Longrightarrow> l < length h"
  by (cases n) auto

lemma chain_ok_mono: "chain_ok n h l \<Longrightarrow> n \<le> m \<Longrightarrow> chain_ok m h l"
proof (induction n arbitrary: m l)
  case 0
  then show ?case by simp
next
  case (Suc n)
  then obtain m' where m: "m = Suc m'" and "n \<le> m'"
    by (cases m) auto
  with Suc show ?case
    by (auto split: option.splits)
qed

text \<open>More fuel than the chain needs does not change what the walk finds.\<close>

lemma find_prop_fuel:
  "chain_ok n h l \<Longrightarrow> n \<le> m \<Longrightarrow> find_prop m h l k = find_prop n h l k"
proof (induction n arbitrary: m l)
  case 0
  then show ?case by simp
next
  case (Suc n)
  then obtain m' where m: "m = Suc m'" and nm: "n \<le> m'"
    by (cases m) auto
  have "find_prop m' h p k = find_prop n h p k" if "proto (h ! l) = Some p" for p
    using Suc.prems(1) that nm by (intro Suc.IH) auto
  then show ?case
    using m by (auto split: option.splits)
qed

lemma find_prop_SomeD:
  "find_prop n h l k = Some (l', d) \<Longrightarrow> l' < length h \<and> own_prop (h ! l') k = Some d"
  by (induction n h l k rule: find_prop.induct) (auto split: if_splits option.splits)

lemma find_prop_own:
  "0 < n \<Longrightarrow> l < length h \<Longrightarrow> own_prop (h ! l) k = Some d \<Longrightarrow> find_prop n h l k = Some (l, d)"
  by (cases n) auto

text \<open>Objects appended to the heap are not on the chain of an object already there.\<close>

lemma wf_protos_closed: "wf_state st \<Longrightarrow> protos_closed (heap st)"
  by (auto simp add: wf_state_def protos_closed_def obj_ok_def list_all_iff)

lemma protos_closedD:
  "protos_closed h \<Longrightarrow> l < length h \<Longrightarrow> proto (h ! l) = Some p \<Longrightarrow> p < length h"
  unfolding protos_closed_def by (metis nth_mem option.simps(5))

lemma find_prop_append:
  "protos_closed h \<Longrightarrow> l < length h \<Longrightarrow> find_prop n (h @ h') l k = find_prop n h l k"
proof (induction n arbitrary: l)
  case 0
  then show ?case by simp
next
  case (Suc n)
  then show ?case
    by (auto simp add: nth_append dest: protos_closedD split: option.splits)
qed

lemma chain_ok_append:
  "protos_closed h \<Longrightarrow> l < length h \<Longrightarrow> chain_ok n (h @ h') l = chain_ok n h l"
proof (induction n arbitrary: l)
  case 0
  then show ?case by simp
next
  case (Suc n)
  then show ?case
    by (auto simp add: nth_append dest: protos_closedD split: option.splits)
qed

text \<open>Changing the own properties of one object leaves every chain as it was.\<close>

lemma proto_update_other:
  "proto ob' = proto (h ! j) \<Longrightarrow> l < length h \<Longrightarrow> proto (h[j := ob'] ! l) = proto (h ! l)"
  by (cases "l = j") simp_all

lemma chain_ok_update_props:
  assumes "proto ob' = proto (h ! j)"
  shows "chain_ok n (h[j := ob']) l = chain_ok n h l"
proof (induction n arbitrary: l)
  case 0
  then show ?case by simp
next
  case (Suc n)
  show ?case
  proof (cases "l < length h")
    case True
    with assms have "proto (h[j := ob'] ! l) = proto (h ! l)"
      by (rule proto_update_other)
    with True show ?thesis
      by (simp add: Suc.IH split: option.split)
  next
    case False
    then show ?thesis by simp
  qed
qed

text \<open>... and every lookup of another key.\<close>

lemma own_prop_update_other:
  "own_prop ob' k = own_prop (h ! j) k \<Longrightarrow> l < length h
   \<Longrightarrow> own_prop (h[j := ob'] ! l) k = own_prop (h ! l) k"
  by (cases "l = j") simp_all

lemma find_prop_update_props:
  assumes "proto ob' = proto (h ! j)" and "own_prop ob' k = own_prop (h ! j) k"
  shows "find_prop n (h[j := ob']) l k = find_prop n h l k"
proof (induction n arbitrary: l)
  case 0
  then show ?case by simp
next
  case (Suc n)
  show ?case
  proof (cases "l < length h")
    case True
    with assms have "proto (h[j := ob'] ! l) = proto (h ! l)"
      and "own_prop (h[j := ob'] ! l) k = own_prop (h ! l) k"
      by (simp_all add: proto_update_other own_prop_update_other)
    with True show ?thesis
      by (simp add: Suc.IH split: option.split)
  next
    case False
    then show ?thesis by simp
  qed
qed

section \<open>Heap operations\<close>

lemma wf_chain_ok: "wf_state st \<Longrightarrow> l < length (heap st) \<Longrightarrow> chain_ok (length (heap st)) (heap st) l"
  by (simp add: wf_state_def list_all_iff)

lemma wf_obj_ok: "wf_state st \<Longrightarrow> l < length (heap st) \<Longrightarrow> obj_ok (length (heap st)) (heap st ! l)"
  by (simp add: wf_state_def list_all_iff)

lemma alloc_obj_fst [simp]: "fst (alloc_obj ob st) = length (heap st)"
  by (simp add: alloc_obj_def)

lemma heap_alloc_obj [simp]: "heap (snd (alloc_obj ob st)) = heap st @ [ob]"
  by (simp add: alloc_obj_def)

lemma intr_alloc_obj [simp]: "intr (snd (alloc_obj ob st)) = intr st"
  by (simp add: alloc_obj_def)

lemma lookup_alloc [js_frame]:
  assumes "wf_state st" and "l < length (heap st)"
  shows "lookup (snd (alloc_obj ob st)) l k = lookup st l k"
proof -
  have "lookup (snd (alloc_obj ob st)) l k = find_prop (Suc (length (heap st))) (heap st) l k"
    using assms by (simp add: lookup_def find_prop_append wf_protos_closed del: find_prop.simps)
  also have "\<dots> = lookup st l k"
    using assms by (simp add: lookup_def find_prop_fuel wf_chain_ok del: find_prop.simps)
  finally show ?thesis .
qed

lemma get_prop_alloc [js_frame]:
  "wf_state st \<Longrightarrow> l < length (heap st) \<Longrightarrow> get_prop (snd (alloc_obj ob st)) l k = get_prop st l k"
  by (simp add: get_prop_def lookup_alloc)

lemma get_v_alloc [js_frame]:
  assumes "wf_state st" and "val_ok (length (heap st)) v"
  shows "get_v (snd (alloc_obj ob st)) v k = get_v st v k"
proof -
  have "intr_ok (length (heap st)) (intr st)"
    using assms(1) by (simp add: wf_state_def)
  with assms show ?thesis
    by (cases v) (auto simp add: val_ok_def intr_ok_def get_prop_alloc split: option.split)
qed

lemma is_callable_alloc [js_frame]:
  "val_ok (length (heap st)) v \<Longrightarrow> is_callable (snd (alloc_obj ob st)) v = is_callable st v"
  by (auto simp add: is_callable_def obj_at_def val_ok_def nth_append split: jsval.split)

lemma typeof_v_alloc [js_frame]:
  "val_ok (length (heap st)) v \<Longrightarrow> typeof_v (snd (alloc_obj ob st)) v = typeof_v st v"
  by (cases v) (simp_all add: is_callable_alloc)

lemma val_ok_mono: "val_ok n v \<Longrightarrow> n \<le> m \<Longrightarrow> val_ok m v"
  by (auto simp add: val_ok_def split: jsval.splits)

lemma obj_ok_mono: "obj_ok n ob \<Longrightarrow> n \<le> m \<Longrightarrow> obj_ok m ob"
proof -
  assume ok: "obj_ok n ob" and le: "n \<le> m"
  have "closure_ok m c" if "closure_ok n c" for c
    using that le by (cases c) (auto intro: val_ok_mono)
  with ok le show ?thesis
    by (auto simp add: obj_ok_def list_all_iff intro: val_ok_mono split: option.splits)
qed

lemma wf_alloc:
  assumes wf: "wf_state st" and ok: "obj_ok (Suc (length (heap st))) ob"
    and pr: "case proto ob of None \<Rightarrow> True | Some p \<Rightarrow> p < length (heap st)"
  shows "wf_state (snd (alloc_obj ob st))"
proof -
  let ?h = "heap st" and ?n = "length (heap st)"
  have objs: "list_all (obj_ok (Suc ?n)) (?h @ [ob])"
    using wf ok by (auto simp add: wf_state_def list_all_iff intro: obj_ok_mono)
  have old: "chain_ok (Suc ?n) (?h @ [ob]) l" if "l < ?n" for l
  proof -
    have "chain_ok (Suc ?n) ?h l"
      using wf that by (blast intro: chain_ok_mono wf_chain_ok le_SucI)
    with wf that show ?thesis
      by (simp add: chain_ok_append wf_protos_closed del: chain_ok.simps)
  qed
  have new: "chain_ok (Suc ?n) (?h @ [ob]) ?n"
  proof (cases "proto ob")
    case None
    then show ?thesis by simp
  next
    case (Some p)
    with pr have "p < ?n" by simp
    with wf have "chain_ok ?n (?h @ [ob]) p"
      by (simp add: chain_ok_append wf_protos_closed wf_chain_ok del: chain_ok.simps)
    with Some show ?thesis by simp
  qed
  have chains: "list_all (chain_ok (Suc ?n) (?h @ [ob])) [0..<Suc ?n]"
    using old new by (auto simp add: list_all_iff less_Suc_eq)
  have "intr_ok (Suc ?n) (intr st)"
    using wf by (simp add: wf_state_def intr_ok_def)
  with objs chains show ?thesis
    by (simp add: wf_state_def)
qed


lemma length_update_obj [simp]: "length (heap (update_obj l f st)) = length (heap st)"
  by (simp add: update_obj_def)

lemma intr_update_obj [simp]: "intr (update_obj l f st) = intr st"
  by (simp add: update_obj_def)

lemma heap_update_obj_other [js_frame]: "j \<noteq> l \<Longrightarrow> heap (update_obj l f st) ! j = heap st ! j"
  by (simp add: update_obj_def)

lemma heap_update_obj_same: "l < length (heap st) \<Longrightarrow> heap (update_obj l f st) ! l = f (heap st ! l)"
  by (simp add: update_obj_def)

lemma set_prop_cases:
  "set_prop st l k v = st
   \<or> set_prop st l k v = update_obj l (set_own_value k v) st
   \<or> set_prop st l k v = update_obj l (add_own k v) st"
  by (auto simp add: set_prop_def create_data_prop_def split: option.split)


lemma set_own_value_fields [simp]:
  "proto (set_own_value k v ob) = proto ob"
  "call_slot (set_own_value k v ob) = call_slot ob"
  "extensible (set_own_value k v ob) = extensible ob"
  by (simp_all add: set_own_value_def)

lemma add_own_fields [simp]:
  "proto (add_own k v ob) = proto ob"
  "call_slot (add_own k v ob) = call_slot ob"
  "extensible (add_own k v ob) = extensible ob"
  by (simp_all add: add_own_def)

lemma own_prop_set_own_value:
  "own_prop (set_own_value k v ob) k' =
     (if k' = k then map_option (\<lambda>d. d\<lparr>pd_value := v\<rparr>) (own_prop ob k) else own_prop ob k')"
  by (simp add: set_own_value_def own_prop_def map_of_map_entry split: option.split)

lemma own_prop_add_own:
  "own_prop (add_own k v ob) k' =
     (if k' = k then Some \<lparr>pd_value = v, pd_writable = True, pd_enumerable = True\<rparr> else own_prop ob k')"
  by (simp add: add_own_def own_prop_def update_conv')

lemma set_prop_refused: "\<not> write_allowed st l k \<Longrightarrow> set_prop st l k v = st"
  by (auto simp add: set_prop_def write_allowed_def create_data_prop_def split: option.splits)

lemma set_prop_written:
  assumes "l < length (heap st)" and "write_allowed st l k"
  shows "\<exists>d. own_prop (heap (set_prop st l k v) ! l) k = Some d \<and> pd_value d = v"
proof (cases "lookup st l k")
  case None
  with assms show ?thesis
    by (simp add: set_prop_def write_allowed_def create_data_prop_def heap_update_obj_same
        own_prop_add_own)
next
  case (Some a)
  then obtain l' d where a: "lookup st l k = Some (l', d)"
    by (cases a) auto
  then have own: "own_prop (heap st ! l') k = Some d"
    by (simp add: lookup_def find_prop_SomeD)
  show ?thesis
  proof (cases "l' = l")
    case True
    with a own assms show ?thesis
      by (simp add: set_prop_def write_allowed_def heap_update_obj_same own_prop_set_own_value)
  next
    case False
    with a assms show ?thesis
      by (simp add: set_prop_def write_allowed_def create_data_prop_def heap_update_obj_same
          own_prop_add_own)
  qed
qed

lemma get_prop_set_prop_same:
  assumes "l < length (heap st)" and "write_allowed st l k"
  shows "get_prop (set_prop st l k v) l k = v"
proof -
  from set_prop_written [OF assms] obtain d
    where d: "own_prop (heap (set_prop st l k v) ! l) k = Some d" and v: "pd_value d = v"
    by blast
  have len: "length (heap (set_prop st l k v)) = length (heap st)"
    using set_prop_cases [of st l k v] by auto
  have "find_prop (length (heap (set_prop st l k v))) (heap (set_prop st l k v)) l k = Some (l, d)"
    by (rule find_prop_own) (use assms(1) d len in auto)
  then have "lookup (set_prop st l k v) l k = Some (l, d)"
    by (simp add: lookup_def)
  with v show ?thesis by (simp add: get_prop_def)
qed


lemma update_obj_field:
  assumes "\<And>ob. g (f ob) = g ob"
  shows "g (heap (update_obj l f st) ! j) = g (heap st ! j)"
  using assms
  by (cases "l < length (heap st)") (auto simp add: update_obj_def nth_list_update list_update_beyond)

lemma set_prop_shape [js_frame]:
  "length (heap (set_prop st l k v)) = length (heap st)"
  "intr (set_prop st l k v) = intr st"
  "proto (heap (set_prop st l k v) ! j) = proto (heap st ! j)"
  "call_slot (heap (set_prop st l k v) ! j) = call_slot (heap st ! j)"
  "extensible (heap (set_prop st l k v) ! j) = extensible (heap st ! j)"
  using set_prop_cases [of st l k v]
  by (auto simp add: update_obj_field)

lemma heap_set_prop_other [js_frame]: "j \<noteq> l \<Longrightarrow> heap (set_prop st l k v) ! j = heap st ! j"
  using set_prop_cases [of st l k v] by (auto simp add: heap_update_obj_other)

lemma lookup_set_prop_other_key [js_frame]:
  assumes "k' \<noteq> k"
  shows "lookup (set_prop st l k v) l' k' = lookup st l' k'"
proof -
  have upd: "find_prop n (heap (update_obj l f st)) l' k' = find_prop n (heap st) l' k'"
    if "proto (f (heap st ! l)) = proto (heap st ! l)"
      and "own_prop (f (heap st ! l)) k' = own_prop (heap st ! l) k'" for f n
    using that by (simp add: update_obj_def find_prop_update_props)
  show ?thesis
    using set_prop_cases [of st l k v] assms
    by (auto simp add: lookup_def upd own_prop_set_own_value own_prop_add_own)
qed

lemma get_prop_set_prop_other_key [js_frame]:
  "k' \<noteq> k \<Longrightarrow> get_prop (set_prop st l k v) l' k' = get_prop st l' k'"
  by (simp add: get_prop_def lookup_set_prop_other_key)

lemma is_callable_set_prop [js_frame]: "is_callable (set_prop st l k v) x = is_callable st x"
  by (simp add: is_callable_def obj_at_def set_prop_shape split: jsval.split)

lemma typeof_v_set_prop [js_frame]: "typeof_v (set_prop st l k v) x = typeof_v st x"
  by (cases x) (simp_all add: is_callable_set_prop)

lemma obj_ok_set_own_value:
  "obj_ok n ob \<Longrightarrow> val_ok n v \<Longrightarrow> obj_ok n (set_own_value k v ob)"
  using set_map_entry_subset [of k "\<lambda>d. d\<lparr>pd_value := v\<rparr>" "own_props ob"]
  by (fastforce simp add: obj_ok_def set_own_value_def list_all_iff distinct_map_entry)

lemma obj_ok_add_own:
  "obj_ok n ob \<Longrightarrow> val_ok n v \<Longrightarrow> obj_ok n (add_own k v ob)"
  using set_update_subset [of k _ "own_props ob"]
  by (fastforce simp add: obj_ok_def add_own_def list_all_iff distinct_update)

lemma wf_update_obj:
  assumes wf: "wf_state st"
    and ok: "obj_ok (length (heap st)) (heap st ! l) \<Longrightarrow> obj_ok (length (heap st)) (f (heap st ! l))"
    and pr: "proto (f (heap st ! l)) = proto (heap st ! l)"
  shows "wf_state (update_obj l f st)"
proof (cases "l < length (heap st)")
  case True
  have "obj_ok (length (heap st)) (f (heap st ! l))"
    using wf ok True by (simp add: wf_state_def list_all_iff)
  then have "list_all (obj_ok (length (heap st))) ((heap st)[l := f (heap st ! l)])"
    using wf set_update_subset_insert [of "heap st" l "f (heap st ! l)"]
    by (auto simp add: wf_state_def list_all_iff)
  moreover have "list_all (chain_ok (length (heap st)) ((heap st)[l := f (heap st ! l)]))
      [0..<length (heap st)]"
    using wf pr by (simp add: wf_state_def list_all_iff chain_ok_update_props del: chain_ok.simps)
  ultimately show ?thesis
    using wf by (simp add: wf_state_def update_obj_def)
next
  case False
  with wf show ?thesis by (simp add: update_obj_def list_update_beyond)
qed

lemma wf_set_prop:
  assumes "wf_state st" and "val_ok (length (heap st)) v"
  shows "wf_state (set_prop st l k v)"
  using set_prop_cases [of st l k v] assms
  by (auto intro!: wf_update_obj obj_ok_set_own_value obj_ok_add_own)

section \<open>Extending the heap\<close>

lemma val_ok_simps [simp]:
  "val_ok n VUndef" "val_ok n VNull" "val_ok n (VBool b)" "val_ok n (VNumber x)"
  "val_ok n (VStr s)" "val_ok n (VObj l) \<longleftrightarrow> l < n"
  by (simp_all add: val_ok_def)

lemma lookup_extend [js_frame]:
  assumes "wf_state st" and "l < length (heap st)"
  shows "lookup (st\<lparr>heap := heap st @ hs\<rparr>) l k = lookup st l k"
proof -
  have "lookup (st\<lparr>heap := heap st @ hs\<rparr>) l k = find_prop (length (heap st) + length hs) (heap st) l k"
    using assms by (simp add: lookup_def find_prop_append wf_protos_closed del: find_prop.simps)
  also have "\<dots> = lookup st l k"
    using assms by (simp add: lookup_def find_prop_fuel wf_chain_ok del: find_prop.simps)
  finally show ?thesis .
qed

lemma get_prop_extend [js_frame]:
  "wf_state st \<Longrightarrow> l < length (heap st) \<Longrightarrow> get_prop (st\<lparr>heap := heap st @ hs\<rparr>) l k = get_prop st l k"
  by (simp add: get_prop_def lookup_extend)

lemma wf_intr_ok: "wf_state st \<Longrightarrow> intr_ok (length (heap st)) (intr st)"
  by (simp add: wf_state_def)

lemma get_v_extend [js_frame]:
  assumes "wf_state st" and "val_ok (length (heap st)) v"
  shows "get_v (st\<lparr>heap := heap st @ hs\<rparr>) v k = get_v st v k"
  using assms wf_intr_ok [OF assms(1)]
  by (cases v) (auto simp add: val_ok_def intr_ok_def get_prop_extend split: option.split)

lemma is_callable_extend [js_frame]:
  "val_ok (length (heap st)) v \<Longrightarrow> is_callable (st\<lparr>heap := heap st @ hs\<rparr>) v = is_callable st v"
  by (auto simp add: is_callable_def obj_at_def val_ok_def nth_append split: jsval.split)

lemma typeof_v_extend [js_frame]:
  "val_ok (length (heap st)) v \<Longrightarrow> typeof_v (st\<lparr>heap := heap st @ hs\<rparr>) v = typeof_v st v"
  by (cases v) (simp_all add: is_callable_extend)

text \<open>Values read from a well-formed state refer into the heap.\<close>

lemma get_prop_val_ok:
  assumes "wf_state st"
  shows "val_ok (length (heap st)) (get_prop st l k)"
proof (cases "lookup st l k")
  case None
  then show ?thesis by (simp add: get_prop_def val_ok_def)
next
  case (Some a)
  then obtain l' d where a: "lookup st l k = Some (l', d)" by (cases a) auto
  then have l': "l' < length (heap st)" and own: "own_prop (heap st ! l') k = Some d"
    by (simp_all add: lookup_def find_prop_SomeD)
  from own have "(k, d) \<in> set (own_props (heap st ! l'))"
    by (simp add: own_prop_def map_of_SomeD)
  with assms l' have "val_ok (length (heap st)) (pd_value d)"
    by (fastforce simp add: wf_state_def list_all_iff obj_ok_def)
  with a show ?thesis by (simp add: get_prop_def)
qed

lemma get_v_val_ok:
  "wf_state st \<Longrightarrow> get_v st v k = Inr x \<Longrightarrow> val_ok (length (heap st)) x"
  by (cases v) (auto simp add: get_prop_val_ok string_own_def split: option.splits if_splits)


section \<open>The keys of \<open>for-in\<close>\<close>

lemma enum_walk_None [simp]: "enum_walk n h None vis = []"
  by (cases n) simp_all

lemma enum_walk_fuel:
  "chain_ok n h l \<Longrightarrow> n \<le> m \<Longrightarrow> enum_walk m h (Some l) vis = enum_walk n h (Some l) vis"
proof (induction n arbitrary: m l vis)
  case 0
  then show ?case by simp
next
  case (Suc n)
  then obtain m' where m: "m = Suc m'" and nm: "n \<le> m'"
    by (cases m) auto
  have "enum_walk m' h (Some p) vis' = enum_walk n h (Some p) vis'"
    if "proto (h ! l) = Some p" for p vis'
    using Suc.prems(1) that nm by (intro Suc.IH) auto
  then show ?case
    using m by (cases "proto (h ! l)") (auto simp add: Let_def)
qed

lemma enum_walk_append:
  "protos_closed h \<Longrightarrow> l < length h \<Longrightarrow> enum_walk n (h @ hs) (Some l) vis = enum_walk n h (Some l) vis"
proof (induction n arbitrary: l vis)
  case 0
  then show ?case by simp
next
  case (Suc n)
  have "enum_walk n (h @ hs) (Some p) vis' = enum_walk n h (Some p) vis'"
    if "proto (h ! l) = Some p" for p vis'
    using Suc that by (blast intro: Suc.IH protos_closedD)
  with Suc.prems show ?case
    by (cases "proto (h ! l)") (auto simp add: nth_append Let_def)
qed

lemma enum_walk_extend:
  assumes "wf_state st" and "l < length (heap st)"
  shows "enum_walk (length (heap st) + length hs) (heap st @ hs) (Some l) vis
         = enum_walk (length (heap st)) (heap st) (Some l) vis"
  using assms
  by (simp add: enum_walk_append wf_protos_closed enum_walk_fuel wf_chain_ok del: enum_walk.simps)

lemma for_in_keys_extend [js_frame]:
  assumes "wf_state st" and "val_ok (length (heap st)) v"
  shows "for_in_keys (st\<lparr>heap := heap st @ hs\<rparr>) v = for_in_keys st v"
  using assms wf_intr_ok [OF assms(1)]
  by (cases v) (simp_all add: intr_ok_def enum_walk_extend del: enum_walk.simps)

lemma set_own_keys: "set (own_keys ob) = set (map fst (own_props ob))"
  by (auto simp add: own_keys_def Let_def)

lemma distinct_own_keys: "distinct (map fst (own_props ob)) \<Longrightarrow> distinct (own_keys ob)"
  by (auto simp add: own_keys_def Let_def)

lemma enum_walk_distinct:
  assumes "\<forall>ob \<in> set h. distinct (map fst (own_props ob))"
  shows "distinct (enum_walk n h lo vis) \<and> set (enum_walk n h lo vis) \<inter> set vis = {}"
proof (induction n arbitrary: lo vis)
  case 0
  then show ?case by simp
next
  case (Suc n)
  show ?case
  proof (cases lo)
    case None
    then show ?thesis by simp
  next
    case (Some l)
    show ?thesis
    proof (cases "l < length h")
      case True
      let ?ob = "h ! l"
      let ?ks = "filter (\<lambda>k. k \<notin> set vis) (own_keys ?ob)"
      let ?rest = "enum_walk n h (proto ?ob) (vis @ ?ks)"
      have dko: "distinct (own_keys ?ob)"
        using assms True by (simp add: distinct_own_keys)
      then have dks: "distinct ?ks"
        by simp
      have rest: "distinct ?rest" "set ?rest \<inter> set (vis @ ?ks) = {}"
        using Suc.IH by blast+
      have "set (filter (enumerable_own ?ob) ?ks) \<subseteq> set ?ks"
        by auto
      with dko rest Some True show ?thesis
        by (auto simp add: Let_def)
    next
      case False
      with Some show ?thesis by simp
    qed
  qed
qed

lemma wf_distinct_props: "wf_state st \<Longrightarrow> \<forall>ob \<in> set (heap st). distinct (map fst (own_props ob))"
  by (auto simp add: wf_state_def list_all_iff obj_ok_def)

lemma distinct_string_index_keys: "distinct (string_index_keys s)"
  by (simp add: string_index_keys_def distinct_map inj_on_def nat_str_inj)

lemma for_in_keys_distinct:
  assumes "wf_state st"
  shows "distinct (for_in_keys st v)"
proof -
  note ew = enum_walk_distinct [OF wf_distinct_props [OF assms]]
  show ?thesis
  proof (cases v)
    case (VStr s)
    let ?vis = "string_index_keys s @ [''length'']"
    let ?rest = "enum_walk (length (heap st)) (heap st) (Some (string_prototype (intr st))) ?vis"
    have "distinct ?rest" "set ?rest \<inter> set ?vis = {}"
      using ew by blast+
    with VStr show ?thesis
      by (auto simp add: distinct_string_index_keys)
  qed (simp_all add: ew del: enum_walk.simps)
qed

lemma write_allowed_extend [js_frame]:
  assumes "wf_state st" and "l < length (heap st)"
  shows "write_allowed (st\<lparr>heap := heap st @ hs\<rparr>) l k = write_allowed st l k"
proof -
  have "heap (st\<lparr>heap := heap st @ hs\<rparr>) ! l = heap st ! l"
    using assms(2) by (simp add: nth_append)
  with assms show ?thesis
    by (simp add: write_allowed_def lookup_extend split: option.split)
qed

section \<open>Inherited keys\<close>

text \<open>An enumerable key of the prototype that the object does not shadow is a \<open>for-in\<close> key.\<close>

lemma for_in_keys_inherited:
  assumes wf: "wf_state st" and t: "t < length (heap st)"
    and q: "proto (heap st ! t) = Some q" and np: "own_prop (heap st ! t) p = None"
    and en: "enumerable_own (heap st ! q) p"
  shows "p \<in> set (for_in_keys st (VObj t))"
proof -
  let ?h = "heap st"
  have ql: "q < length ?h"
    using wf_obj_ok [OF wf t] q by (simp add: obj_ok_def)
  have tq: "t \<noteq> q"
    using np en by (auto simp add: enumerable_own_def)
  then obtain m where len: "length ?h = Suc (Suc m)"
    using t ql by (cases "length ?h"; cases "length ?h - 1") auto
  obtain d where d: "own_prop (?h ! q) p = Some d" and de: "pd_enumerable d"
    using en by (auto simp add: enumerable_own_def split: option.splits)
  have inq: "p \<in> set (own_keys (?h ! q))"
    using d by (simp add: set_own_keys own_prop_def) (metis domI dom_map_of_conv_image_fst)
  have nt: "p \<notin> set (own_keys (?h ! t))"
    using np by (auto simp add: set_own_keys own_prop_def map_of_eq_None_iff)
  have "p \<in> set (enum_walk (Suc m) ?h (Some q) (own_keys (?h ! t)))"
    using ql inq nt en by (cases m) (simp_all add: Let_def)
  then show ?thesis
    using t q len by (simp add: Let_def)
qed


lemma write_allowed_set_prop_other_key [js_frame]:
  "k' \<noteq> k \<Longrightarrow> write_allowed (set_prop st l k v) l' k' = write_allowed st l' k'"
  by (simp add: write_allowed_def lookup_set_prop_other_key set_prop_shape split: option.split)


section \<open>The keys of \<open>for-in\<close>, characterised by the lookup\<close>

text \<open>
  The walk with its list of visited keys produces exactly the keys whose lookup along
  the prototype chain finds an enumerable property: a key shadowed by a property lower
  in the chain, enumerable or not, is left out.
\<close>

lemma own_prop_in_keys: "own_prop ob k \<noteq> None \<longleftrightarrow> k \<in> set (own_keys ob)"
  by (simp add: own_prop_def set_own_keys flip: dom_map_of_conv_image_fst) (simp add: dom_def)

lemma enum_walk_set:
  "k \<in> set (enum_walk n h (Some l) vis) \<longleftrightarrow>
   k \<notin> set vis \<and> (case find_prop n h l k of Some (l', d) \<Rightarrow> pd_enumerable d | None \<Rightarrow> False)"
proof (induction n arbitrary: l vis)
  case 0
  then show ?case by simp
next
  case (Suc n)
  show ?case
  proof (cases "l < length h")
    case False
    then show ?thesis by simp
  next
    case True
    let ?ob = "h ! l"
    let ?ks = "filter (\<lambda>k. k \<notin> set vis) (own_keys ?ob)"
    have rest: "k \<in> set (enum_walk n h (proto ?ob) (vis @ ?ks)) \<longleftrightarrow>
                k \<notin> set (vis @ ?ks) \<and>
                (case proto ?ob of None \<Rightarrow> False
                 | Some p \<Rightarrow> (case find_prop n h p k of Some (l', d) \<Rightarrow> pd_enumerable d | None \<Rightarrow> False))"
      using Suc.IH by (cases "proto ?ob") simp_all
    show ?thesis
    proof (cases "own_prop ?ob k")
      case None
      then have "k \<notin> set (own_keys ?ob)" using own_prop_in_keys [of ?ob k] by simp
      with None True rest show ?thesis
        by (auto simp add: Let_def enumerable_own_def split: option.split)
    next
      case (Some d)
      then have "k \<in> set (own_keys ?ob)" using own_prop_in_keys [of ?ob k] by simp
      with Some True rest show ?thesis
        by (auto simp add: Let_def enumerable_own_def)
    qed
  qed
qed

lemma for_in_keys_obj:
  "k \<in> set (for_in_keys st (VObj l)) \<longleftrightarrow>
   (case lookup st l k of Some (l', d) \<Rightarrow> pd_enumerable d | None \<Rightarrow> False)"
  by (simp add: enum_walk_set lookup_def del: enum_walk.simps)

end
