(* ===== verification/Trainwreck.thy ===== *)
theory Trainwreck
  imports JS_Objects
begin

text \<open>
  The library object \<open>trainwreck\<close> of src/trainwreck.js: its three functions \<open>fn\<close>
  (lines 19--23), \<open>prop\<close> (lines 33--42) and \<open>create\<close> (lines 50--57), and the bodies
  of the functions \<open>fn\<close> and \<open>prop\<close> return.
  Calling \<open>trainwreck.fn\<close> or \<open>trainwreck.prop\<close> allocates a new function object whose
  [[Call]] slot records the closed-over variables; running that function is
  \<open>fn_body\<close> or \<open>prop_body\<close>. The method adapter calls back into the engine
  (\<open>scope[fnName].apply(scope, arguments)\<close>), so \<open>fn_body\<close> takes the engine's call
  operation as a parameter of type \<open>call_fn\<close>: this is the interface between the
  library and the interpreter of JS_Call, which ties the knot with fuel. A call that does
  not return (runs out of fuel) is \<open>None\<close>; every other outcome is a result or an
  exception, each with the state it leaves.
\<close>

type_synonym 'a outcome = "(js_error + 'a) \<times> js_state"

type_synonym call_fn = "js_state \<Rightarrow> jsval \<Rightarrow> jsval \<Rightarrow> jsval list \<Rightarrow> jsval outcome option"

text \<open>The \<open>i\<close>-th argument of a call, \<open>undefined\<close> when fewer were passed.\<close>

definition arg_at :: "jsval list \<Rightarrow> nat \<Rightarrow> jsval" where
  "arg_at args i = (if i < length args then args ! i else VUndef)"

section \<open>\<open>trainwreck.fn\<close>: the chainable method adapter\<close>

text \<open>\<open>fn(fnName, scope, chain)\<close> returns a new function closing over its arguments.\<close>

definition trainwreck_fn :: "key \<Rightarrow> jsval \<Rightarrow> jsval \<Rightarrow> js_state \<Rightarrow> jsval \<times> js_state" where
  "trainwreck_fn fnName scope chain st =
     (let (l, st') = alloc_obj (function_object st (FnClosure fnName scope chain)) st
      in (VObj l, st'))"

text \<open>
  On entry the adapter gets its \<open>arguments\<close> object (sloppy mode, no formal
  parameters): \<open>length\<close>, the indices, and \<open>callee\<close>, the adapter itself.
\<close>

definition arguments_object :: "js_state \<Rightarrow> loc \<Rightarrow> jsval list \<Rightarrow> js_obj" where
  "arguments_object st self args =
     \<lparr>own_props =
        (''length'', \<lparr>pd_value = VNumber (Num (of_nat (length args))), pd_writable = True,
                      pd_enumerable = False\<rparr>)
        # map (\<lambda>i. (nat_str i, \<lparr>pd_value = args ! i, pd_writable = True, pd_enumerable = True\<rparr>))
              [0..<length args]
        @ [(''callee'', \<lparr>pd_value = VObj self, pd_writable = True, pd_enumerable = False\<rparr>)],
      proto = Some (object_prototype (intr st)), extensible = True, call_slot = None\<rparr>"

text \<open>
  The body of the adapter, \<open>return scope[fnName].apply(scope, arguments) || chain;\<close>:
  read \<open>scope[fnName]\<close> now (not when the adapter was made), read its \<open>apply\<close>, call
  that with \<open>this\<close> the method and the arguments \<open>(scope, arguments)\<close>, and return the
  result if it is truthy, else \<open>chain\<close>. \<open>self\<close> is the adapter's own location.
\<close>

definition fn_body ::
  "call_fn \<Rightarrow> loc \<Rightarrow> key \<Rightarrow> jsval \<Rightarrow> jsval \<Rightarrow> js_state \<Rightarrow> jsval list \<Rightarrow> jsval outcome option" where
  "fn_body k self fnName scope chain st args =
     (let (argl, st1) = alloc_obj (arguments_object st self args) st
      in case get_v st1 scope fnName of
           Inl e \<Rightarrow> Some (Inl e, st1)
         | Inr callee \<Rightarrow>
             (case get_v st1 callee ''apply'' of
                Inl e \<Rightarrow> Some (Inl e, st1)
              | Inr ap \<Rightarrow>
                  if is_callable st1 ap then
                    (case k st1 ap callee [scope, VObj argl] of
                       None \<Rightarrow> None
                     | Some (Inl e, st2) \<Rightarrow> Some (Inl e, st2)
                     | Some (Inr r, st2) \<Rightarrow> Some (Inr (js_or r chain), st2))
                  else Some (Inl (TypeError ''apply is not a function''), st1)))"

section \<open>\<open>trainwreck.prop\<close>: the chainable getter/setter\<close>

definition trainwreck_prop :: "key \<Rightarrow> jsval \<Rightarrow> jsval \<Rightarrow> js_state \<Rightarrow> jsval \<times> js_state" where
  "trainwreck_prop propName scope chain st =
     (let (l, st') = alloc_obj (function_object st (PropClosure propName scope chain)) st
      in (VObj l, st'))"

text \<open>
  The body of the accessor \<open>function(val)\<close>: with \<open>val\<close> of type \<open>'undefined'\<close> (no
  argument, or \<open>undefined\<close> passed) it returns \<open>scope[propName]\<close>; otherwise it assigns
  \<open>scope[propName] = val\<close> and returns \<open>chain\<close>. It never calls a function, so it
  always returns.
\<close>

definition prop_body :: "key \<Rightarrow> jsval \<Rightarrow> jsval \<Rightarrow> js_state \<Rightarrow> jsval list \<Rightarrow> jsval outcome" where
  "prop_body propName scope chain st args =
     (let val = arg_at args 0
      in if typeof_v st val = ''undefined'' then
           (case get_v st scope propName of Inl e \<Rightarrow> (Inl e, st) | Inr v \<Rightarrow> (Inr v, st))
         else
           (case put_v st scope propName val of Inl e \<Rightarrow> (Inl e, st) | Inr st' \<Rightarrow> (Inr chain, st')))"

section \<open>\<open>trainwreck.create\<close>\<close>

text \<open>
  One iteration of the loop, line 54:
  \<open>obj[prop] = (typeof target[prop] === 'function') ? trainwreck.fn(prop, target, obj)
  : trainwreck.prop(prop, target, obj);\<close>
\<close>

definition create_step :: "jsval \<Rightarrow> loc \<Rightarrow> key \<Rightarrow> js_state \<Rightarrow> unit outcome" where
  "create_step target obj p st =
     (case get_v st target p of
        Inl e \<Rightarrow> (Inl e, st)
      | Inr v \<Rightarrow>
          (let (f, st1) = (if typeof_v st v = ''function''
                           then trainwreck_fn p target (VObj obj) st
                           else trainwreck_prop p target (VObj obj) st)
           in case put_v st1 (VObj obj) p f of
                Inl e \<Rightarrow> (Inl e, st1)
              | Inr st2 \<Rightarrow> (Inr (), st2)))"

text \<open>The \<open>for (prop in target)\<close> loop over the keys, stopping at an exception.\<close>

fun create_loop :: "jsval \<Rightarrow> loc \<Rightarrow> key list \<Rightarrow> js_state \<Rightarrow> unit outcome" where
  "create_loop target obj [] st = (Inr (), st)"
| "create_loop target obj (p # ps) st =
     (case create_step target obj p st of
        (Inl e, st') \<Rightarrow> (Inl e, st')
      | (Inr u, st') \<Rightarrow> create_loop target obj ps st')"

text \<open>
  \<open>create(target)\<close>: allocate \<open>obj = {}\<close>, run the loop over the \<open>for-in\<close> keys of
  \<open>target\<close>, return \<open>obj\<close>. The keys are those of the state after \<open>obj\<close> is
  allocated; the loop body writes only to \<open>obj\<close>, which is on no chain of
  \<open>target\<close>, so taking them up front is the same as enumerating them live (lemma
  \<open>for_in_keys_wrapper_state\<close> below: every intermediate state of the loop is a
  \<open>wrapper_state\<close>, by \<open>create_loop_spec\<close>).
\<close>

definition trainwreck_create :: "jsval \<Rightarrow> js_state \<Rightarrow> jsval outcome" where
  "trainwreck_create target st =
     (let (obj, st1) = alloc_obj (empty_object st) st
      in case create_loop target obj (for_in_keys st1 target) st1 of
           (Inl e, st2) \<Rightarrow> (Inl e, st2)
         | (Inr u, st2) \<Rightarrow> (Inr (VObj obj), st2))"

section \<open>The library object and \<open>create\<close> through it\<close>

text \<open>
  \<open>fn : function(fnName, scope, chain){...}\<close> (line 19) called as a method of the
  library object: its parameters are bound to the first three arguments, and it returns
  the new adapter. A property name that is not a string is outside the model (its
  \<open>ToPropertyKey\<close> would run only when the adapter reads \<open>scope[fnName]\<close>).
\<close>

definition lib_fn_call :: "js_state \<Rightarrow> jsval list \<Rightarrow> jsval outcome" where
  "lib_fn_call st args =
     (case arg_at args 0 of
        VStr fnName \<Rightarrow> (let (f, st') = trainwreck_fn fnName (arg_at args 1) (arg_at args 2) st in (Inr f, st'))
      | _ \<Rightarrow> (Inl (Unsupported ''a property name that is not a string''), st))"

text \<open>\<open>prop : function(propName, scope, chain){...}\<close> (line 33), likewise.\<close>

definition lib_prop_call :: "js_state \<Rightarrow> jsval list \<Rightarrow> jsval outcome" where
  "lib_prop_call st args =
     (case arg_at args 0 of
        VStr propName \<Rightarrow>
          (let (f, st') = trainwreck_prop propName (arg_at args 1) (arg_at args 2) st in (Inr f, st'))
      | _ \<Rightarrow> (Inl (Unsupported ''a property name that is not a string''), st))"

text \<open>
  Line 54 as the code runs it: \<open>trainwreck.fn\<close> and \<open>trainwreck.prop\<close> are read from
  the library object \<open>lib\<close> (the variable \<open>trainwreck\<close>) at every iteration and
  called, with \<open>this\<close> the library, through the engine's [[Call]] \<open>k\<close>; a value that
  is not callable throws a TypeError.
\<close>

definition create_step_dyn :: "call_fn \<Rightarrow> loc \<Rightarrow> jsval \<Rightarrow> loc \<Rightarrow> key \<Rightarrow> js_state \<Rightarrow> unit outcome option" where
  "create_step_dyn k lib target obj p st =
     (case get_v st target p of
        Inl e \<Rightarrow> Some (Inl e, st)
      | Inr v \<Rightarrow>
          (case get_v st (VObj lib) (if typeof_v st v = ''function'' then ''fn'' else ''prop'') of
             Inl e \<Rightarrow> Some (Inl e, st)
           | Inr f \<Rightarrow>
               if is_callable st f then
                 (case k st f (VObj lib) [VStr p, target, VObj obj] of
                    None \<Rightarrow> None
                  | Some (Inl e, st1) \<Rightarrow> Some (Inl e, st1)
                  | Some (Inr r, st1) \<Rightarrow>
                      (case put_v st1 (VObj obj) p r of
                         Inl e \<Rightarrow> Some (Inl e, st1)
                       | Inr st2 \<Rightarrow> Some (Inr (), st2)))
               else Some (Inl (TypeError ''is not a function''), st)))"

fun create_loop_dyn :: "call_fn \<Rightarrow> loc \<Rightarrow> jsval \<Rightarrow> loc \<Rightarrow> key list \<Rightarrow> js_state \<Rightarrow> unit outcome option" where
  "create_loop_dyn k lib target obj [] st = Some (Inr (), st)"
| "create_loop_dyn k lib target obj (p # ps) st =
     (case create_step_dyn k lib target obj p st of
        None \<Rightarrow> None
      | Some (Inl e, st') \<Rightarrow> Some (Inl e, st')
      | Some (Inr u, st') \<Rightarrow> create_loop_dyn k lib target obj ps st')"

text \<open>\<open>create : function(target){...}\<close> (lines 50--57) as a method of the library \<open>lib\<close>.\<close>

definition create_dyn :: "call_fn \<Rightarrow> loc \<Rightarrow> jsval \<Rightarrow> js_state \<Rightarrow> jsval outcome option" where
  "create_dyn k lib target st =
     (let (obj, st1) = alloc_obj (empty_object st) st
      in case create_loop_dyn k lib target obj (for_in_keys st1 target) st1 of
           None \<Rightarrow> None
         | Some (Inl e, st2) \<Rightarrow> Some (Inl e, st2)
         | Some (Inr u, st2) \<Rightarrow> Some (Inr (VObj obj), st2))"

text \<open>
  The object literal of lines 9--59, \<open>var trainwreck = {fn: ..., prop: ..., create:
  ...}\<close>: the object is created first, then the three function expressions in order,
  then the properties are defined; \<open>create\<close> closes over the variable \<open>trainwreck\<close>.
\<close>

definition library_object :: "js_state \<Rightarrow> loc \<times> js_state" where
  "library_object st =
     (let (lib, st1) = alloc_obj (empty_object st) st;
          (f, st2) = alloc_obj (function_object st LibFn) st1;
          (p, st3) = alloc_obj (function_object st LibProp) st2;
          (c, st4) = alloc_obj (function_object st (LibCreate lib)) st3
      in (lib, update_obj lib
                 (add_own ''create'' (VObj c) \<circ> add_own ''prop'' (VObj p) \<circ> add_own ''fn'' (VObj f)) st4))"

section \<open>What \<open>create\<close> builds: the abstract specification\<close>

text \<open>
  The wrapper promised by the documentation of \<open>create\<close>, stated without the loop:
  one new object \<open>w\<close> (allocated first), then one new function per \<open>for-in\<close> key of
  the target, in key order; the wrapper's own property for key number \<open>i\<close> is the
  \<open>i\<close>-th of those functions; a key whose value was a function when \<open>create\<close> ran
  gets a method adapter, every other key an accessor, each closing over the key, the
  target and the wrapper.
\<close>

definition is_method_at :: "js_state \<Rightarrow> jsval \<Rightarrow> key \<Rightarrow> bool" where
  "is_method_at st target p =
     (case get_v st target p of Inr v \<Rightarrow> typeof_v st v = ''function'' | Inl e \<Rightarrow> False)"

definition adapter_for :: "js_state \<Rightarrow> jsval \<Rightarrow> loc \<Rightarrow> key \<Rightarrow> closure" where
  "adapter_for st target w p =
     (if is_method_at st target p then FnClosure p target (VObj w) else PropClosure p target (VObj w))"

definition wrapper_entries :: "loc \<Rightarrow> key list \<Rightarrow> (key \<times> prop_desc) list" where
  "wrapper_entries w ks =
     map (\<lambda>i. (ks ! i, \<lparr>pd_value = VObj (Suc w + i), pd_writable = True, pd_enumerable = True\<rparr>))
       [0..<length ks]"

text \<open>The state once the keys \<open>ks\<close> have been wrapped.\<close>

definition wrapper_state :: "jsval \<Rightarrow> js_state \<Rightarrow> key list \<Rightarrow> js_state" where
  "wrapper_state target st ks =
     (let w = length (heap st)
      in st\<lparr>heap := heap st
            @ (empty_object st)\<lparr>own_props := wrapper_entries w ks\<rparr>
            # map (\<lambda>p. function_object st (adapter_for st target w p)) ks\<rparr>)"

definition create_spec :: "jsval \<Rightarrow> js_state \<Rightarrow> jsval \<times> js_state" where
  "create_spec target st =
     (VObj (length (heap st)), wrapper_state target st (for_in_keys st target))"

text \<open>
  The hypothesis under which a fresh object takes every key: no key is a non-writable
  property inherited from \<open>Object.prototype\<close>'s chain (true of the standard
  \<open>Object.prototype\<close>, whose data properties are all writable).
\<close>

definition inherits_writable :: "js_state \<Rightarrow> key \<Rightarrow> bool" where
  "inherits_writable st p =
     (case lookup st (object_prototype (intr st)) p of Some (l, d) \<Rightarrow> pd_writable d | None \<Rightarrow> True)"

section \<open>The accessor's two branches\<close>

lemma typeof_undefined_iff: "typeof_v st v = ''undefined'' \<longleftrightarrow> v = VUndef"
  by (cases v) simp_all

lemma prop_body_read:
  "arg_at args 0 = VUndef \<Longrightarrow> prop_body propName scope chain st args = (get_v st scope propName, st)"
  by (simp add: prop_body_def split: sum.split)

lemma prop_body_write:
  "arg_at args 0 = x \<Longrightarrow> x \<noteq> VUndef \<Longrightarrow>
   prop_body propName scope chain st args =
     (case put_v st scope propName x of Inl e \<Rightarrow> (Inl e, st) | Inr st' \<Rightarrow> (Inr chain, st'))"
  by (simp add: prop_body_def typeof_undefined_iff)

section \<open>\<open>create\<close> refines its specification\<close>

lemma map_fst_wrapper_entries [simp]: "map fst (wrapper_entries w ks) = ks"
  by (simp add: wrapper_entries_def comp_def map_nth)

lemma fst_set_wrapper_entries [simp]: "fst ` set (wrapper_entries w ks) = set ks"
  by (metis map_fst_wrapper_entries set_map)

lemma wrapper_entries_snoc:
  "wrapper_entries w (ks @ [p]) =
     wrapper_entries w ks
     @ [(p, \<lparr>pd_value = VObj (Suc w + length ks), pd_writable = True, pd_enumerable = True\<rparr>)]"
  by (simp add: wrapper_entries_def nth_append)

lemma wrapper_state_heap:
  "heap (wrapper_state target st ks) =
     heap st @ (empty_object st)\<lparr>own_props := wrapper_entries (length (heap st)) ks\<rparr>
     # map (\<lambda>p. function_object st (adapter_for st target (length (heap st)) p)) ks"
  by (simp add: wrapper_state_def Let_def)

lemma wrapper_state_intr [simp]: "intr (wrapper_state target st ks) = intr st"
  by (simp add: wrapper_state_def Let_def)

text \<open>The fresh wrapper has no own key outside those wrapped so far, and its prototype
  is \<open>Object.prototype\<close>: a lookup of a new key on it is a lookup on \<open>Object.prototype\<close>.\<close>

lemma lookup_wrapper_fresh_key:
  assumes wf: "wf_state st" and p: "p \<notin> set ks"
    and h: "heap st' = heap (wrapper_state target st ks) @ hs"
  shows "lookup st' (length (heap st)) p = lookup st (object_prototype (intr st)) p"
proof -
  let ?n = "length (heap st)"
  let ?op = "object_prototype (intr st)"
  have op: "?op < ?n" using wf_intr_ok [OF wf] by (simp add: intr_ok_def)
  have len: "length (heap st') = Suc (?n + length ks + length hs)"
    using h by (simp add: wrapper_state_heap)
  have at_w: "heap st' ! ?n = (empty_object st)\<lparr>own_props := wrapper_entries ?n ks\<rparr>"
    using h by (simp add: wrapper_state_heap nth_append)
  have none: "own_prop (heap st' ! ?n) p = None"
    using at_w p by (simp add: own_prop_def map_of_eq_None_iff)
  have "lookup st' ?n p = find_prop (?n + length ks + length hs) (heap st') ?op p"
    using len at_w none by (simp add: lookup_def empty_object_def)
  also have "\<dots> = find_prop (?n + length ks + length hs) (heap st) ?op p"
    using h op wf by (simp add: wrapper_state_heap find_prop_append wf_protos_closed
        del: find_prop.simps)
  also have "\<dots> = lookup st ?op p"
    using op wf by (simp add: lookup_def find_prop_fuel wf_chain_ok del: find_prop.simps)
  finally show ?thesis .
qed


lemma get_v_not_nullish:
  "target \<noteq> VUndef \<Longrightarrow> target \<noteq> VNull \<Longrightarrow> \<exists>v. get_v st target p = Inr v"
  by (cases target) (auto split: option.split)

lemma add_own_wrapper:
  "p \<notin> set ks \<Longrightarrow>
   add_own p (VObj (Suc w + length ks)) ((empty_object st)\<lparr>own_props := wrapper_entries w ks\<rparr>)
   = (empty_object st)\<lparr>own_props := wrapper_entries w (ks @ [p])\<rparr>"
  by (simp add: add_own_def update_absent wrapper_entries_snoc)

lemma create_step_spec:
  assumes wf: "wf_state st" and tv: "val_ok (length (heap st)) target"
    and tnn: "target \<noteq> VUndef" "target \<noteq> VNull"
    and p: "p \<notin> set ks" and iw: "inherits_writable st p"
  shows "create_step target (length (heap st)) p (wrapper_state target st ks)
         = (Inr (), wrapper_state target st (ks @ [p]))"
proof -
  let ?n = "length (heap st)"
  let ?W = "(empty_object st)\<lparr>own_props := wrapper_entries ?n ks\<rparr>"
  let ?F = "map (\<lambda>p. function_object st (adapter_for st target ?n p)) ks"
  let ?S = "wrapper_state target st ks"
  let ?c = "adapter_for st target ?n p"
  let ?m = "Suc (?n + length ks)"
  let ?S1 = "st\<lparr>heap := heap st @ ?W # ?F @ [function_object st ?c]\<rparr>"
  have S: "?S = st\<lparr>heap := heap st @ ?W # ?F\<rparr>"
    by (simp add: wrapper_state_def Let_def)
  obtain v where gv: "get_v st target p = Inr v"
    using get_v_not_nullish [OF tnn] by blast
  have gvS: "get_v ?S target p = Inr v"
    using S gv get_v_extend [OF wf tv] by metis
  have tyS: "typeof_v ?S v = typeof_v st v"
    using S typeof_v_extend [OF get_v_val_ok [OF wf gv]] by metis
  have S1: "?S\<lparr>heap := heap ?S @ [function_object st ?c]\<rparr> = ?S1"
    using S by simp
  have fo: "function_object ?S c' = function_object st c'" for c'
    by (simp add: function_object_def)
  have len: "length (heap ?S) = ?m"
    by (simp add: wrapper_state_heap)
  have alloc: "(if typeof_v ?S v = ''function'' then trainwreck_fn p target (VObj ?n) ?S
                else trainwreck_prop p target (VObj ?n) ?S) = (VObj ?m, ?S1)"
  proof (cases "typeof_v st v = ''function''")
    case True
    then have c: "FnClosure p target (VObj ?n) = ?c"
      by (simp add: adapter_for_def is_method_at_def gv)
    from True show ?thesis
      by (simp add: tyS trainwreck_fn_def alloc_obj_def fo len c S1)
  next
    case False
    then have c: "PropClosure p target (VObj ?n) = ?c"
      by (simp add: adapter_for_def is_method_at_def gv)
    from False show ?thesis
      by (simp add: tyS trainwreck_prop_def alloc_obj_def fo len c S1)
  qed
  have lk: "lookup ?S1 ?n p = lookup st (object_prototype (intr st)) p"
    by (rule lookup_wrapper_fresh_key [OF wf p, where target = target
          and hs = "[function_object st ?c]"]) (simp add: wrapper_state_heap)
  have w_at: "heap ?S1 ! ?n = ?W"
    by (simp add: nth_append)
  have set: "set_prop ?S1 ?n p (VObj ?m) = update_obj ?n (add_own p (VObj ?m)) ?S1"
  proof (cases "lookup st (object_prototype (intr st)) p")
    case None
    with lk w_at show ?thesis
      by (simp add: set_prop_def create_data_prop_def empty_object_def)
  next
    case (Some a)
    then obtain l' d where a: "lookup st (object_prototype (intr st)) p = Some (l', d)"
      by (cases a) auto
    then have "l' < ?n"
      by (simp add: lookup_def find_prop_SomeD)
    with a lk w_at iw show ?thesis
      by (simp add: set_prop_def create_data_prop_def empty_object_def inherits_writable_def)
  qed
  have upd: "update_obj ?n (add_own p (VObj ?m)) ?S1 = wrapper_state target st (ks @ [p])"
    using add_own_wrapper [OF p, of ?n st]
    by (simp add: update_obj_def wrapper_state_def Let_def nth_append list_update_append)
  show ?thesis
    using alloc set upd by (simp add: create_step_def gvS)
qed


lemma create_loop_spec:
  assumes wf: "wf_state st" and tv: "val_ok (length (heap st)) target"
    and tnn: "target \<noteq> VUndef" "target \<noteq> VNull"
    and d: "distinct (ks @ ps)" and iw: "\<forall>p \<in> set ps. inherits_writable st p"
  shows "create_loop target (length (heap st)) ps (wrapper_state target st ks)
         = (Inr (), wrapper_state target st (ks @ ps))"
  using d iw
proof (induction ps arbitrary: ks)
  case Nil
  then show ?case by simp
next
  case (Cons p ps)
  have step: "create_step target (length (heap st)) p (wrapper_state target st ks)
              = (Inr (), wrapper_state target st (ks @ [p]))"
    using Cons.prems by (intro create_step_spec [OF wf tv tnn]) auto
  have "create_loop target (length (heap st)) ps (wrapper_state target st (ks @ [p]))
        = (Inr (), wrapper_state target st ((ks @ [p]) @ ps))"
    using Cons.prems by (intro Cons.IH) auto
  with step show ?case by simp
qed

lemma wrapper_state_Nil: "wrapper_state target st [] = snd (alloc_obj (empty_object st) st)"
  by (simp add: wrapper_state_def alloc_obj_def wrapper_entries_def empty_object_def)

theorem trainwreck_create_spec:
  assumes wf: "wf_state st" and tv: "val_ok (length (heap st)) target"
    and iw: "\<forall>p \<in> set (for_in_keys st target). inherits_writable st p"
  shows "trainwreck_create target st = (Inr (fst (create_spec target st)), snd (create_spec target st))"
proof -
  let ?st1 = "snd (alloc_obj (empty_object st) st)"
  let ?ks = "for_in_keys st target"
  have keys: "for_in_keys ?st1 target = ?ks"
    using for_in_keys_extend [OF wf tv, of "[empty_object st]"] by (simp add: alloc_obj_def)
  have loop: "create_loop target (length (heap st)) ?ks ?st1 = (Inr (), wrapper_state target st ?ks)"
  proof (cases "target = VUndef \<or> target = VNull")
    case True
    then show ?thesis by (auto simp add: wrapper_state_Nil)
  next
    case False
    then show ?thesis
      using create_loop_spec [OF wf tv _ _ _ iw, of "[]"] for_in_keys_distinct [OF wf]
      by (simp add: wrapper_state_Nil)
  qed
  show ?thesis
    using keys loop by (simp add: trainwreck_create_def alloc_obj_def create_spec_def)
qed

section \<open>The wrapper's entries\<close>

lemma wrapper_entries_zip:
  "wrapper_entries w ks =
     zip ks (map (\<lambda>i. \<lparr>pd_value = VObj (Suc w + i), pd_writable = True, pd_enumerable = True\<rparr>)
               [0..<length ks])"
  by (rule nth_equalityI) (simp_all add: wrapper_entries_def)

lemma map_of_wrapper_entries:
  "distinct ks \<Longrightarrow> i < length ks \<Longrightarrow>
   map_of (wrapper_entries w ks) (ks ! i)
     = Some \<lparr>pd_value = VObj (Suc w + i), pd_writable = True, pd_enumerable = True\<rparr>"
  by (simp add: wrapper_entries_zip map_of_zip_nth)

lemma wrapper_key:
  assumes d: "distinct ks" and i: "i < length ks"
  shows "get_v (wrapper_state target st ks) (VObj (length (heap st))) (ks ! i)
           = Inr (VObj (Suc (length (heap st)) + i))
         \<and> obj_at (wrapper_state target st ks) (Suc (length (heap st)) + i)
           = Some (function_object st (adapter_for st target (length (heap st)) (ks ! i)))"
proof
  let ?n = "length (heap st)"
  let ?S = "wrapper_state target st ks"
  have len: "length (heap ?S) = Suc (?n + length ks)"
    by (simp add: wrapper_state_heap)
  have at_w: "heap ?S ! ?n = (empty_object st)\<lparr>own_props := wrapper_entries ?n ks\<rparr>"
    by (simp add: wrapper_state_heap nth_append)
  have "lookup ?S ?n (ks ! i)
        = Some (?n, \<lparr>pd_value = VObj (Suc ?n + i), pd_writable = True, pd_enumerable = True\<rparr>)"
    unfolding lookup_def
    by (rule find_prop_own) (use len at_w d i in \<open>simp_all add: own_prop_def map_of_wrapper_entries\<close>)
  then show "get_v ?S (VObj ?n) (ks ! i) = Inr (VObj (Suc ?n + i))"
    by (simp add: get_prop_def)
  show "obj_at ?S (Suc ?n + i) = Some (function_object st (adapter_for st target ?n (ks ! i)))"
    using len i by (simp add: obj_at_def wrapper_state_heap nth_append)
qed

lemma wrapper_state_extends: "\<exists>hs. wrapper_state target st ks = st\<lparr>heap := heap st @ hs\<rparr>"
  unfolding wrapper_state_def Let_def by blast

lemma for_in_keys_wrapper_state:
  "wf_state st \<Longrightarrow> val_ok (length (heap st)) target \<Longrightarrow>
   for_in_keys (wrapper_state target st ks) target = for_in_keys st target"
  using wrapper_state_extends [of target st ks] for_in_keys_extend by metis

section \<open>\<open>create\<close> keeps the invariant\<close>

lemma closure_ok_Suc: "closure_ok n c \<Longrightarrow> closure_ok (Suc n) c"
  by (cases c) (auto intro: val_ok_mono)

lemma wf_alloc_function:
  assumes wf: "wf_state st" and c: "closure_ok (length (heap st)) c"
  shows "wf_state (snd (alloc_obj (function_object st c) st))"
proof (rule wf_alloc [OF wf])
  have fp: "function_prototype (intr st) < length (heap st)"
    using wf_intr_ok [OF wf] by (simp add: intr_ok_def)
  then show "obj_ok (Suc (length (heap st))) (function_object st c)"
    using closure_ok_Suc [OF c] by (simp add: obj_ok_def function_object_def)
  show "case proto (function_object st c) of None \<Rightarrow> True | Some p \<Rightarrow> p < length (heap st)"
    using fp by (simp add: function_object_def)
qed

lemma create_step_state:
  "snd (create_step target obj p st) =
     (case get_v st target p of
        Inl e \<Rightarrow> st
      | Inr v \<Rightarrow>
          set_prop (snd (alloc_obj (function_object st
              (if typeof_v st v = ''function'' then FnClosure p target (VObj obj)
               else PropClosure p target (VObj obj))) st))
            obj p (VObj (length (heap st))))"
  by (simp add: create_step_def trainwreck_fn_def trainwreck_prop_def alloc_obj_def split: sum.split)

lemma wf_create_step:
  assumes wf: "wf_state st" and tv: "val_ok (length (heap st)) target"
    and ob: "obj < length (heap st)"
  shows "wf_state (snd (create_step target obj p st))
         \<and> length (heap st) \<le> length (heap (snd (create_step target obj p st)))"
proof (cases "get_v st target p")
  case (Inl e)
  with wf show ?thesis by (simp add: create_step_state)
next
  case (Inr v)
  let ?c = "if typeof_v st v = ''function'' then FnClosure p target (VObj obj)
            else PropClosure p target (VObj obj)"
  let ?st1 = "snd (alloc_obj (function_object st ?c) st)"
  have "closure_ok (length (heap st)) ?c"
    using tv ob by simp
  then have "wf_state ?st1"
    by (rule wf_alloc_function [OF wf])
  then have "wf_state (set_prop ?st1 obj p (VObj (length (heap st))))"
    by (rule wf_set_prop) simp
  with Inr show ?thesis
    by (simp add: create_step_state set_prop_shape)
qed

lemma wf_create_loop:
  "wf_state st \<Longrightarrow> val_ok (length (heap st)) target \<Longrightarrow> obj < length (heap st) \<Longrightarrow>
   wf_state (snd (create_loop target obj ps st))"
proof (induction ps arbitrary: st)
  case Nil
  then show ?case by simp
next
  case (Cons p ps)
  obtain r st' where cs: "create_step target obj p st = (r, st')"
    by (cases "create_step target obj p st")
  have wf': "wf_state st'" and le: "length (heap st) \<le> length (heap st')"
    using wf_create_step [OF Cons.prems, of p] cs by simp_all
  have "val_ok (length (heap st')) target" "obj < length (heap st')"
    using Cons.prems le by (auto intro: val_ok_mono)
  with Cons.IH [OF wf'] wf' cs show ?case
    by (cases r) simp_all
qed

lemma wf_trainwreck_create:
  assumes wf: "wf_state st" and tv: "val_ok (length (heap st)) target"
  shows "wf_state (snd (trainwreck_create target st))"
proof -
  let ?n = "length (heap st)"
  let ?st1 = "snd (alloc_obj (empty_object st) st)"
  have op: "object_prototype (intr st) < ?n"
    using wf_intr_ok [OF wf] by (simp add: intr_ok_def)
  have wf1: "wf_state ?st1"
    by (rule wf_alloc [OF wf]) (use op in \<open>simp_all add: obj_ok_def empty_object_def\<close>)
  obtain r s where cl: "create_loop target ?n (for_in_keys ?st1 target) ?st1 = (r, s)"
    by (cases "create_loop target ?n (for_in_keys ?st1 target) ?st1")
  have "wf_state (snd (create_loop target ?n (for_in_keys ?st1 target) ?st1))"
    by (rule wf_create_loop [OF wf1]) (use tv in \<open>auto intro: val_ok_mono\<close>)
  with cl show ?thesis
    by (cases r) (simp_all add: trainwreck_create_def alloc_obj_def [of "empty_object st"])
qed

end
