(* ===== verification/JS_Call.thy ===== *)
theory JS_Call
  imports Trainwreck
begin

text \<open>
  The engine's [[Call]] for the function objects that occur in a heap built by
  trainwreck.js: the adapter and the accessor of the library (Trainwreck), the built-in
  \<open>Function.prototype.apply\<close> the adapter calls through, and the methods of the program
  using the library. Those methods are a parameter \<open>natives\<close> of the model: native
  method \<open>i\<close> is any function from the state, \<open>this\<close> and the arguments to an
  outcome, so every lemma below holds for every program. They do not call back into
  the engine.
  Calls nest (an adapter can call an adapter, without bound), so \<open>call\<close> takes fuel,
  spent one unit per nested call; \<open>None\<close> is a call that does not return with the
  fuel given. The lemmas show that more fuel never changes a result, and how much fuel
  the library's own calls need.
\<close>

type_synonym natives = "nat \<Rightarrow> js_state \<Rightarrow> jsval \<Rightarrow> jsval list \<Rightarrow> jsval outcome"

section \<open>\<open>Function.prototype.apply\<close>\<close>

text \<open>
  \<open>ToLength\<close> of the \<open>length\<close> an array-like reports. The coercion of a String or an
  Object (a string grammar, or a call of \<open>valueOf\<close>) is outside the model. The bound
  is \<open>2^53 - 1\<close>.
\<close>

fun to_length :: "jsval \<Rightarrow> js_error + nat" where
  "to_length (VNumber (Num q)) = Inr (if q \<le> 0 then 0 else nat (min \<lfloor>q\<rfloor> 9007199254740991))"
| "to_length (VNumber NaN) = Inr 0"
| "to_length (VNumber PosInf) = Inr 9007199254740991"
| "to_length (VNumber NegInf) = Inr 0"
| "to_length VUndef = Inr 0"
| "to_length VNull = Inr 0"
| "to_length (VBool b) = Inr (if b then 1 else 0)"
| "to_length (VStr s) = Inl (Unsupported ''ToLength of a String'')"
| "to_length (VObj l) = Inl (Unsupported ''ToLength of an Object'')"

text \<open>\<open>CreateListFromArrayLike\<close>: the values at the indices below \<open>length\<close>.\<close>

definition list_from_array_like :: "js_state \<Rightarrow> jsval \<Rightarrow> js_error + jsval list" where
  "list_from_array_like st v =
     (case v of
        VObj l \<Rightarrow>
          (case to_length (get_prop st l ''length'') of
             Inl e \<Rightarrow> Inl e
           | Inr n \<Rightarrow> Inr (map (\<lambda>i. get_prop st l (nat_str i)) [0..<n]))
      | _ \<Rightarrow> Inl (TypeError ''CreateListFromArrayLike called on non-object''))"

text \<open>\<open>func.apply(thisArg, argArray)\<close>.\<close>

definition apply_builtin :: "call_fn \<Rightarrow> js_state \<Rightarrow> jsval \<Rightarrow> jsval list \<Rightarrow> jsval outcome option" where
  "apply_builtin k st func args =
     (let thisArg = arg_at args 0; argArray = arg_at args 1
      in if \<not> is_callable st func
         then Some (Inl (TypeError ''Function.prototype.apply was called on a non-function''), st)
         else if argArray = VUndef \<or> argArray = VNull then k st func thisArg []
         else (case list_from_array_like st argArray of
                 Inl e \<Rightarrow> Some (Inl e, st)
               | Inr xs \<Rightarrow> k st func thisArg xs))"

section \<open>[[Call]]\<close>

fun call :: "nat \<Rightarrow> natives \<Rightarrow> call_fn" where
  "call 0 nats st f this args = None"
| "call (Suc n) nats st f this args =
     (case f of
        VObj l \<Rightarrow>
          (case obj_at st l of
             Some ob \<Rightarrow>
               (case call_slot ob of
                  Some (NativeFn i) \<Rightarrow> Some (nats i st this args)
                | Some (FnClosure name scope chain) \<Rightarrow> fn_body (call n nats) l name scope chain st args
                | Some (PropClosure name scope chain) \<Rightarrow> Some (prop_body name scope chain st args)
                | Some ApplyBuiltin \<Rightarrow> apply_builtin (call n nats) st this args
                | Some LibFn \<Rightarrow> Some (lib_fn_call st args)
                | Some LibProp \<Rightarrow> Some (lib_prop_call st args)
                | Some (LibCreate lib) \<Rightarrow> create_dyn (call n nats) lib (arg_at args 0) st
                | None \<Rightarrow> Some (Inl (TypeError ''is not a function''), st))
           | None \<Rightarrow> Some (Inl (TypeError ''is not a function''), st))
      | _ \<Rightarrow> Some (Inl (TypeError ''is not a function''), st))"

text \<open>
  A method call \<open>v.name(args)\<close>: read the property (a TypeError on \<open>undefined\<close> and
  \<open>null\<close>), then call it with \<open>this\<close> bound to \<open>v\<close>; a value that is not callable
  throws a TypeError.
\<close>

definition invoke :: "nat \<Rightarrow> natives \<Rightarrow> js_state \<Rightarrow> jsval \<Rightarrow> key \<Rightarrow> jsval list \<Rightarrow> jsval outcome option" where
  "invoke n nats st v name args =
     (case get_v st v name of
        Inl e \<Rightarrow> Some (Inl e, st)
      | Inr f \<Rightarrow>
          if is_callable st f then call n nats st f v args
          else Some (Inl (TypeError ''is not a function''), st))"

text \<open>
  The \<open>apply\<close> a function object inherits is the built-in
  \<open>Function.prototype.apply\<close> (nothing in the program replaced it).
\<close>

definition apply_is_builtin :: "js_state \<Rightarrow> loc \<Rightarrow> bool" where
  "apply_is_builtin st g =
     (case get_prop st g ''apply'' of
        VObj a \<Rightarrow> a < length (heap st) \<and> call_slot (heap st ! a) = Some ApplyBuiltin
      | _ \<Rightarrow> False)"

section \<open>Calling the library's functions\<close>

lemma call_PropClosure:
  "obj_at st f = Some ob \<Longrightarrow> call_slot ob = Some (PropClosure p s c) \<Longrightarrow>
   call (Suc n) nats st (VObj f) this args = Some (prop_body p s c st args)"
  by simp

lemma call_FnClosure:
  "obj_at st f = Some ob \<Longrightarrow> call_slot ob = Some (FnClosure p s c) \<Longrightarrow>
   call (Suc n) nats st (VObj f) this args = fn_body (call n nats) f p s c st args"
  by simp

lemma call_NativeFn:
  "obj_at st f = Some ob \<Longrightarrow> call_slot ob = Some (NativeFn i) \<Longrightarrow>
   call (Suc n) nats st (VObj f) this args = Some (nats i st this args)"
  by simp

lemma call_ApplyBuiltin:
  "obj_at st f = Some ob \<Longrightarrow> call_slot ob = Some ApplyBuiltin \<Longrightarrow>
   call (Suc n) nats st (VObj f) this args = apply_builtin (call n nats) st this args"
  by simp

lemma call_LibFn:
  "obj_at st f = Some ob \<Longrightarrow> call_slot ob = Some LibFn \<Longrightarrow>
   call (Suc n) nats st (VObj f) this args = Some (lib_fn_call st args)"
  by simp

lemma call_LibProp:
  "obj_at st f = Some ob \<Longrightarrow> call_slot ob = Some LibProp \<Longrightarrow>
   call (Suc n) nats st (VObj f) this args = Some (lib_prop_call st args)"
  by simp

lemma call_LibCreate:
  "obj_at st f = Some ob \<Longrightarrow> call_slot ob = Some (LibCreate lib) \<Longrightarrow>
   call (Suc n) nats st (VObj f) this args = create_dyn (call n nats) lib (arg_at args 0) st"
  by simp

section \<open>Bounds of \<open>ToLength\<close>\<close>

lemma to_length_le: "to_length v = Inr n \<Longrightarrow> n \<le> 9007199254740991"
  by (cases v rule: to_length.cases) (auto split: if_splits)

lemma list_from_array_like_length:
  "list_from_array_like st v = Inr xs \<Longrightarrow> length xs \<le> 9007199254740991"
  by (auto simp add: list_from_array_like_def dest: to_length_le split: jsval.splits sum.splits)

section \<open>The arguments object read back by \<open>Function.prototype.apply\<close>\<close>

lemma nat_str_ne_length: "nat_str i \<noteq> ''length''"
proof
  assume "nat_str i = ''length''"
  then have "list_all is_digit ''length''" using nat_str_digits [of i] by simp
  then show False by (simp add: is_digit_def)
qed

lemma nat_str_ne_callee: "nat_str i \<noteq> ''callee''"
proof
  assume "nat_str i = ''callee''"
  then have "list_all is_digit ''callee''" using nat_str_digits [of i] by simp
  then show False by (simp add: is_digit_def)
qed

lemma map_of_index_entries:
  "j < n \<Longrightarrow> map_of (map (\<lambda>i. (nat_str i, d i)) [0..<n]) (nat_str j) = Some (d j)"
proof -
  assume j: "j < n"
  have "map (\<lambda>i. (nat_str i, d i)) [0..<n] = zip (map nat_str [0..<n]) (map d [0..<n])"
    by (rule nth_equalityI) simp_all
  moreover have "distinct (map nat_str [0..<n])"
    by (simp add: distinct_map inj_on_def nat_str_inj)
  ultimately show ?thesis
    using j map_of_zip_nth [of "map nat_str [0..<n]" "map d [0..<n]" j] by simp
qed

lemma to_length_of_nat:
  "n \<le> 9007199254740991 \<Longrightarrow> to_length (VNumber (Num (of_nat n))) = Inr n"
  by simp

lemma arguments_round_trip:
  assumes "length args \<le> 9007199254740991"
  shows "list_from_array_like (snd (alloc_obj (arguments_object st self args) st)) (VObj (length (heap st)))
         = Inr args"
proof -
  let ?st1 = "snd (alloc_obj (arguments_object st self args) st)"
  let ?a = "length (heap st)"
  have own: "get_prop ?st1 ?a k = (case own_prop (arguments_object st self args) k of
               Some d \<Rightarrow> pd_value d | None \<Rightarrow> get_prop ?st1 ?a k)" for k
    by (auto simp add: get_prop_def lookup_def intro!: find_prop_own split: option.split)
  have len: "get_prop ?st1 ?a ''length'' = VNumber (Num (of_nat (length args)))"
    using own [of "''length''"] by (simp add: own_prop_def arguments_object_def)
  have idx: "get_prop ?st1 ?a (nat_str i) = args ! i" if "i < length args" for i
    using own [of "nat_str i"] that
    by (simp add: own_prop_def arguments_object_def nat_str_ne_length nat_str_ne_callee
        map_of_append map_of_index_entries)
  have "map (\<lambda>i. get_prop ?st1 ?a (nat_str i)) [0..<length args] = args"
    by (rule nth_equalityI) (simp_all add: idx)
  then show ?thesis
    using assms len by (simp add: list_from_array_like_def)
qed

section \<open>The adapter over a method whose \<open>apply\<close> is the built-in\<close>

lemma fn_body_via_apply:
  assumes wf: "wf_state st" and t: "t < length (heap st)"
    and g: "get_prop st t m = VObj g" and a: "get_prop st g ''apply'' = VObj a"
    and al: "a < length (heap st)" and ai: "call_slot (heap st ! a) = Some ApplyBuiltin"
  shows "fn_body kk f m (VObj t) chain st args =
           (case kk (snd (alloc_obj (arguments_object st f args) st)) (VObj a) (VObj g)
                   [VObj t, VObj (length (heap st))] of
              None \<Rightarrow> None
            | Some (Inl e, s) \<Rightarrow> Some (Inl e, s)
            | Some (Inr r, s) \<Rightarrow> Some (Inr (js_or r chain), s))"
proof -
  let ?st1 = "snd (alloc_obj (arguments_object st f args) st)"
  have gl: "g < length (heap st)"
    using get_prop_val_ok [OF wf, of t m] g by simp
  have g1: "get_v ?st1 (VObj t) m = Inr (VObj g)"
    using g by (simp add: get_prop_alloc [OF wf t])
  have a1: "get_v ?st1 (VObj g) ''apply'' = Inr (VObj a)"
    using a by (simp add: get_prop_alloc [OF wf gl])
  have "obj_at ?st1 a = Some (heap st ! a)"
    using al by (simp add: obj_at_def nth_append)
  then have ca: "is_callable ?st1 (VObj a)"
    using ai by (simp add: is_callable_def)
  show ?thesis
    using g1 a1 ca by (simp add: fn_body_def alloc_obj_def [of "arguments_object st f args"]
        split: prod.split sum.split option.split)
qed

text \<open>The adapter over any callee whose \<open>apply\<close> is callable, function or not.\<close>

lemma fn_body_callee:
  assumes wf: "wf_state st" and t: "t < length (heap st)"
    and ap: "get_v st (get_prop st t m) ''apply'' = Inr a" and ca: "is_callable st a"
  shows "fn_body kk f m (VObj t) chain st args =
           (case kk (snd (alloc_obj (arguments_object st f args) st)) a (get_prop st t m)
                   [VObj t, VObj (length (heap st))] of
              None \<Rightarrow> None
            | Some (Inl e, s) \<Rightarrow> Some (Inl e, s)
            | Some (Inr r, s) \<Rightarrow> Some (Inr (js_or r chain), s))"
proof -
  let ?st1 = "snd (alloc_obj (arguments_object st f args) st)"
  let ?m = "get_prop st t m"
  have m1: "get_v ?st1 (VObj t) m = Inr ?m"
    by (simp add: get_prop_alloc [OF wf t])
  have a1: "get_v ?st1 ?m ''apply'' = Inr a"
    using ap get_v_alloc [OF wf get_prop_val_ok [OF wf]] by metis
  have c1: "is_callable ?st1 a"
    using ca is_callable_alloc [OF get_v_val_ok [OF wf ap]] by simp
  show ?thesis
    using m1 a1 c1 by (simp add: fn_body_def alloc_obj_def [of "arguments_object st f args"]
        split: prod.split sum.split option.split)
qed

lemma fn_body_apply:
  assumes wf: "wf_state st" and t: "t < length (heap st)"
    and g: "get_prop st t m = VObj g" and cg: "is_callable st (VObj g)"
    and ab: "apply_is_builtin st g" and n: "length args \<le> 9007199254740991"
  shows "fn_body (call (Suc k) nats) f m (VObj t) chain st args =
           (case call k nats (snd (alloc_obj (arguments_object st f args) st)) (VObj g) (VObj t) args of
              None \<Rightarrow> None
            | Some (Inl e, s) \<Rightarrow> Some (Inl e, s)
            | Some (Inr r, s) \<Rightarrow> Some (Inr (js_or r chain), s))"
proof -
  let ?st1 = "snd (alloc_obj (arguments_object st f args) st)"
  have gl: "g < length (heap st)"
    using get_prop_val_ok [OF wf, of t m] g by simp
  obtain a where a: "get_prop st g ''apply'' = VObj a" and al: "a < length (heap st)"
    and ai: "call_slot (heap st ! a) = Some ApplyBuiltin"
    using ab by (auto simp add: apply_is_builtin_def split: jsval.splits)
  have oa: "obj_at ?st1 a = Some (heap st ! a)"
    using al by (simp add: obj_at_def nth_append)
  have cg1: "is_callable ?st1 (VObj g)"
    using cg gl by (simp add: is_callable_alloc)
  have "call (Suc k) nats ?st1 (VObj a) (VObj g) [VObj t, VObj (length (heap st))]
        = call k nats ?st1 (VObj g) (VObj t) args"
    using oa ai cg1 arguments_round_trip [OF n, of st f]
    by (simp add: call_ApplyBuiltin apply_builtin_def arg_at_def del: call.simps)
  then show ?thesis
    by (simp add: fn_body_via_apply [OF wf t g a al ai] del: call.simps)
qed

lemma fn_body_native:
  assumes wf: "wf_state st" and t: "t < length (heap st)"
    and g: "get_prop st t m = VObj g" and gi: "call_slot (heap st ! g) = Some (NativeFn i)"
    and ab: "apply_is_builtin st g" and n: "length args \<le> 9007199254740991"
  shows "fn_body (call (Suc (Suc k)) nats) f m (VObj t) chain st args =
           (case nats i (snd (alloc_obj (arguments_object st f args) st)) (VObj t) args of
              (Inl e, s) \<Rightarrow> Some (Inl e, s)
            | (Inr r, s) \<Rightarrow> Some (Inr (js_or r chain), s))"
proof -
  have gl: "g < length (heap st)"
    using get_prop_val_ok [OF wf, of t m] g by simp
  then have cg: "is_callable st (VObj g)"
    using gi by (simp add: is_callable_def obj_at_def)
  have "obj_at (snd (alloc_obj (arguments_object st f args) st)) g = Some (heap st ! g)"
    using gl by (simp add: obj_at_def nth_append)
  with gi show ?thesis
    by (simp add: fn_body_apply [OF wf t g cg ab n] call_NativeFn del: call.simps
        split: prod.split sum.split)
qed

section \<open>Fuel\<close>

lemma fn_body_mono:
  assumes k: "\<And>a b c d r. k a b c d = Some r \<Longrightarrow> k' a b c d = Some r"
    and r: "fn_body k f m s c st args = Some r"
  shows "fn_body k' f m s c st args = Some r"
  using r by (auto simp add: fn_body_def Let_def k split: prod.splits sum.splits option.splits
      if_splits)

lemma apply_builtin_mono:
  assumes k: "\<And>a b c d r. k a b c d = Some r \<Longrightarrow> k' a b c d = Some r"
    and r: "apply_builtin k st func args = Some r"
  shows "apply_builtin k' st func args = Some r"
  using r by (auto simp add: apply_builtin_def Let_def k split: sum.splits if_splits)

lemma create_step_dyn_mono:
  assumes k: "\<And>a b c d r. k a b c d = Some r \<Longrightarrow> k' a b c d = Some r"
    and r: "create_step_dyn k lib target obj p st = Some r"
  shows "create_step_dyn k' lib target obj p st = Some r"
  using r by (auto simp add: create_step_dyn_def k split: sum.splits option.splits if_splits)

lemma create_loop_dyn_mono:
  assumes k: "\<And>a b c d r. k a b c d = Some r \<Longrightarrow> k' a b c d = Some r"
  shows "create_loop_dyn k lib target obj ps st = Some r \<Longrightarrow> create_loop_dyn k' lib target obj ps st = Some r"
proof (induction ps arbitrary: st)
  case Nil
  then show ?case by simp
next
  case (Cons p ps)
  then obtain r1 where s: "create_step_dyn k lib target obj p st = Some r1"
    by (auto split: option.splits)
  have s': "create_step_dyn k' lib target obj p st = Some r1"
    by (rule create_step_dyn_mono [OF k s])
  from Cons.prems s s' Cons.IH show ?case
    by (auto split: prod.splits sum.splits)
qed

lemma create_dyn_mono:
  assumes k: "\<And>a b c d r. k a b c d = Some r \<Longrightarrow> k' a b c d = Some r"
    and r: "create_dyn k lib target st = Some r"
  shows "create_dyn k' lib target st = Some r"
  using r create_loop_dyn_mono [OF k]
  by (auto simp add: create_dyn_def split: prod.splits option.splits sum.splits)

lemma call_not_callable:
  assumes "\<nexists>l ob c. f = VObj l \<and> obj_at st l = Some ob \<and> call_slot ob = Some c"
  shows "call (Suc n) nats st f this args = Some (Inl (TypeError ''is not a function''), st)"
  using assms by (cases f) (auto split: option.split)

lemma call_Suc_mono:
  "call n nats st f this args = Some r \<Longrightarrow> call (Suc n) nats st f this args = Some r"
proof (induction n arbitrary: st f this args r)
  case 0
  then show ?case by simp
next
  case (Suc n)
  have k: "\<And>a b c d r. call n nats a b c d = Some r \<Longrightarrow> call (Suc n) nats a b c d = Some r"
    by (rule Suc.IH)
  show ?case
  proof (cases "\<exists>l ob c. f = VObj l \<and> obj_at st l = Some ob \<and> call_slot ob = Some c")
    case True
    then obtain l ob c where f: "f = VObj l" and o: "obj_at st l = Some ob"
      and c: "call_slot ob = Some c" by blast
    show ?thesis
    proof (cases c)
      case (NativeFn i)
      with Suc.prems f o c show ?thesis by (simp add: call_NativeFn del: call.simps)
    next
      case (FnClosure x1 x2 x3)
      with Suc.prems f o c have "fn_body (call n nats) l x1 x2 x3 st args = Some r"
        by (simp add: call_FnClosure del: call.simps)
      then have "fn_body (call (Suc n) nats) l x1 x2 x3 st args = Some r"
        using fn_body_mono [where k = "call n nats" and k' = "call (Suc n) nats"] k by blast
      with f o c FnClosure show ?thesis by (simp add: call_FnClosure del: call.simps)
    next
      case (PropClosure x1 x2 x3)
      with Suc.prems f o c show ?thesis by (simp add: call_PropClosure del: call.simps)
    next
      case ApplyBuiltin
      with Suc.prems f o c have "apply_builtin (call n nats) st this args = Some r"
        by (simp add: call_ApplyBuiltin del: call.simps)
      then have "apply_builtin (call (Suc n) nats) st this args = Some r"
        using apply_builtin_mono [where k = "call n nats" and k' = "call (Suc n) nats"] k by blast
      with f o c ApplyBuiltin show ?thesis by (simp add: call_ApplyBuiltin del: call.simps)
    next
      case LibFn
      with Suc.prems f o c show ?thesis by (simp add: call_LibFn del: call.simps)
    next
      case LibProp
      with Suc.prems f o c show ?thesis by (simp add: call_LibProp del: call.simps)
    next
      case (LibCreate lib)
      with Suc.prems f o c have "create_dyn (call n nats) lib (arg_at args 0) st = Some r"
        by (simp add: call_LibCreate del: call.simps)
      then have "create_dyn (call (Suc n) nats) lib (arg_at args 0) st = Some r"
        using create_dyn_mono [where k = "call n nats" and k' = "call (Suc n) nats"] k by blast
      with f o c LibCreate show ?thesis by (simp add: call_LibCreate del: call.simps)
    qed
  next
    case False
    then have "call (Suc m) nats st f this args = Some (Inl (TypeError ''is not a function''), st)"
      for m by (rule call_not_callable)
    with Suc.prems show ?thesis by metis
  qed
qed

lemma call_fuel_mono:
  assumes r: "call n nats st f this args = Some r" and le: "n \<le> n'"
  shows "call n' nats st f this args = Some r"
  using le
proof (induction n' rule: dec_induct)
  case base
  show ?case by (rule r)
next
  case (step m)
  from step.IH show ?case by (rule call_Suc_mono)
qed

lemma invoke_mono:
  "invoke n nats st v p args = Some r \<Longrightarrow> n \<le> n' \<Longrightarrow> invoke n' nats st v p args = Some r"
  by (auto simp add: invoke_def intro: call_fuel_mono split: sum.splits)

section \<open>Allocating the arguments object keeps the invariant\<close>

lemma distinct_argument_keys:
  "distinct (''length'' # map nat_str [0..<n] @ [''callee''])"
  by (auto simp add: distinct_map inj_on_def nat_str_inj nat_str_ne_length nat_str_ne_callee
      dest: sym)

lemma wf_alloc_arguments:
  assumes wf: "wf_state st" and f: "f < length (heap st)"
    and a: "\<forall>v \<in> set args. val_ok (length (heap st)) v"
  shows "wf_state (snd (alloc_obj (arguments_object st f args) st))"
proof (rule wf_alloc [OF wf])
  let ?n = "length (heap st)"
  have op: "object_prototype (intr st) < ?n"
    using wf_intr_ok [OF wf] by (simp add: intr_ok_def)
  have keys: "map fst (own_props (arguments_object st f args))
              = ''length'' # map nat_str [0..<length args] @ [''callee'']"
    by (simp add: arguments_object_def comp_def)
  have vals: "val_ok (Suc ?n) (args ! i)" if "i < length args" for i
  proof -
    have "val_ok ?n (args ! i)" using a that by simp
    then show ?thesis by (rule val_ok_mono) simp
  qed
  have dk: "distinct (map fst (own_props (arguments_object st f args)))"
    using keys distinct_argument_keys [of "length args"] by simp
  have vk: "list_all (\<lambda>(k, d). val_ok (Suc ?n) (pd_value d)) (own_props (arguments_object st f args))"
    using vals f by (auto simp add: arguments_object_def list_all_iff)
  show "obj_ok (Suc ?n) (arguments_object st f args)"
    unfolding obj_ok_def using dk vk op by (simp add: arguments_object_def)
  show "case proto (arguments_object st f args) of None \<Rightarrow> True | Some p \<Rightarrow> p < ?n"
    using op by (simp add: arguments_object_def)
qed

end
