(* ===== verification/Wrapper.thy ===== *)
theory Wrapper
  imports JS_Call
begin

text \<open>
  What a wrapper built by \<open>trainwreck.create(target)\<close> does when its members are
  called. \<open>wrapper_fn st w p\<close> is the function the wrapper \<open>w\<close> holds under key \<open>p\<close>
  in a state \<open>st\<close>, with its [[Call]] slot, so the lemmas hold in every state reached
  after \<open>create\<close>: calling an accessor with a value writes the target and returns the
  wrapper, without one it reads the target (lines 35--40); calling an adapter looks
  \<open>target[p]\<close> up again and calls it through its \<open>apply\<close> (line 21); frame lemmas
  show that writes to another object leave the wrapper's members in place.
  \<open>chain_calls\<close> is the chained expression \<open>v.p1(a1).p2(a2)...\<close> of a program using
  the library, and \<open>chain_setters\<close> evaluates a chain of setters to the sequence of
  writes. The section on \<open>create\<close> relates the state \<open>create\<close> returns to
  \<open>wrapper_fn\<close>; the last section shows that a target whose method is its own
  adapter makes every call of the adapter run out of fuel, for any fuel.
\<close>

text \<open>
  An adapter \<open>f\<close> for key \<open>m\<close> of target \<open>t\<close>, installed as that very key of the
  target, with the built-in \<open>apply\<close>: calling it calls itself.
\<close>

definition self_adapter :: "js_state \<Rightarrow> loc \<Rightarrow> key \<Rightarrow> loc \<Rightarrow> jsval \<Rightarrow> jsval list \<Rightarrow> bool" where
  "self_adapter st f m t chain args \<longleftrightarrow>
     wf_state st \<and> t < length (heap st) \<and> f < length (heap st)
     \<and> call_slot (heap st ! f) = Some (FnClosure m (VObj t) chain)
     \<and> get_prop st t m = VObj f \<and> apply_is_builtin st f
     \<and> length args \<le> 9007199254740991 \<and> (\<forall>v \<in> set args. val_ok (length (heap st)) v)"

text \<open>
  The function a wrapper \<open>w\<close> holds as its own property \<open>p\<close> in a state \<open>st\<close>, with its
  [[Call]] slot: this is what \<open>w.p(...)\<close> calls, in any state reached after
  \<open>create\<close>, not only in the state \<open>create\<close> returns.
\<close>

definition wrapper_fn :: "js_state \<Rightarrow> loc \<Rightarrow> key \<Rightarrow> (loc \<times> closure) option" where
  "wrapper_fn st w p =
     (if w < length (heap st) then
        (case own_prop (heap st ! w) p of
           Some d \<Rightarrow>
             (case pd_value d of
                VObj f \<Rightarrow>
                  (case obj_at st f of
                     Some ob \<Rightarrow> (case call_slot ob of Some c \<Rightarrow> Some (f, c) | None \<Rightarrow> None)
                   | None \<Rightarrow> None)
              | _ \<Rightarrow> None)
         | None \<Rightarrow> None)
      else None)"

definition is_accessor :: "js_state \<Rightarrow> loc \<Rightarrow> key \<Rightarrow> jsval \<Rightarrow> bool" where
  "is_accessor st w p target =
     (case wrapper_fn st w p of Some (f, c) \<Rightarrow> c = PropClosure p target (VObj w) | None \<Rightarrow> False)"

text \<open>
  The chained expression \<open>v.p1(a1).p2(a2)...\<close> of a program using the library: each
  call's receiver is the previous call's result, and an exception ends the chain.
\<close>

fun chain_calls :: "nat \<Rightarrow> natives \<Rightarrow> js_state \<Rightarrow> jsval \<Rightarrow> (key \<times> jsval list) list \<Rightarrow> jsval outcome option" where
  "chain_calls n nats st v [] = Some (Inr v, st)"
| "chain_calls n nats st v ((p, args) # cs) =
     (case invoke n nats st v p args of
        None \<Rightarrow> None
      | Some (Inl e, st') \<Rightarrow> Some (Inl e, st')
      | Some (Inr r, st') \<Rightarrow> chain_calls n nats st' r cs)"

section \<open>Calling a key of a wrapper\<close>

lemma created_wrapper:
  assumes wf: "wf_state st" and tv: "val_ok (length (heap st)) target"
    and iw: "\<forall>p \<in> set (for_in_keys st target). inherits_writable st p"
    and cr: "trainwreck_create target st = (Inr w, st')"
  shows "w = VObj (length (heap st)) \<and> st' = wrapper_state target st (for_in_keys st target)"
  using trainwreck_create_spec [OF wf tv iw] cr by (simp add: create_spec_def)

lemma wrapper_member:
  assumes wf: "wf_state st" and tv: "val_ok (length (heap st)) target"
    and iw: "\<forall>p \<in> set (for_in_keys st target). inherits_writable st p"
    and cr: "trainwreck_create target st = (Inr w, st')"
    and p: "p \<in> set (for_in_keys st target)"
  shows "\<exists>f. get_v st' w p = Inr (VObj f)
             \<and> obj_at st' f = Some (function_object st (adapter_for st target (length (heap st)) p))"
proof -
  let ?ks = "for_in_keys st target"
  from p obtain i where i: "i < length ?ks" and pi: "p = ?ks ! i"
    by (auto simp add: in_set_conv_nth)
  have d: "distinct ?ks" using wf by (rule for_in_keys_distinct)
  show ?thesis
    using created_wrapper [OF wf tv iw cr] wrapper_key [OF d i, of target st] pi by auto
qed

lemma wrapper_accessor_call:
  assumes wf: "wf_state st" and tv: "val_ok (length (heap st)) target"
    and iw: "\<forall>p \<in> set (for_in_keys st target). inherits_writable st p"
    and cr: "trainwreck_create target st = (Inr w, st')"
    and p: "p \<in> set (for_in_keys st target)" and nm: "\<not> is_method_at st target p"
  shows "invoke (Suc m) nats st' w p args = Some (prop_body p target w st' args)"
proof -
  obtain f where g: "get_v st' w p = Inr (VObj f)"
    and o: "obj_at st' f = Some (function_object st (adapter_for st target (length (heap st)) p))"
    using wrapper_member [OF wf tv iw cr p] by blast
  have w: "w = VObj (length (heap st))"
    using created_wrapper [OF wf tv iw cr] by simp
  show ?thesis
    using g o nm w by (simp add: invoke_def is_callable_def adapter_for_def function_object_def)
qed

lemma wrapper_adapter_call:
  assumes wf: "wf_state st" and tv: "val_ok (length (heap st)) target"
    and iw: "\<forall>p \<in> set (for_in_keys st target). inherits_writable st p"
    and cr: "trainwreck_create target st = (Inr w, st')"
    and p: "p \<in> set (for_in_keys st target)" and im: "is_method_at st target p"
  shows "\<exists>f. invoke (Suc m) nats st' w p args = fn_body (call m nats) f p target w st' args"
proof -
  obtain f where g: "get_v st' w p = Inr (VObj f)"
    and o: "obj_at st' f = Some (function_object st (adapter_for st target (length (heap st)) p))"
    using wrapper_member [OF wf tv iw cr p] by blast
  have w: "w = VObj (length (heap st))"
    using created_wrapper [OF wf tv iw cr] by simp
  show ?thesis
    using g o im w by (auto simp add: invoke_def is_callable_def adapter_for_def function_object_def)
qed

lemma accessor_write:
  assumes wf: "wf_state st" and t: "t < length (heap st)"
    and iw: "\<forall>p \<in> set (for_in_keys st (VObj t)). inherits_writable st p"
    and cr: "trainwreck_create (VObj t) st = (Inr w, st')"
    and p: "p \<in> set (for_in_keys st (VObj t))" and nm: "\<not> is_method_at st (VObj t) p"
    and x: "arg_at args 0 = x" "x \<noteq> VUndef" and wa: "write_allowed st t p"
  shows "invoke (Suc m) nats st' w p args = Some (Inr w, set_prop st' t p x)
         \<and> get_prop (set_prop st' t p x) t p = x"
proof -
  have tv: "val_ok (length (heap st)) (VObj t)" using t by simp
  obtain hs where st': "st' = st\<lparr>heap := heap st @ hs\<rparr>"
    using created_wrapper [OF wf tv iw cr] wrapper_state_extends by metis
  have wa': "write_allowed st' t p"
    using st' wa write_allowed_extend [OF wf t] by simp
  have t': "t < length (heap st')"
    using st' t by simp
  show ?thesis
    using wrapper_accessor_call [OF wf tv iw cr p nm] prop_body_write [OF x]
      get_prop_set_prop_same [OF t' wa'] by simp
qed

lemma accessor_read:
  assumes wf: "wf_state st" and tv: "val_ok (length (heap st)) target"
    and iw: "\<forall>p \<in> set (for_in_keys st target). inherits_writable st p"
    and cr: "trainwreck_create target st = (Inr w, st')"
    and p: "p \<in> set (for_in_keys st target)" and nm: "\<not> is_method_at st target p"
    and u: "arg_at args 0 = VUndef"
  shows "invoke (Suc m) nats st' w p args = Some (get_v st target p, st')"
proof -
  obtain hs where st': "st' = st\<lparr>heap := heap st @ hs\<rparr>"
    using created_wrapper [OF wf tv iw cr] wrapper_state_extends by metis
  show ?thesis
    using wrapper_accessor_call [OF wf tv iw cr p nm] prop_body_read [OF u]
      get_v_extend [OF wf tv] st' by simp
qed

section \<open>The functions a wrapper holds, in any later state\<close>

lemma wrapper_fn_SomeD:
  assumes "wrapper_fn st w p = Some (f, c)"
  shows "w < length (heap st) \<and> get_prop st w p = VObj f \<and> obj_at st f = Some (heap st ! f)
         \<and> call_slot (heap st ! f) = Some c"
proof -
  from assms obtain d where w: "w < length (heap st)" and d: "own_prop (heap st ! w) p = Some d"
    and v: "pd_value d = VObj f" and f: "f < length (heap st)" and c: "call_slot (heap st ! f) = Some c"
    by (auto simp add: wrapper_fn_def obj_at_def split: if_splits option.splits jsval.splits)
  have "lookup st w p = Some (w, d)"
    unfolding lookup_def by (rule find_prop_own) (use w d in auto)
  with w v f c show ?thesis by (simp add: get_prop_def obj_at_def)
qed

lemma invoke_wrapper_fn:
  assumes "wrapper_fn st w p = Some (f, c)"
  shows "invoke n nats st (VObj w) p args = call n nats st (VObj f) (VObj w) args"
  using wrapper_fn_SomeD [OF assms] by (simp add: invoke_def is_callable_def)

lemma wrapper_fn_set_prop [js_frame]:
  "t \<noteq> w \<Longrightarrow> wrapper_fn (set_prop st t k x) w p = wrapper_fn st w p"
  by (simp add: wrapper_fn_def obj_at_def set_prop_shape heap_set_prop_other
      split: option.split jsval.split)

lemma wrapper_fn_extend:
  "wrapper_fn st w p = Some r \<Longrightarrow> wrapper_fn (st\<lparr>heap := heap st @ hs\<rparr>) w p = Some r"
  by (auto simp add: wrapper_fn_def obj_at_def nth_append split: if_splits option.splits jsval.splits)

lemma wrapper_fn_alloc:
  "wrapper_fn st w p = Some r \<Longrightarrow> wrapper_fn (snd (alloc_obj ob st)) w p = Some r"
  using wrapper_fn_extend [of st w p r "[ob]"] by (simp add: alloc_obj_def)

lemma is_accessor_set_prop [js_frame]:
  "t \<noteq> w \<Longrightarrow> is_accessor (set_prop st t k x) w p target = is_accessor st w p target"
  by (simp add: is_accessor_def wrapper_fn_set_prop)

lemma accessor_call:
  assumes "wrapper_fn st w p = Some (f, PropClosure p target (VObj w))"
  shows "invoke (Suc n) nats st (VObj w) p args = Some (prop_body p target (VObj w) st args)"
  using invoke_wrapper_fn [OF assms] wrapper_fn_SomeD [OF assms] by simp

lemma adapter_call:
  assumes "wrapper_fn st w p = Some (f, FnClosure p target (VObj w))"
  shows "invoke (Suc n) nats st (VObj w) p args = fn_body (call n nats) f p target (VObj w) st args"
  using invoke_wrapper_fn [OF assms] wrapper_fn_SomeD [OF assms] by simp

lemma accessor_set:
  assumes "wrapper_fn st w p = Some (f, PropClosure p (VObj t) (VObj w))"
    and "arg_at args 0 \<noteq> VUndef"
  shows "invoke (Suc n) nats st (VObj w) p args = Some (Inr (VObj w), set_prop st t p (arg_at args 0))"
  using accessor_call [OF assms(1)] prop_body_write [OF refl assms(2)] by simp

lemma adapter_native:
  assumes wf: "wf_state st" and t: "t < length (heap st)"
    and wfn: "wrapper_fn st w p = Some (f, FnClosure p (VObj t) (VObj w))"
    and g: "get_prop st t p = VObj g" and gi: "call_slot (heap st ! g) = Some (NativeFn i)"
    and ab: "apply_is_builtin st g" and n: "length args \<le> 9007199254740991"
  shows "invoke (Suc (Suc (Suc k))) nats st (VObj w) p args =
           (case nats i (snd (alloc_obj (arguments_object st f args) st)) (VObj t) args of
              (Inl e, s) \<Rightarrow> Some (Inl e, s)
            | (Inr r, s) \<Rightarrow> Some (Inr (js_or r (VObj w)), s))"
  using adapter_call [OF wfn] fn_body_native [OF wf t g gi ab n] by (simp del: call.simps)

lemma adapter_uncallable:
  assumes wf: "wf_state st" and t: "t < length (heap st)"
    and wfn: "wrapper_fn st w p = Some (f, FnClosure p (VObj t) (VObj w))"
    and nc: "case get_v st (get_prop st t p) ''apply'' of Inl e \<Rightarrow> True | Inr a \<Rightarrow> \<not> is_callable st a"
  shows "invoke (Suc n) nats st (VObj w) p args =
           Some (Inl (case get_v st (get_prop st t p) ''apply'' of
                        Inl e \<Rightarrow> e
                      | Inr a \<Rightarrow> TypeError ''apply is not a function''),
                 snd (alloc_obj (arguments_object st f args) st))"
proof -
  let ?st1 = "snd (alloc_obj (arguments_object st f args) st)"
  let ?m = "get_prop st t p"
  have m1: "get_v ?st1 (VObj t) p = Inr ?m"
    by (simp add: get_prop_alloc [OF wf t])
  have a1: "get_v ?st1 ?m ''apply'' = get_v st ?m ''apply''"
    by (rule get_v_alloc [OF wf get_prop_val_ok [OF wf]])
  have c1: "is_callable ?st1 a = is_callable st a" if "get_v st ?m ''apply'' = Inr a" for a
    using get_v_val_ok [OF wf that] by (rule is_callable_alloc)
  show ?thesis
  proof (cases "get_v st ?m ''apply''")
    case (Inl e)
    then show ?thesis
      using adapter_call [OF wfn] m1 a1
      by (simp add: fn_body_def alloc_obj_def [of "arguments_object st f args"] del: call.simps)
  next
    case (Inr a)
    then show ?thesis
      using adapter_call [OF wfn] m1 a1 c1 [OF Inr] nc
      by (simp add: fn_body_def alloc_obj_def [of "arguments_object st f args"] del: call.simps)
  qed
qed

lemma adapter_over_accessor:
  assumes wf: "wf_state st" and t: "t < length (heap st)"
    and wfn: "wrapper_fn st w p = Some (f, FnClosure p (VObj t) (VObj w))"
    and g: "get_prop st t p = VObj g" and gc: "call_slot (heap st ! g) = Some (PropClosure p (VObj u) (VObj t))"
    and ab: "apply_is_builtin st g" and n: "length args \<le> 9007199254740991"
    and x: "arg_at args 0 \<noteq> VUndef"
  shows "invoke (Suc (Suc (Suc k))) nats st (VObj w) p args =
           Some (Inr (VObj t), set_prop (snd (alloc_obj (arguments_object st f args) st)) u p (arg_at args 0))"
proof -
  let ?st1 = "snd (alloc_obj (arguments_object st f args) st)"
  have gl: "g < length (heap st)"
    using get_prop_val_ok [OF wf, of t p] g by simp
  then have o: "obj_at st g = Some (heap st ! g)" by (simp add: obj_at_def)
  then have cg: "is_callable st (VObj g)"
    using gc by (simp add: is_callable_def)
  have o1: "obj_at ?st1 g = Some (heap st ! g)"
    using gl by (simp add: obj_at_def nth_append)
  have "call (Suc k) nats ?st1 (VObj g) (VObj t) args = Some (Inr (VObj t), set_prop ?st1 u p (arg_at args 0))"
    using call_PropClosure [OF o1 gc] prop_body_write [OF refl x] by simp
  then show ?thesis
    using adapter_call [OF wfn] fn_body_apply [OF wf t g cg ab n] by (simp del: call.simps)
qed

lemma adapter_apply_native:
  assumes wf: "wf_state st" and t: "t < length (heap st)"
    and wfn: "wrapper_fn st w p = Some (f, FnClosure p (VObj t) (VObj w))"
    and ap: "get_v st (get_prop st t p) ''apply'' = Inr (VObj a)"
    and ai: "call_slot (heap st ! a) = Some (NativeFn j)"
  shows "invoke (Suc (Suc k)) nats st (VObj w) p args =
           (case nats j (snd (alloc_obj (arguments_object st f args) st)) (get_prop st t p)
                   [VObj t, VObj (length (heap st))] of
              (Inl e, s) \<Rightarrow> Some (Inl e, s)
            | (Inr r, s) \<Rightarrow> Some (Inr (js_or r (VObj w)), s))"
proof -
  have al: "a < length (heap st)"
    using get_v_val_ok [OF wf ap] by simp
  then have o: "obj_at st a = Some (heap st ! a)" by (simp add: obj_at_def)
  then have ca: "is_callable st (VObj a)"
    using ai by (simp add: is_callable_def)
  have o1: "obj_at (snd (alloc_obj (arguments_object st f args) st)) a = Some (heap st ! a)"
    using al by (simp add: obj_at_def nth_append)
  show ?thesis
    using adapter_call [OF wfn] fn_body_callee [OF wf t ap ca] call_NativeFn [OF o1 ai]
    by (simp del: call.simps split: prod.split sum.split)
qed

lemma chain_setters:
  assumes "t \<noteq> w"
    and "\<forall>(p, args) \<in> set cs. is_accessor st w p (VObj t) \<and> arg_at args 0 \<noteq> VUndef"
  shows "chain_calls (Suc n) nats st (VObj w) cs
         = Some (Inr (VObj w), fold (\<lambda>(p, args) s. set_prop s t p (arg_at args 0)) cs st)"
  using assms(2)
proof (induction cs arbitrary: st)
  case Nil
  then show ?case by simp
next
  case (Cons c cs)
  obtain p args where c: "c = (p, args)" by (cases c)
  with Cons.prems have acc: "is_accessor st w p (VObj t)" and x: "arg_at args 0 \<noteq> VUndef"
    by auto
  then obtain f where wfn: "wrapper_fn st w p = Some (f, PropClosure p (VObj t) (VObj w))"
    by (auto simp add: is_accessor_def split: option.splits)
  let ?st' = "set_prop st t p (arg_at args 0)"
  have "\<forall>(p, args) \<in> set cs. is_accessor ?st' w p (VObj t) \<and> arg_at args 0 \<noteq> VUndef"
    using Cons.prems assms(1) by (auto simp add: is_accessor_set_prop)
  then show ?case
    using c accessor_set [OF wfn x] Cons.IH by simp
qed

section \<open>The wrapper \<open>create\<close> returns\<close>

lemma wrapper_state_obj:
  "heap (wrapper_state target st ks) ! length (heap st)
   = (empty_object st)\<lparr>own_props := wrapper_entries (length (heap st)) ks\<rparr>"
  by (simp add: wrapper_state_def Let_def nth_append)

lemma wrapper_fn_wrapper_state:
  assumes d: "distinct ks" and i: "i < length ks"
  shows "wrapper_fn (wrapper_state target st ks) (length (heap st)) (ks ! i)
         = Some (Suc (length (heap st)) + i, adapter_for st target (length (heap st)) (ks ! i))"
proof -
  let ?n = "length (heap st)"
  let ?S = "wrapper_state target st ks"
  have o: "obj_at ?S (Suc ?n + i) = Some (function_object st (adapter_for st target ?n (ks ! i)))"
    using wrapper_key [OF d i] by blast
  have w: "?n < length (heap ?S)"
    by (simp add: wrapper_state_def Let_def)
  show ?thesis
    using o w map_of_wrapper_entries [OF d i, of ?n]
    by (simp add: wrapper_fn_def wrapper_state_obj own_prop_def function_object_def)
qed

lemma create_wrapper_fn:
  assumes wf: "wf_state st" and tv: "val_ok (length (heap st)) target"
    and iw: "\<forall>p \<in> set (for_in_keys st target). inherits_writable st p"
    and p: "p \<in> set (for_in_keys st target)"
  shows "\<exists>f. wrapper_fn (snd (trainwreck_create target st)) (length (heap st)) p
             = Some (f, adapter_for st target (length (heap st)) p)"
proof -
  let ?ks = "for_in_keys st target"
  from p obtain i where i: "i < length ?ks" and pi: "p = ?ks ! i"
    by (auto simp add: in_set_conv_nth)
  have d: "distinct ?ks" using wf by (rule for_in_keys_distinct)
  show ?thesis
    using trainwreck_create_spec [OF wf tv iw] wrapper_fn_wrapper_state [OF d i, of target st] pi
    by (simp add: create_spec_def)
qed

lemma create_wrapper_keys:
  assumes wf: "wf_state st" and tv: "val_ok (length (heap st)) target"
    and iw: "\<forall>p \<in> set (for_in_keys st target). inherits_writable st p"
  shows "map fst (own_props (heap (snd (trainwreck_create target st)) ! length (heap st)))
         = for_in_keys st target"
  using trainwreck_create_spec [OF wf tv iw] by (simp add: create_spec_def wrapper_state_obj)

section \<open>A target whose method is its own adapter\<close>

lemma self_adapter_alloc:
  assumes "self_adapter st f m t chain args"
  shows "self_adapter (snd (alloc_obj (arguments_object st f args) st)) f m t chain args"
proof -
  let ?st1 = "snd (alloc_obj (arguments_object st f args) st)"
  from assms have wf: "wf_state st" and t: "t < length (heap st)" and fl: "f < length (heap st)"
    and ab: "apply_is_builtin st f"
    and a: "\<forall>v \<in> set args. val_ok (length (heap st)) v"
    by (simp_all add: self_adapter_def)
  obtain b where b: "get_prop st f ''apply'' = VObj b" and bl: "b < length (heap st)"
    and bi: "call_slot (heap st ! b) = Some ApplyBuiltin"
    using ab by (auto simp add: apply_is_builtin_def split: jsval.splits)
  have "apply_is_builtin ?st1 f"
    using b bl bi by (simp add: apply_is_builtin_def get_prop_alloc [OF wf fl] nth_append)
  with assms wf_alloc_arguments [OF wf fl a] show ?thesis
    by (auto simp add: self_adapter_def get_prop_alloc [OF wf t] nth_append intro: val_ok_mono)
qed

lemma self_adapter_unfold:
  assumes sa: "self_adapter st f m t chain args"
  shows "call (Suc (Suc k)) nats st (VObj f) this args =
           (case call k nats (snd (alloc_obj (arguments_object st f args) st)) (VObj f) (VObj t) args of
              None \<Rightarrow> None
            | Some (Inl e, s) \<Rightarrow> Some (Inl e, s)
            | Some (Inr r, s) \<Rightarrow> Some (Inr (js_or r chain), s))"
proof -
  from sa have wf: "wf_state st" and t: "t < length (heap st)" and fl: "f < length (heap st)"
    and fc: "call_slot (heap st ! f) = Some (FnClosure m (VObj t) chain)"
    and g: "get_prop st t m = VObj f" and ab: "apply_is_builtin st f"
    and n: "length args \<le> 9007199254740991"
    by (simp_all add: self_adapter_def)
  have o: "obj_at st f = Some (heap st ! f)" using fl by (simp add: obj_at_def)
  have cf: "is_callable st (VObj f)" using o fc by (simp add: is_callable_def)
  show ?thesis
    using call_FnClosure [OF o fc] fn_body_apply [OF wf t g cf ab n] by simp
qed

lemma self_adapter_diverges:
  "self_adapter st f m t chain args \<Longrightarrow> call n nats st (VObj f) this args = None"
proof (induction n arbitrary: st this rule: less_induct)
  case (less n)
  show ?case
  proof (cases n)
    case 0
    then show ?thesis by simp
  next
    case (Suc n')
    show ?thesis
    proof (cases n')
      case 0
      from less.prems have wf: "wf_state st" and t: "t < length (heap st)"
        and fl: "f < length (heap st)"
        and fc: "call_slot (heap st ! f) = Some (FnClosure m (VObj t) chain)"
        and g: "get_prop st t m = VObj f" and ab: "apply_is_builtin st f"
        by (simp_all add: self_adapter_def)
      obtain a where a: "get_prop st f ''apply'' = VObj a" and al: "a < length (heap st)"
        and ai: "call_slot (heap st ! a) = Some ApplyBuiltin"
        using ab by (auto simp add: apply_is_builtin_def split: jsval.splits)
      have "call (Suc 0) nats st (VObj f) this args = fn_body (call 0 nats) f m (VObj t) chain st args"
        using fl fc call_FnClosure [of st f "heap st ! f"] by (simp add: obj_at_def del: call.simps)
      also have "\<dots> = None"
        by (simp add: fn_body_via_apply [OF wf t g a al ai])
      finally show ?thesis using Suc 0 by simp
    next
      case (Suc k)
      have "call k nats (snd (alloc_obj (arguments_object st f args) st)) (VObj f) (VObj t) args = None"
        using Suc \<open>n = Suc n'\<close> self_adapter_alloc [OF less.prems] by (intro less.IH) auto
      then show ?thesis
        using Suc \<open>n = Suc n'\<close> self_adapter_unfold [OF less.prems] by simp
    qed
  qed
qed

end
