(* ===== verification/JS_Safety.thy ===== *)
theory JS_Safety
  imports Wrapper
begin

text \<open>
  Conformance of calls, in the style of a type-safety proof: every call the engine
  makes for the library (an adapter, an accessor, \<open>Function.prototype.apply\<close>, and the
  calls they make in turn, to any depth) takes a well-formed state to a well-formed
  state that only extends it (\<open>hext\<close>: no object disappears, no prototype or [[Call]]
  slot of an existing object changes), and returns a value of that state, provided the
  methods of the program using the library do the same (\<open>natives_ok\<close>). The chained
  expressions of a program keep these properties too.
\<close>

section \<open>Heap extension and conformance of outcomes\<close>

definition hext :: "js_state \<Rightarrow> js_state \<Rightarrow> bool" where
  "hext st st' \<longleftrightarrow>
     length (heap st) \<le> length (heap st') \<and> intr st' = intr st
     \<and> list_all (\<lambda>l. proto (heap st' ! l) = proto (heap st ! l)
                    \<and> call_slot (heap st' ! l) = call_slot (heap st ! l)) [0..<length (heap st)]"

text \<open>A result refers only to objects of the heap (a thrown value included).\<close>

definition res_ok :: "nat \<Rightarrow> js_error + jsval \<Rightarrow> bool" where
  "res_ok n r = (case r of Inr v \<Rightarrow> val_ok n v | Inl (Thrown v) \<Rightarrow> val_ok n v | Inl e \<Rightarrow> True)"

text \<open>An outcome from state \<open>st\<close>: well-formed, an extension of \<open>st\<close>, its result in the heap.\<close>

definition step_ok :: "js_state \<Rightarrow> jsval outcome \<Rightarrow> bool" where
  "step_ok st out =
     (case out of (r, st') \<Rightarrow> wf_state st' \<and> hext st st' \<and> res_ok (length (heap st')) r)"

text \<open>The same for a statement, whose normal result carries no value.\<close>

definition unit_step_ok :: "js_state \<Rightarrow> unit outcome \<Rightarrow> bool" where
  "unit_step_ok st out =
     (case out of (r, st') \<Rightarrow> wf_state st' \<and> hext st st'
        \<and> (case r of Inl e \<Rightarrow> res_ok (length (heap st')) (Inl e) | Inr u \<Rightarrow> True))"

text \<open>A call function (the engine's [[Call]] at some fuel) that keeps conformance.\<close>

definition fn_ok :: "call_fn \<Rightarrow> bool" where
  "fn_ok kk \<longleftrightarrow>
     (\<forall>s f this args out. wf_state s \<longrightarrow> val_ok (length (heap s)) f
        \<longrightarrow> val_ok (length (heap s)) this \<longrightarrow> list_all (val_ok (length (heap s))) args
        \<longrightarrow> kk s f this args = Some out \<longrightarrow> step_ok s out)"

text \<open>The methods of the program keep conformance.\<close>

definition natives_ok :: "natives \<Rightarrow> bool" where
  "natives_ok nats \<longleftrightarrow>
     (\<forall>i st this args. wf_state st \<longrightarrow> val_ok (length (heap st)) this
        \<longrightarrow> list_all (val_ok (length (heap st))) args
        \<longrightarrow> step_ok st (nats i st this args))"

section \<open>Calls keep conformance\<close>

lemma hext_refl [simp]: "hext st st"
  by (simp add: hext_def list_all_iff)

lemma hext_trans: "hext s1 s2 \<Longrightarrow> hext s2 s3 \<Longrightarrow> hext s1 s3"
  by (auto simp add: hext_def list_all_iff)

lemma hext_alloc: "hext st (snd (alloc_obj ob st))"
  by (simp add: hext_def list_all_iff nth_append)

lemma hext_extend: "hext st (st\<lparr>heap := heap st @ hs\<rparr>)"
  by (simp add: hext_def list_all_iff nth_append)

lemma hext_set_prop: "hext st (set_prop st l k v)"
  by (simp add: hext_def list_all_iff set_prop_shape)

lemma res_ok_mono: "res_ok n r \<Longrightarrow> n \<le> m \<Longrightarrow> res_ok m r"
  by (auto simp add: res_ok_def intro: val_ok_mono split: sum.splits js_error.splits)

lemma res_ok_TypeError [simp]: "res_ok n (Inl (TypeError s))"
  by (simp add: res_ok_def)

lemma res_ok_Inr [simp]: "res_ok n (Inr v) = val_ok n v"
  by (simp add: res_ok_def)

lemma get_v_res_ok: "wf_state st \<Longrightarrow> res_ok (length (heap st)) (get_v st v k)"
  by (cases v) (auto simp add: res_ok_def get_prop_val_ok string_own_def split: option.split)

lemma list_from_array_like_ok:
  "wf_state st \<Longrightarrow> list_from_array_like st v = Inr xs \<Longrightarrow> list_all (val_ok (length (heap st))) xs"
  by (auto simp add: list_from_array_like_def list_all_iff get_prop_val_ok split: jsval.splits sum.splits)

lemma arg_at_ok: "list_all (val_ok n) args \<Longrightarrow> val_ok n (arg_at args i)"
  by (simp add: arg_at_def list_all_iff)


lemma fn_okD:
  "fn_ok kk \<Longrightarrow> wf_state s \<Longrightarrow> val_ok (length (heap s)) f \<Longrightarrow> val_ok (length (heap s)) this \<Longrightarrow>
   list_all (val_ok (length (heap s))) args \<Longrightarrow> kk s f this args = Some out \<Longrightarrow> step_ok s out"
  unfolding fn_ok_def by blast

lemma hext_length: "hext st st' \<Longrightarrow> length (heap st) \<le> length (heap st')"
  by (simp add: hext_def)

lemma step_ok_same: "wf_state st \<Longrightarrow> res_ok (length (heap st)) r \<Longrightarrow> step_ok st (r, st)"
  by (simp add: step_ok_def)

lemma step_ok_after:
  "wf_state st1 \<Longrightarrow> hext st st1 \<Longrightarrow> step_ok st1 out \<Longrightarrow> step_ok st out"
  by (auto simp add: step_ok_def intro: hext_trans split: prod.splits)

lemma step_ok_js_or:
  "step_ok st (Inr r, s) \<Longrightarrow> val_ok (length (heap st)) c \<Longrightarrow> step_ok st (Inr (js_or r c), s)"
  by (auto simp add: step_ok_def js_or_def dest: hext_length intro: val_ok_mono)

lemma step_ok_error: "step_ok st (Inl e, s) \<Longrightarrow> step_ok st (Inl e, s)"
  by assumption

lemma prop_body_ok:
  assumes wf: "wf_state st" and s: "val_ok (length (heap st)) s" and c: "val_ok (length (heap st)) c"
    and a: "list_all (val_ok (length (heap st))) args"
  shows "step_ok st (prop_body p s c st args)"
proof (cases "arg_at args 0 = VUndef")
  case True
  then show ?thesis
    using wf get_v_res_ok [OF wf, of s p]
    by (auto simp add: prop_body_read step_ok_def res_ok_def split: sum.split)
next
  case False
  have x: "val_ok (length (heap st)) (arg_at args 0)" using a by (rule arg_at_ok)
  show ?thesis
  proof (cases s)
    case (VObj l)
    then show ?thesis
      using False wf_set_prop [OF wf x, of l p] c
      by (simp add: prop_body_write step_ok_def hext_set_prop set_prop_shape)
  qed (use False wf c in \<open>simp_all add: prop_body_write step_ok_def\<close>)
qed

lemma fn_body_ok:
  assumes k: "fn_ok kk"
    and wf: "wf_state st" and l: "self < length (heap st)"
    and s: "val_ok (length (heap st)) s" and c: "val_ok (length (heap st)) c"
    and a: "list_all (val_ok (length (heap st))) args"
    and r: "fn_body kk self p s c st args = Some out"
  shows "step_ok st out"
proof -
  let ?st1 = "snd (alloc_obj (arguments_object st self args) st)"
  let ?n1 = "length (heap ?st1)"
  have wf1: "wf_state ?st1"
    using wf_alloc_arguments [OF wf l] a by (simp add: list_all_iff)
  have h1: "hext st ?st1" by (rule hext_alloc)
  have s1: "val_ok ?n1 s" and c1: "val_ok ?n1 c"
    using s c by (auto intro: val_ok_mono)
  have argl: "val_ok ?n1 (VObj (length (heap st)))" by simp
  have ok1: "step_ok st (Inl e, ?st1)" if "get_v ?st1 v k = Inl e" for v k e
  proof -
    have "res_ok ?n1 (Inl e)"
      using that by (cases v) (auto simp add: res_ok_def split: option.splits)
    with wf1 h1 show ?thesis by (simp add: step_ok_def)
  qed
  show ?thesis
  proof (cases "get_v ?st1 s p")
    case (Inl e)
    then have "out = (Inl e, ?st1)"
      using r by (simp add: fn_body_def alloc_obj_def [of "arguments_object st self args"])
    with ok1 [OF Inl] show ?thesis by simp
  next
    case C: (Inr callee)
    have cv: "val_ok ?n1 callee" using get_v_val_ok [OF wf1 C] .
    show ?thesis
    proof (cases "get_v ?st1 callee ''apply''")
      case (Inl e)
      with C have "out = (Inl e, ?st1)"
        using r by (simp add: fn_body_def alloc_obj_def [of "arguments_object st self args"])
      with ok1 [OF Inl] show ?thesis by simp
    next
      case A: (Inr ap)
      have av: "val_ok ?n1 ap" using get_v_val_ok [OF wf1 A] .
      show ?thesis
      proof (cases "is_callable ?st1 ap")
        case False
        with C A have "out = (Inl (TypeError ''apply is not a function''), ?st1)"
          using r by (simp add: fn_body_def alloc_obj_def [of "arguments_object st self args"])
        with wf1 h1 show ?thesis by (simp add: step_ok_def)
      next
        case True
        obtain out' where kc: "kk ?st1 ap callee [s, VObj (length (heap st))] = Some out'"
          using r C A True
          by (auto simp add: fn_body_def alloc_obj_def [of "arguments_object st self args"]
              split: option.splits)
        have ok': "step_ok ?st1 out'"
          by (rule fn_okD [OF k wf1 av cv _ kc]) (use s1 argl in simp)
        then have ok'': "step_ok st out'"
          by (rule step_ok_after [OF wf1 h1])
        obtain res s2 where o': "out' = (res, s2)" by (cases out')
        show ?thesis
        proof (cases res)
          case (Inl e)
          with r C A True kc o' ok'' show ?thesis
            by (simp add: fn_body_def alloc_obj_def [of "arguments_object st self args"])
        next
          case (Inr v)
          with r C A True kc o' ok'' c show ?thesis
            by (auto simp add: fn_body_def alloc_obj_def [of "arguments_object st self args"]
                intro: step_ok_js_or)
        qed
      qed
    qed
  qed
qed


lemma to_length_Inl:
  "to_length v = Inl e \<Longrightarrow> e = Unsupported ''ToLength of a String'' \<or> e = Unsupported ''ToLength of an Object''"
  by (cases v rule: to_length.cases) auto

lemma list_from_array_like_Inl: "list_from_array_like st v = Inl e \<Longrightarrow> res_ok n (Inl e)"
  by (auto simp add: list_from_array_like_def res_ok_def dest: to_length_Inl split: jsval.splits sum.splits)

lemma apply_builtin_ok:
  assumes k: "fn_ok kk"
    and wf: "wf_state st" and f: "val_ok (length (heap st)) func"
    and a: "list_all (val_ok (length (heap st))) args"
    and r: "apply_builtin kk st func args = Some out"
  shows "step_ok st out"
proof -
  have t: "val_ok (length (heap st)) (arg_at args 0)" using a by (rule arg_at_ok)
  show ?thesis
  proof (cases "is_callable st func")
    case False
    with r wf show ?thesis by (auto simp add: apply_builtin_def step_ok_def)
  next
    case True
    show ?thesis
    proof (cases "arg_at args 1 = VUndef \<or> arg_at args 1 = VNull")
      case nullish: True
      with True r have "kk st func (arg_at args 0) [] = Some out"
        by (auto simp add: apply_builtin_def Let_def)
      from fn_okD [OF k wf f t _ this] show ?thesis by simp
    next
      case False
      show ?thesis
      proof (cases "list_from_array_like st (arg_at args 1)")
        case (Inl e)
        with True False r wf show ?thesis
          by (auto simp add: apply_builtin_def step_ok_def list_from_array_like_Inl)
      next
        case (Inr xs)
        with True False r have "kk st func (arg_at args 0) xs = Some out"
          by (simp add: apply_builtin_def)
        then show ?thesis
          by (rule fn_okD [OF k wf f t list_from_array_like_ok [OF wf Inr]])
      qed
    qed
  qed
qed

lemma lib_fn_call_ok:
  assumes wf: "wf_state st" and a: "list_all (val_ok (length (heap st))) args"
  shows "step_ok st (lib_fn_call st args)"
proof (cases "arg_at args 0")
  case (VStr s)
  let ?c = "FnClosure s (arg_at args 1) (arg_at args 2)"
  have "closure_ok (length (heap st)) ?c" using arg_at_ok [OF a] by simp
  then have "wf_state (snd (alloc_obj (function_object st ?c) st))" by (rule wf_alloc_function [OF wf])
  with VStr show ?thesis
    by (simp add: lib_fn_call_def trainwreck_fn_def step_ok_def hext_extend
        alloc_obj_def)
qed (use wf in \<open>simp_all add: lib_fn_call_def step_ok_def res_ok_def\<close>)

lemma lib_prop_call_ok:
  assumes wf: "wf_state st" and a: "list_all (val_ok (length (heap st))) args"
  shows "step_ok st (lib_prop_call st args)"
proof (cases "arg_at args 0")
  case (VStr s)
  let ?c = "PropClosure s (arg_at args 1) (arg_at args 2)"
  have "closure_ok (length (heap st)) ?c" using arg_at_ok [OF a] by simp
  then have "wf_state (snd (alloc_obj (function_object st ?c) st))" by (rule wf_alloc_function [OF wf])
  with VStr show ?thesis
    by (simp add: lib_prop_call_def trainwreck_prop_def step_ok_def hext_extend
        alloc_obj_def)
qed (use wf in \<open>simp_all add: lib_prop_call_def step_ok_def res_ok_def\<close>)

lemma create_step_dyn_ok:
  assumes k: "fn_ok k" and wf: "wf_state st" and lib: "lib < length (heap st)"
    and ob: "obj < length (heap st)" and tv: "val_ok (length (heap st)) target"
    and r: "create_step_dyn k lib target obj p st = Some out"
  shows "unit_step_ok st out"
proof (cases "get_v st target p")
  case (Inl e)
  with r have "out = (Inl e, st)" by (simp add: create_step_dyn_def)
  with wf get_v_res_ok [OF wf, of target p] Inl show ?thesis by (simp add: unit_step_ok_def)
next
  case (Inr v)
  let ?nm = "if typeof_v st v = ''function'' then ''fn'' else ''prop''"
  have g: "get_v st (VObj lib) ?nm = Inr (get_prop st lib ?nm)" by simp
  let ?f = "get_prop st lib ?nm"
  have fv: "val_ok (length (heap st)) ?f" by (rule get_prop_val_ok [OF wf])
  show ?thesis
  proof (cases "is_callable st ?f")
    case False
    with r Inr have "out = (Inl (TypeError ''is not a function''), st)"
      by (simp add: create_step_dyn_def)
    with wf show ?thesis by (simp add: unit_step_ok_def)
  next
    case True
    obtain res st1 where c: "k st ?f (VObj lib) [VStr p, target, VObj obj] = Some (res, st1)"
      using r Inr True by (auto simp add: create_step_dyn_def split: option.splits)
    have ok1: "step_ok st (res, st1)"
      by (rule fn_okD [OF k wf fv _ _ c]) (use lib ob tv in simp_all)
    then have wf1: "wf_state st1" and h1: "hext st st1" and r1: "res_ok (length (heap st1)) res"
      by (simp_all add: step_ok_def)
    show ?thesis
    proof (cases res)
      case (Inl e)
      with r Inr True c have "out = (Inl e, st1)" by (simp add: create_step_dyn_def)
      with wf1 h1 r1 Inl show ?thesis by (simp add: unit_step_ok_def)
    next
      case (Inr x)
      with r \<open>get_v st target p = Inr v\<close> True c
      have "out = (Inr (), set_prop st1 obj p x)" by (simp add: create_step_dyn_def)
      moreover have "wf_state (set_prop st1 obj p x)" using wf_set_prop [OF wf1] r1 Inr by simp
      moreover have "hext st (set_prop st1 obj p x)" using hext_trans [OF h1 hext_set_prop] .
      ultimately show ?thesis by (simp add: unit_step_ok_def)
    qed
  qed
qed

lemma create_loop_dyn_ok:
  assumes k: "fn_ok k"
  shows "wf_state st \<Longrightarrow> lib < length (heap st) \<Longrightarrow> obj < length (heap st) \<Longrightarrow>
         val_ok (length (heap st)) target \<Longrightarrow> create_loop_dyn k lib target obj ps st = Some out \<Longrightarrow>
         unit_step_ok st out"
proof (induction ps arbitrary: st)
  case Nil
  then show ?case by (auto simp add: unit_step_ok_def)
next
  case (Cons p ps)
  obtain res st1 where s: "create_step_dyn k lib target obj p st = Some (res, st1)"
    using Cons.prems(5) by (auto split: option.splits)
  have ok1: "unit_step_ok st (res, st1)" by (rule create_step_dyn_ok [OF k Cons.prems(1-4) s])
  then have wf1: "wf_state st1" and h1: "hext st st1" by (simp_all add: unit_step_ok_def)
  show ?case
  proof (cases res)
    case (Inl e)
    with Cons.prems(5) s ok1 show ?thesis by simp
  next
    case (Inr u)
    have le: "length (heap st) \<le> length (heap st1)" by (rule hext_length [OF h1])
    have l1: "create_loop_dyn k lib target obj ps st1 = Some out" using Cons.prems(5) s Inr by simp
    have "lib < length (heap st1)" "obj < length (heap st1)" "val_ok (length (heap st1)) target"
      using Cons.prems le by (auto intro: val_ok_mono)
    from Cons.IH [OF wf1 this l1] have "unit_step_ok st1 out" .
    with h1 show ?thesis
      by (auto simp add: unit_step_ok_def intro: hext_trans split: prod.splits)
  qed
qed

lemma create_dyn_ok:
  assumes k: "fn_ok k" and wf: "wf_state st" and lib: "lib < length (heap st)"
    and tv: "val_ok (length (heap st)) target" and r: "create_dyn k lib target st = Some out"
  shows "step_ok st out"
proof -
  let ?n = "length (heap st)"
  let ?st1 = "snd (alloc_obj (empty_object st) st)"
  have op: "object_prototype (intr st) < ?n"
    using wf_intr_ok [OF wf] by (simp add: intr_ok_def)
  have wf1: "wf_state ?st1"
    by (rule wf_alloc [OF wf]) (use op in \<open>simp_all add: obj_ok_def empty_object_def\<close>)
  obtain res st2 where l: "create_loop_dyn k lib target ?n (for_in_keys ?st1 target) ?st1 = Some (res, st2)"
    using r by (auto simp add: create_dyn_def alloc_obj_def [of "empty_object st"] split: option.splits)
  have "unit_step_ok ?st1 (res, st2)"
    by (rule create_loop_dyn_ok [OF k wf1 _ _ _ l]) (use lib tv in \<open>auto intro: val_ok_mono\<close>)
  then have wf2: "wf_state st2" and h1: "hext ?st1 st2"
    and e: "\<And>e. res = Inl e \<Longrightarrow> res_ok (length (heap st2)) (Inl e)"
    by (auto simp add: unit_step_ok_def)
  have h: "hext st st2" by (rule hext_trans [OF hext_alloc h1])
  have n2: "?n < length (heap st2)"
    using hext_length [OF h1] by simp
  show ?thesis
  proof (cases res)
    case (Inl e')
    with r l have "out = (Inl e', st2)"
      by (simp add: create_dyn_def alloc_obj_def [of "empty_object st"])
    with wf2 h e Inl show ?thesis by (simp add: step_ok_def)
  next
    case (Inr u)
    with r l have "out = (Inr (VObj ?n), st2)"
      by (simp add: create_dyn_def alloc_obj_def [of "empty_object st"])
    with wf2 h n2 show ?thesis by (simp add: step_ok_def)
  qed
qed

lemma closure_ok_slot:
  "wf_state st \<Longrightarrow> l < length (heap st) \<Longrightarrow> call_slot (heap st ! l) = Some c \<Longrightarrow>
   closure_ok (length (heap st)) c"
  using wf_obj_ok by (fastforce simp add: obj_ok_def)

lemma call_fn_ok:
  assumes nats: "natives_ok nats"
  shows "fn_ok (call n nats)"
proof (induction n)
  case 0
  show ?case by (simp add: fn_ok_def)
next
  case (Suc n)
  show ?case
    unfolding fn_ok_def
  proof (intro allI impI)
    fix st f this args out
    assume wf: "wf_state st" and fv: "val_ok (length (heap st)) f"
      and tv: "val_ok (length (heap st)) this" and a: "list_all (val_ok (length (heap st))) args"
      and r: "call (Suc n) nats st f this args = Some out"
    show "step_ok st out"
    proof (cases "\<exists>l. f = VObj l \<and> call_slot (heap st ! l) \<noteq> None")
      case False
      with wf fv r show ?thesis
        by (auto simp add: obj_at_def step_ok_def split: jsval.splits if_splits option.splits)
    next
      case True
      then obtain l c where f: "f = VObj l" and c: "call_slot (heap st ! l) = Some c" by blast
      have l: "l < length (heap st)" using fv f by simp
      have o: "obj_at st l = Some (heap st ! l)" using l by (simp add: obj_at_def)
      have cok: "closure_ok (length (heap st)) c" using closure_ok_slot [OF wf l c] .
      show ?thesis
      proof (cases c)
        case (NativeFn i)
        with r f o c have "out = nats i st this args" by simp
        with nats wf tv a show ?thesis by (simp add: natives_ok_def)
      next
        case (FnClosure p s ch)
        with r f o c have "fn_body (call n nats) l p s ch st args = Some out" by simp
        with FnClosure cok show ?thesis
          by (intro fn_body_ok [OF Suc.IH wf l _ _ a]) simp_all
      next
        case (PropClosure p s ch)
        with r f o c have "out = prop_body p s ch st args" by simp
        with PropClosure cok show ?thesis
          using prop_body_ok [OF wf _ _ a] by simp
      next
        case ApplyBuiltin
        with r f o c have "apply_builtin (call n nats) st this args = Some out" by simp
        then show ?thesis by (rule apply_builtin_ok [OF Suc.IH wf tv a])
      next
        case LibFn
        with r f o c have "out = lib_fn_call st args" by simp
        with lib_fn_call_ok [OF wf a] show ?thesis by simp
      next
        case LibProp
        with r f o c have "out = lib_prop_call st args" by simp
        with lib_prop_call_ok [OF wf a] show ?thesis by simp
      next
        case (LibCreate lib)
        with r f o c have "create_dyn (call n nats) lib (arg_at args 0) st = Some out" by simp
        with LibCreate cok show ?thesis
          by (intro create_dyn_ok [OF Suc.IH wf _ arg_at_ok [OF a]]) simp_all
      qed
    qed
  qed
qed

lemma invoke_ok:
  assumes nats: "natives_ok nats" and wf: "wf_state st" and v: "val_ok (length (heap st)) v"
    and a: "list_all (val_ok (length (heap st))) args"
    and r: "invoke n nats st v p args = Some out"
  shows "step_ok st out"
proof (cases "get_v st v p")
  case (Inl e)
  have "res_ok (length (heap st)) (Inl e)"
    using get_v_res_ok [OF wf, of v p] Inl by simp
  moreover have "out = (Inl e, st)" using Inl r by (simp add: invoke_def)
  ultimately show ?thesis using wf by (simp add: step_ok_def)
next
  case (Inr g)
  have g: "val_ok (length (heap st)) g" using get_v_val_ok [OF wf Inr] .
  show ?thesis
  proof (cases "is_callable st g")
    case True
    with Inr r have "call n nats st g v args = Some out" by (simp add: invoke_def)
    then show ?thesis by (rule fn_okD [OF call_fn_ok [OF nats] wf g v a])
  next
    case False
    with Inr r wf show ?thesis by (auto simp add: invoke_def step_ok_def)
  qed
qed

lemma chain_calls_ok:
  assumes nats: "natives_ok nats"
  shows "wf_state st \<Longrightarrow> val_ok (length (heap st)) v \<Longrightarrow>
         \<forall>(p, args) \<in> set cs. list_all (val_ok (length (heap st))) args \<Longrightarrow>
         chain_calls n nats st v cs = Some out \<Longrightarrow> step_ok st out"
proof (induction cs arbitrary: st v)
  case Nil
  then have "out = (Inr v, st)" by simp
  with Nil.prems show ?case by (simp add: step_ok_def)
next
  case (Cons c cs)
  obtain p args where c: "c = (p, args)" by (cases c)
  obtain res st1 where i: "invoke n nats st v p args = Some (res, st1)"
    using Cons.prems(4) c by (auto split: option.splits)
  have a: "list_all (val_ok (length (heap st))) args" using Cons.prems(3) c by auto
  have ok1: "step_ok st (res, st1)" by (rule invoke_ok [OF nats Cons.prems(1,2) a i])
  then have wf1: "wf_state st1" and h1: "hext st st1" and r1: "res_ok (length (heap st1)) res"
    by (simp_all add: step_ok_def)
  show ?case
  proof (cases res)
    case (Inl e)
    with Cons.prems(4) c i ok1 show ?thesis by simp
  next
    case (Inr r)
    have rest: "\<forall>(p, args) \<in> set cs. list_all (val_ok (length (heap st1))) args"
      using Cons.prems(3) hext_length [OF h1] by (fastforce simp add: list_all_iff intro: val_ok_mono)
    have "chain_calls n nats st1 r cs = Some out" using Cons.prems(4) c i Inr by simp
    from Cons.IH [OF wf1 _ rest this] r1 Inr have "step_ok st1 out" by simp
    then show ?thesis by (rule step_ok_after [OF wf1 h1])
  qed
qed

end
