(* ===== verification/Export.thy ===== *)
theory Export
  imports JS_Call
begin

text \<open>
  The export code of lines 61--69, run once when the file is loaded: with an AMD loader
  (\<open>typeof define === 'function' && define.amd\<close>) it calls
  \<open>define('trainwreck', trainwreck)\<close>; otherwise under CommonJS
  (\<open>typeof module !== 'undefined' && module.exports\<close>) it assigns
  \<open>module.exports = trainwreck\<close>; otherwise it assigns \<open>global['trainwreck']\<close>, where
  \<open>global\<close> is the \<open>this\<close> the wrapping function was called with (line 71). The free
  variables \<open>define\<close> and \<open>module\<close> are parameters, \<open>undefined\<close> when the environment
  does not declare them (\<open>typeof\<close> of an undeclared variable is \<open>'undefined'\<close>), and
  so are \<open>global\<close> and the library object \<open>lib\<close>. The call of \<open>define\<close> goes through
  the engine's [[Call]], with fuel; \<open>None\<close> means it did not return.
\<close>

definition export_lib ::
  "nat \<Rightarrow> natives \<Rightarrow> js_state \<Rightarrow> jsval \<Rightarrow> jsval \<Rightarrow> jsval \<Rightarrow> jsval \<Rightarrow> unit outcome option" where
  "export_lib n nats st define_v module_v global_v lib =
     (let browser =
            (case put_v st global_v ''trainwreck'' lib of
               Inl e \<Rightarrow> Some (Inl e, st)
             | Inr st' \<Rightarrow> Some (Inr (), st'));
          node =
            (case put_v st module_v ''exports'' lib of
               Inl e \<Rightarrow> Some (Inl e, st)
             | Inr st' \<Rightarrow> Some (Inr (), st'));
          amd =
            (case call n nats st define_v VUndef [VStr ''trainwreck'', lib] of
               None \<Rightarrow> None
             | Some (Inl e, st') \<Rightarrow> Some (Inl e, st')
             | Some (Inr r, st') \<Rightarrow> Some (Inr (), st'));
          not_amd =
            (if typeof_v st module_v \<noteq> ''undefined'' then
               (case get_v st module_v ''exports'' of
                  Inl e \<Rightarrow> Some (Inl e, st)
                | Inr ex \<Rightarrow> if to_boolean ex then node else browser)
             else browser)
      in if typeof_v st define_v = ''function'' then
           (case get_v st define_v ''amd'' of
              Inl e \<Rightarrow> Some (Inl e, st)
            | Inr a \<Rightarrow> if to_boolean a then amd else not_amd)
         else not_amd)"

text \<open>
  Loading the file, lines 7--71: the function \<open>(function(global){ ... }(this))\<close>
  runs with \<open>global\<close> the caller's \<open>this\<close>; it builds the library object (lines
  9--59) and exports it (lines 61--69).
\<close>

definition load_file :: "nat \<Rightarrow> natives \<Rightarrow> js_state \<Rightarrow> jsval \<Rightarrow> jsval \<Rightarrow> jsval \<Rightarrow> unit outcome option" where
  "load_file n nats st define_v module_v this_v =
     (let (lib, st1) = library_object st in export_lib n nats st1 define_v module_v this_v (VObj lib))"

section \<open>The three environments\<close>

lemma export_amd:
  assumes "typeof_v st define_v = ''function''" and "to_boolean (get_prop st d ''amd'')"
    and "define_v = VObj d"
  shows "export_lib n nats st define_v module_v global_v lib =
           (case call n nats st define_v VUndef [VStr ''trainwreck'', lib] of
              None \<Rightarrow> None
            | Some (Inl e, st') \<Rightarrow> Some (Inl e, st')
            | Some (Inr r, st') \<Rightarrow> Some (Inr (), st'))"
  using assms by (simp add: export_lib_def Let_def)

lemma export_not_amd:
  assumes "typeof_v st define_v \<noteq> ''function''"
  shows "export_lib n nats st define_v module_v global_v lib =
           (if typeof_v st module_v \<noteq> ''undefined'' then
              (case get_v st module_v ''exports'' of
                 Inl e \<Rightarrow> Some (Inl e, st)
               | Inr ex \<Rightarrow>
                   if to_boolean ex then
                     (case put_v st module_v ''exports'' lib of
                        Inl e \<Rightarrow> Some (Inl e, st) | Inr st' \<Rightarrow> Some (Inr (), st'))
                   else
                     (case put_v st global_v ''trainwreck'' lib of
                        Inl e \<Rightarrow> Some (Inl e, st) | Inr st' \<Rightarrow> Some (Inr (), st')))
            else
              (case put_v st global_v ''trainwreck'' lib of
                 Inl e \<Rightarrow> Some (Inl e, st) | Inr st' \<Rightarrow> Some (Inr (), st')))"
  using assms by (simp add: export_lib_def Let_def)

lemma export_node:
  assumes "typeof_v st define_v \<noteq> ''function''" and "module_v = VObj m"
    and "to_boolean (get_prop st m ''exports'')"
  shows "export_lib n nats st define_v module_v global_v lib = Some (Inr (), set_prop st m ''exports'' lib)"
  using assms by (simp add: export_not_amd)

lemma export_browser:
  assumes "typeof_v st define_v \<noteq> ''function''" and "module_v = VUndef" and "global_v = VObj g"
  shows "export_lib n nats st define_v module_v global_v lib = Some (Inr (), set_prop st g ''trainwreck'' lib)"
  using assms by (simp add: export_not_amd)

lemma export_no_global:
  assumes "typeof_v st define_v \<noteq> ''function''" and "module_v = VUndef" and "global_v = VUndef"
  shows "export_lib n nats st define_v module_v global_v lib =
           Some (Inl (TypeError ''Cannot set properties of undefined''), st)"
  using assms by (simp add: export_not_amd)

end
