(* ===== verification/Library.thy ===== *)
theory Library
  imports JS_Safety Export
begin

text \<open>
  The library object \<open>trainwreck\<close> (lines 9--59) and \<open>create\<close> as the code runs it,
  reading \<open>trainwreck.fn\<close> and \<open>trainwreck.prop\<close> from that object at every iteration
  (line 54). \<open>lib_intact\<close> says the object still holds the original \<open>fn\<close> and
  \<open>prop\<close>; while it does, the late-bound \<open>create\<close> is the \<open>create\<close> of the Trainwreck
  theory, so every theorem about \<open>trainwreck_create\<close> applies to \<open>trainwreck.create\<close>
  called on the library object.
\<close>

definition lib_intact :: "js_state \<Rightarrow> loc \<Rightarrow> bool" where
  "lib_intact st lib =
     ((case wrapper_fn st lib ''fn'' of Some (f, c) \<Rightarrow> c = LibFn | None \<Rightarrow> False)
      \<and> (case wrapper_fn st lib ''prop'' of Some (f, c) \<Rightarrow> c = LibProp | None \<Rightarrow> False))"

section \<open>The library object keeps its methods\<close>

lemma lib_intactD:
  assumes "lib_intact st lib"
  obtains f g where "wrapper_fn st lib ''fn'' = Some (f, LibFn)" and "wrapper_fn st lib ''prop'' = Some (g, LibProp)"
  using assms by (auto simp add: lib_intact_def split: option.splits)

lemma lib_intact_alloc: "lib_intact st lib \<Longrightarrow> lib_intact (snd (alloc_obj ob st)) lib"
  by (elim lib_intactD) (simp add: lib_intact_def wrapper_fn_alloc)

lemma lib_intact_extend: "lib_intact st lib \<Longrightarrow> lib_intact (st\<lparr>heap := heap st @ hs\<rparr>) lib"
  by (elim lib_intactD) (simp add: lib_intact_def wrapper_fn_extend)

lemma lib_intact_set_prop: "t \<noteq> lib \<Longrightarrow> lib_intact (set_prop st t k v) lib = lib_intact st lib"
  by (simp add: lib_intact_def wrapper_fn_set_prop)

lemma lib_intact_length: "lib_intact st lib \<Longrightarrow> lib < length (heap st)"
  by (elim lib_intactD) (simp add: wrapper_fn_SomeD)

section \<open>\<open>create\<close> through the library object\<close>

lemma create_step_dyn_static:
  assumes li: "lib_intact st lib"
  shows "create_step_dyn (call (Suc m) nats) lib target obj p st = Some (create_step target obj p st)"
proof -
  obtain f g where f: "wrapper_fn st lib ''fn'' = Some (f, LibFn)"
    and g: "wrapper_fn st lib ''prop'' = Some (g, LibProp)"
    using li by (rule lib_intactD)
  note fD = wrapper_fn_SomeD [OF f] and gD = wrapper_fn_SomeD [OF g]
  have cf: "is_callable st (VObj f)" and cg: "is_callable st (VObj g)"
    using fD gD by (simp_all add: is_callable_def)
  have call_f: "call (Suc m) nats st (VObj f) (VObj lib) [VStr p, target, VObj obj]
                = Some (let (x, st') = trainwreck_fn p target (VObj obj) st in (Inr x, st'))"
    using call_LibFn [of st f _ m nats "VObj lib"] fD by (simp add: lib_fn_call_def arg_at_def)
  have call_g: "call (Suc m) nats st (VObj g) (VObj lib) [VStr p, target, VObj obj]
                = Some (let (x, st') = trainwreck_prop p target (VObj obj) st in (Inr x, st'))"
    using call_LibProp [of st g _ m nats "VObj lib"] gD by (simp add: lib_prop_call_def arg_at_def)
  show ?thesis
  proof (cases "get_v st target p")
    case (Inl e)
    then show ?thesis by (simp add: create_step_dyn_def create_step_def)
  next
    case (Inr v)
    then show ?thesis
      using fD gD cf cg call_f call_g
      by (cases "typeof_v st v = ''function''")
        (simp_all add: create_step_dyn_def create_step_def trainwreck_fn_def trainwreck_prop_def
          split: prod.split sum.split del: call.simps)
  qed
qed

lemma lib_intact_create_step:
  assumes li: "lib_intact st lib" and ol: "obj \<noteq> lib"
  shows "lib_intact (snd (create_step target obj p st)) lib"
proof (cases "get_v st target p")
  case (Inl e)
  with li show ?thesis by (simp add: create_step_state)
next
  case (Inr v)
  with li ol show ?thesis
    by (simp add: create_step_state lib_intact_set_prop lib_intact_alloc)
qed

lemma create_loop_dyn_static:
  "lib_intact st lib \<Longrightarrow> obj \<noteq> lib \<Longrightarrow>
   create_loop_dyn (call (Suc m) nats) lib target obj ps st = Some (create_loop target obj ps st)"
proof (induction ps arbitrary: st)
  case Nil
  then show ?case by (simp del: call.simps)
next
  case (Cons p ps)
  obtain r st' where s: "create_step target obj p st = (r, st')" by (cases "create_step target obj p st")
  have li': "lib_intact st' lib"
    using lib_intact_create_step [OF Cons.prems, of target p] s by simp
  show ?case
    using create_step_dyn_static [OF Cons.prems(1), of m nats target obj p] s Cons.IH [OF li' Cons.prems(2)]
    by (cases r) (simp_all del: call.simps)
qed

lemma create_dyn_static:
  assumes li: "lib_intact st lib"
  shows "create_dyn (call (Suc m) nats) lib target st = Some (trainwreck_create target st)"
proof -
  let ?st1 = "snd (alloc_obj (empty_object st) st)"
  have ol: "length (heap st) \<noteq> lib" using lib_intact_length [OF li] by simp
  have "create_loop_dyn (call (Suc m) nats) lib target (length (heap st)) ks ?st1
        = Some (create_loop target (length (heap st)) ks ?st1)" for ks
    by (rule create_loop_dyn_static [OF lib_intact_alloc [OF li] ol])
  then show ?thesis
    by (simp add: create_dyn_def trainwreck_create_def alloc_obj_def [of "empty_object st"]
        split: prod.split sum.split del: call.simps)
qed

lemma invoke_lib_create:
  assumes li: "lib_intact st lib"
    and c: "wrapper_fn st lib ''create'' = Some (c, LibCreate lib)"
  shows "invoke (Suc (Suc m)) nats st (VObj lib) ''create'' args
         = Some (trainwreck_create (arg_at args 0) st)"
  using invoke_wrapper_fn [OF c] wrapper_fn_SomeD [OF c] create_dyn_static [OF li]
  by (simp add: call_LibCreate del: call.simps)


section \<open>Building the library object\<close>

lemma library_object_eq:
  "library_object st =
     (length (heap st),
      st\<lparr>heap := heap st @
        [(empty_object st)\<lparr>own_props :=
           [(''fn'', \<lparr>pd_value = VObj (Suc (length (heap st))), pd_writable = True, pd_enumerable = True\<rparr>),
            (''prop'', \<lparr>pd_value = VObj (Suc (Suc (length (heap st)))), pd_writable = True, pd_enumerable = True\<rparr>),
            (''create'', \<lparr>pd_value = VObj (Suc (Suc (Suc (length (heap st))))), pd_writable = True,
                          pd_enumerable = True\<rparr>)]\<rparr>,
         function_object st LibFn, function_object st LibProp,
         function_object st (LibCreate (length (heap st)))]\<rparr>)"
  by (simp add: library_object_def alloc_obj_def update_obj_def add_own_def empty_object_def
      nth_append list_update_append)

lemma library_object_members:
  "lib_intact (snd (library_object st)) (length (heap st))
   \<and> wrapper_fn (snd (library_object st)) (length (heap st)) ''create''
       = Some (Suc (Suc (Suc (length (heap st)))), LibCreate (length (heap st)))"
  by (simp add: library_object_eq lib_intact_def wrapper_fn_def own_prop_def obj_at_def nth_append
      function_object_def empty_object_def)

lemma wf_library_object:
  assumes wf: "wf_state st"
  shows "wf_state (snd (library_object st))"
proof -
  let ?n = "length (heap st)"
  let ?d = "\<lambda>v. \<lparr>pd_value = v, pd_writable = True, pd_enumerable = True\<rparr>"
  let ?F = "\<lambda>c. function_object st c"
  let ?S1 = "snd (alloc_obj (empty_object st) st)"
  let ?S2 = "snd (alloc_obj (?F LibFn) ?S1)"
  let ?S3 = "snd (alloc_obj (?F LibProp) ?S2)"
  let ?S4 = "snd (alloc_obj (?F (LibCreate ?n)) ?S3)"
  let ?G = "add_own ''create'' (VObj (Suc (Suc (Suc ?n)))) \<circ> add_own ''prop'' (VObj (Suc (Suc ?n)))
            \<circ> add_own ''fn'' (VObj (Suc ?n))"
  have op: "object_prototype (intr st) < ?n"
    using wf_intr_ok [OF wf] by (simp add: intr_ok_def)
  have fo: "function_object s c = ?F c" if "intr s = intr st" for s c
    using that by (simp add: function_object_def)
  have w1: "wf_state ?S1"
    by (rule wf_alloc [OF wf]) (use op in \<open>simp_all add: obj_ok_def empty_object_def\<close>)
  have w2: "wf_state ?S2"
    using wf_alloc_function [OF w1, of LibFn] fo [of ?S1] by simp
  have w3: "wf_state ?S3"
    using wf_alloc_function [OF w2, of LibProp] fo [of ?S2] by simp
  have w4: "wf_state ?S4"
    using wf_alloc_function [OF w3, of "LibCreate ?n"] fo [of ?S3] by simp
  have len4: "length (heap ?S4) = ?n + 4" by simp
  have ok: "obj_ok (length (heap ?S4)) (?G ob)" if "obj_ok (length (heap ?S4)) ob" for ob
    using that len4 by (simp add: obj_ok_add_own)
  have pr: "proto (?G ob) = proto ob" for ob
    by simp
  have w5: "wf_state (update_obj ?n ?G ?S4)"
    using wf_update_obj [of ?S4 ?n ?G] w4 ok pr by blast
  have "library_object st = (?n, update_obj ?n ?G ?S4)"
    by (simp add: library_object_def alloc_obj_def)
  with w5 show ?thesis by simp
qed

lemma hext_library_object: "hext st (snd (library_object st))"
  by (simp add: library_object_eq hext_extend)

section \<open>Loading the file in a browser\<close>

lemma load_file_browser:
  "load_file n nats st VUndef VUndef (VObj g)
   = Some (Inr (), set_prop (snd (library_object st)) g ''trainwreck'' (VObj (length (heap st))))"
  using export_browser [of "snd (library_object st)" VUndef VUndef "VObj g" g n nats]
  by (simp add: load_file_def library_object_eq)

lemma loaded_library:
  assumes g: "g < length (heap st)"
  shows "lib_intact (set_prop (snd (library_object st)) g ''trainwreck'' (VObj (length (heap st))))
           (length (heap st))
         \<and> wrapper_fn (set_prop (snd (library_object st)) g ''trainwreck'' (VObj (length (heap st))))
             (length (heap st)) ''create''
           = Some (Suc (Suc (Suc (length (heap st)))), LibCreate (length (heap st)))"
  using library_object_members [of st] g by (simp add: lib_intact_set_prop wrapper_fn_set_prop)


section \<open>Loading the file keeps conformance\<close>

lemma put_v_unit_ok:
  assumes wf: "wf_state st" and x: "val_ok (length (heap st)) x"
  shows "unit_step_ok st (case put_v st v k x of Inl e \<Rightarrow> (Inl e, st) | Inr st' \<Rightarrow> (Inr (), st'))"
  using wf wf_set_prop [OF wf x] hext_set_prop
  by (cases v) (simp_all add: unit_step_ok_def)

lemma export_lib_ok:
  assumes nats: "natives_ok nats" and wf: "wf_state st"
    and d: "val_ok (length (heap st)) define_v" and lv: "val_ok (length (heap st)) lib"
    and r: "export_lib n nats st define_v module_v global_v lib = Some out"
  shows "unit_step_ok st out"
proof -
  have put: "unit_step_ok st (case put_v st v k lib of Inl e \<Rightarrow> (Inl e, st) | Inr st' \<Rightarrow> (Inr (), st'))"
    for v k by (rule put_v_unit_ok [OF wf lv])
  have err: "unit_step_ok st (Inl e, st)" if "res_ok (length (heap st)) (Inl e)" for e
    using wf that by (simp add: unit_step_ok_def)
  have amd: "unit_step_ok st (case res of Inl e \<Rightarrow> Inl e | Inr x \<Rightarrow> Inr (), st')"
    if c: "call n nats st define_v VUndef [VStr ''trainwreck'', lib] = Some (res, st')" for res st'
  proof -
    have "step_ok st (res, st')"
      by (rule fn_okD [OF call_fn_ok [OF nats] wf d _ _ c]) (use lv in simp_all)
    then show ?thesis by (cases res) (simp_all add: step_ok_def unit_step_ok_def)
  qed
  have ge: "res_ok (length (heap st)) (Inl e)" if "get_v st v k = Inl e" for v k e
    using get_v_res_ok [OF wf, of v k] that by simp
  show ?thesis
    using r put [of global_v "''trainwreck''"] put [of module_v "''exports''"]
      amd ge [THEN err]
    by (auto simp add: export_lib_def Let_def split: if_splits sum.splits option.splits)
qed

lemma load_file_ok:
  assumes nats: "natives_ok nats" and wf: "wf_state st"
    and d: "val_ok (length (heap st)) define_v"
    and r: "load_file n nats st define_v module_v this_v = Some out"
  shows "unit_step_ok st out"
proof -
  let ?S = "snd (library_object st)"
  have h: "hext st ?S" by (rule hext_library_object)
  have len: "length (heap ?S) = length (heap st) + 4" by (simp add: library_object_eq)
  have r': "export_lib n nats ?S define_v module_v this_v (VObj (length (heap st))) = Some out"
    using r by (simp add: load_file_def library_object_eq)
  have ok: "unit_step_ok ?S out"
    by (rule export_lib_ok [OF nats wf_library_object [OF wf] val_ok_mono [OF d] _ r'])
      (simp_all add: len)
  then show ?thesis
    using hext_trans [OF h] by (cases out) (simp add: unit_step_ok_def)
qed

end
