(* ===== verification/Scenario.thy ===== *)
theory Scenario
  imports Library
begin

text \<open>
  Concrete states for the witnesses: a realm with the intrinsic prototypes (locations
  0--5, \<open>Function.prototype.apply\<close> the built-in at location 2), and the target of
  the spec's example, \<open>{name: "Bob", greet: function(who){ this.name = who; }}\<close>
  at location 6, whose method \<open>greet\<close> (location 7) is native method 0. From it:
  the state after \<open>create\<close> (wrapper 8, accessor 9, adapter 10), a frozen copy, a
  target with an inherited enumerable key, a second wrapper of the same target, a
  wrapper of the wrapper, a target whose method is its own adapter, and one whose
  method is a non-function object with an \<open>apply\<close>. Three programs give native
  method 0 a meaning: \<open>greet\<close> of the example, one returning its argument, one
  throwing. The lemmas evaluate the facts the witnesses need, by \<open>code_simp\<close>.
\<close>

definition data_prop :: "jsval \<Rightarrow> prop_desc" where
  "data_prop v = \<lparr>pd_value = v, pd_writable = True, pd_enumerable = True\<rparr>"

definition realm_objs :: "js_obj list" where
  "realm_objs =
    [\<lparr>own_props = [], proto = None, extensible = True, call_slot = None\<rparr>,
     \<lparr>own_props = [(''apply'', \<lparr>pd_value = VObj 2, pd_writable = True, pd_enumerable = False\<rparr>)],
        proto = Some 0, extensible = True, call_slot = Some (NativeFn 1)\<rparr>,
     \<lparr>own_props = [], proto = Some 1, extensible = True, call_slot = Some ApplyBuiltin\<rparr>,
     \<lparr>own_props = [], proto = Some 0, extensible = True, call_slot = None\<rparr>,
     \<lparr>own_props = [], proto = Some 0, extensible = True, call_slot = None\<rparr>,
     \<lparr>own_props = [], proto = Some 0, extensible = True, call_slot = None\<rparr>]"

definition realm :: intrinsics where
  "realm = \<lparr>object_prototype = 0, function_prototype = 1, boolean_prototype = 3,
            number_prototype = 4, string_prototype = 5\<rparr>"

definition bob_state :: js_state where
  "bob_state =
     \<lparr>heap = realm_objs @
        [\<lparr>own_props = [(''name'', data_prop (VStr ''Bob'')), (''greet'', data_prop (VObj 7))],
           proto = Some 0, extensible = True, call_slot = None\<rparr>,
         \<lparr>own_props = [], proto = Some 1, extensible = True, call_slot = Some (NativeFn 0)\<rparr>],
      intr = realm\<rparr>"

text \<open>\<open>greet(who)\<close>: \<open>this.name = who\<close>, returning \<open>undefined\<close>.\<close>

definition greet_natives :: natives where
  "greet_natives i st this args =
     (case put_v st this ''name'' (arg_at args 0) of
        Inl e \<Rightarrow> (Inl e, st)
      | Inr st' \<Rightarrow> (Inr VUndef, st'))"

text \<open>The state after \<open>w = trainwreck.create(target)\<close>: the wrapper is at location 8.\<close>

definition bob_wrapped :: js_state where
  "bob_wrapped = snd (trainwreck_create (VObj 6) bob_state)"

text \<open>A second program over the same heap: method 0 is \<open>function(x){ return x; }\<close>.\<close>

definition echo_natives :: natives where
  "echo_natives i st this args = (Inr (arg_at args 0), st)"

text \<open>\<open>Object.freeze(target)\<close> applied to the example target before it is wrapped.\<close>

definition frozen_prop :: "jsval \<Rightarrow> prop_desc" where
  "frozen_prop v = \<lparr>pd_value = v, pd_writable = False, pd_enumerable = True\<rparr>"

definition frozen_state :: js_state where
  "frozen_state =
     \<lparr>heap = realm_objs @
        [\<lparr>own_props = [(''name'', frozen_prop (VStr ''Bob'')), (''greet'', frozen_prop (VObj 7))],
           proto = Some 0, extensible = False, call_slot = None\<rparr>,
         \<lparr>own_props = [], proto = Some 1, extensible = True, call_slot = Some (NativeFn 0)\<rparr>],
      intr = realm\<rparr>"

definition frozen_wrapped :: js_state where
  "frozen_wrapped = snd (trainwreck_create (VObj 6) frozen_state)"

text \<open>
  A target \<open>{name: "Tom"}\<close> (location 7) whose prototype (location 6) has the
  enumerable property \<open>species\<close>, as \<open>Object.create({species: "cat"})\<close> makes it.
\<close>

definition pet_state :: js_state where
  "pet_state =
     \<lparr>heap = realm_objs @
        [\<lparr>own_props = [(''species'', data_prop (VStr ''cat''))], proto = Some 0, extensible = True,
           call_slot = None\<rparr>,
         \<lparr>own_props = [(''name'', data_prop (VStr ''Tom''))], proto = Some 6, extensible = True,
           call_slot = None\<rparr>],
      intr = realm\<rparr>"

text \<open>
  After \<open>w = create(target)\<close>: \<open>target.greet = w.greet\<close> (the adapter, location 10)
  makes the method its own adapter; \<open>create(w)\<close> wraps the wrapper (the new wrapper at
  location 11); \<open>create(target)\<close> a second time gives a second wrapper of the same
  target (location 11).
\<close>

definition loop_state :: js_state where
  "loop_state = set_prop bob_wrapped 6 ''greet'' (VObj 10)"

definition nested_wrapped :: js_state where
  "nested_wrapped = snd (trainwreck_create (VObj 8) bob_wrapped)"

definition twice_wrapped :: js_state where
  "twice_wrapped = snd (trainwreck_create (VObj 6) bob_wrapped)"

text \<open>A third program: method 0 throws.\<close>

definition throw_natives :: natives where
  "throw_natives i st this args = (Inl (Thrown (VStr ''boom'')), st)"

definition pet_wrapped :: js_state where
  "pet_wrapped = snd (trainwreck_create (VObj 7) pet_state)"

text \<open>
  After \<open>w = create(target)\<close>: \<open>target.greet = {apply: greet}\<close>, an object that is not
  a function but has a callable \<open>apply\<close> (location 11).
\<close>

definition fake_method_state :: js_state where
  "fake_method_state =
     set_prop (bob_wrapped\<lparr>heap := heap bob_wrapped @
        [\<lparr>own_props = [(''apply'', data_prop (VObj 7))], proto = Some 0, extensible = True,
          call_slot = None\<rparr>]\<rparr>) 6 ''greet'' (VObj 11)"

text \<open>
  A loading environment for lines 61--69: the library object (location 6), a CommonJS
  \<open>module\<close> (7) whose \<open>exports\<close> is an empty object (8), a global object (9), an
  AMD \<open>define\<close> (10, native method 0, with \<open>define.amd = true\<close>) and the AMD loader's
  registry (11).
\<close>

definition loader_state :: js_state where
  "loader_state =
     \<lparr>heap = realm_objs @
        [\<lparr>own_props = [], proto = Some 0, extensible = True, call_slot = None\<rparr>,
         \<lparr>own_props = [(''exports'', data_prop (VObj 8))], proto = Some 0, extensible = True,
           call_slot = None\<rparr>,
         \<lparr>own_props = [], proto = Some 0, extensible = True, call_slot = None\<rparr>,
         \<lparr>own_props = [], proto = Some 0, extensible = True, call_slot = None\<rparr>,
         \<lparr>own_props = [(''amd'', data_prop (VBool True))], proto = Some 1, extensible = True,
           call_slot = Some (NativeFn 0)\<rparr>,
         \<lparr>own_props = [], proto = Some 0, extensible = True, call_slot = None\<rparr>],
      intr = realm\<rparr>"

text \<open>\<open>define(name, value)\<close>: the loader records \<open>value\<close> under \<open>name\<close> in its registry.\<close>

definition define_natives :: natives where
  "define_natives i st this args =
     (case arg_at args 0 of
        VStr nm \<Rightarrow>
          (case put_v st (VObj 11) nm (arg_at args 1) of
             Inl e \<Rightarrow> (Inl e, st)
           | Inr st' \<Rightarrow> (Inr VUndef, st'))
      | _ \<Rightarrow> (Inl (TypeError ''define: the module name is not a string''), st))"

text \<open>
  A browser: the example's heap with a global object at location 8. Loading the file
  there puts the library at 9 (\<open>fn\<close> 10, \<open>prop\<close> 11, \<open>create\<close> 12) and assigns it to
  \<open>window.trainwreck\<close>; in a second state the program then replaces
  \<open>trainwreck.prop\<close> by its own function (location 7).
\<close>

definition browser_state :: js_state where
  "browser_state =
     bob_state\<lparr>heap := heap bob_state @
        [\<lparr>own_props = [], proto = Some 0, extensible = True, call_slot = None\<rparr>]\<rparr>"

definition loaded_state :: js_state where
  "loaded_state = set_prop (snd (library_object browser_state)) 8 ''trainwreck'' (VObj 9)"

definition patched_state :: js_state where
  "patched_state = set_prop loaded_state 9 ''prop'' (VObj 7)"

lemma wf_bob_state: "wf_state bob_state"
  by code_simp

lemma bob_for_in_keys: "for_in_keys bob_state (VObj 6) = [''name'', ''greet'']"
  by code_simp

lemma bob_inherits_writable: "\<forall>p \<in> set (for_in_keys bob_state (VObj 6)). inherits_writable bob_state p"
  by code_simp


lemma bob_state_len: "length (heap bob_state) = 8"
  by (simp add: bob_state_def realm_objs_def)

lemma bob_wrapped_len: "length (heap bob_wrapped) = 11"
  by code_simp

lemma wf_bob_wrapped: "wf_state bob_wrapped"
  by code_simp

lemma bob_name_accessor: "wrapper_fn bob_wrapped 8 ''name'' = Some (9, PropClosure ''name'' (VObj 6) (VObj 8))"
  by code_simp

lemma bob_greet_adapter: "wrapper_fn bob_wrapped 8 ''greet'' = Some (10, FnClosure ''greet'' (VObj 6) (VObj 8))"
  by code_simp

lemma bob_greet_native:
  "get_prop bob_wrapped 6 ''greet'' = VObj 7" "call_slot (heap bob_wrapped ! 7) = Some (NativeFn 0)"
  "apply_is_builtin bob_wrapped 7"
  by code_simp+


text \<open>The example's method keeps conformance: it writes an argument into \<open>this\<close>.\<close>

lemma greet_natives_ok: "natives_ok greet_natives"
  unfolding natives_ok_def
proof (intro allI impI)
  fix i st this args
  assume wf: "wf_state st" and tv: "val_ok (length (heap st)) this"
    and a: "list_all (val_ok (length (heap st))) args"
  show "step_ok st (greet_natives i st this args)"
  proof (cases this)
    case (VObj l)
    then show ?thesis
      using wf_set_prop [OF wf arg_at_ok [OF a]]
      by (simp add: greet_natives_def step_ok_def hext_set_prop set_prop_shape)
  qed (use wf in \<open>simp_all add: greet_natives_def step_ok_def\<close>)
qed


lemma wf_browser_state: "wf_state browser_state"
  by code_simp

lemma browser_state_len: "length (heap browser_state) = 9"
  by (simp add: browser_state_def bob_state_def realm_objs_def)

lemma load_browser_state:
  "load_file 1 greet_natives browser_state VUndef VUndef (VObj 8) = Some (Inr (), loaded_state)"
  using load_file_browser [of 1 greet_natives browser_state 8]
  by (simp add: loaded_state_def browser_state_len)

lemma loaded_state_intact: "lib_intact loaded_state 9"
  by code_simp

lemma loaded_state_create: "wrapper_fn loaded_state 9 ''create'' = Some (12, LibCreate 9)"
  by code_simp

text \<open>
  The scenario of the spec on the example: \<open>w.name()\<close> is \<open>"Bob"\<close>;
  \<open>w.name("Alice")\<close> returns \<open>w\<close> and sets \<open>target.name\<close>; \<open>w.greet("Carl")\<close>
  returns \<open>w\<close>; \<open>w.name("Alice").greet("Carl").name()\<close> is \<open>"Carl"\<close>.
\<close>

lemma spec_scenario:
  "trainwreck_create (VObj 6) bob_state = (Inr (VObj 8), bob_wrapped)
   \<and> invoke 5 greet_natives bob_wrapped (VObj 8) ''name'' [] = Some (Inr (VStr ''Bob''), bob_wrapped)
   \<and> (case chain_calls 5 greet_natives bob_wrapped (VObj 8) [(''name'', [VStr ''Alice''])] of
        Some (Inr v, s) \<Rightarrow> v = VObj 8 \<and> get_prop s 6 ''name'' = VStr ''Alice''
      | _ \<Rightarrow> False)
   \<and> (case chain_calls 5 greet_natives bob_wrapped (VObj 8) [(''greet'', [VStr ''Carl''])] of
        Some (Inr v, s) \<Rightarrow> v = VObj 8 \<and> get_prop s 6 ''name'' = VStr ''Carl''
      | _ \<Rightarrow> False)
   \<and> (case chain_calls 5 greet_natives bob_wrapped (VObj 8)
           [(''name'', [VStr ''Alice'']), (''greet'', [VStr ''Carl'']), (''name'', [])] of
        Some (Inr v, s) \<Rightarrow> v = VStr ''Carl''
      | _ \<Rightarrow> False)"
proof (intro conjI)
  show "trainwreck_create (VObj 6) bob_state = (Inr (VObj 8), bob_wrapped)" by code_simp
  show "invoke 5 greet_natives bob_wrapped (VObj 8) ''name'' [] = Some (Inr (VStr ''Bob''), bob_wrapped)"
    by code_simp
  show "case chain_calls 5 greet_natives bob_wrapped (VObj 8) [(''name'', [VStr ''Alice''])] of
          Some (Inr v, s) \<Rightarrow> v = VObj 8 \<and> get_prop s 6 ''name'' = VStr ''Alice'' | _ \<Rightarrow> False"
    by code_simp
  show "case chain_calls 5 greet_natives bob_wrapped (VObj 8) [(''greet'', [VStr ''Carl''])] of
          Some (Inr v, s) \<Rightarrow> v = VObj 8 \<and> get_prop s 6 ''name'' = VStr ''Carl'' | _ \<Rightarrow> False"
    by code_simp
  show "case chain_calls 5 greet_natives bob_wrapped (VObj 8)
          [(''name'', [VStr ''Alice'']), (''greet'', [VStr ''Carl'']), (''name'', [])] of
          Some (Inr v, s) \<Rightarrow> v = VStr ''Carl'' | _ \<Rightarrow> False"
    by code_simp
qed

text \<open>
  A program that replaces \<open>trainwreck.prop\<close> after loading the file (here by
  \<open>function(x){ return x; }\<close>) changes what \<open>create\<close> builds: the wrapper's
  \<open>name\<close> is then the string \<open>'name'\<close>, while \<open>greet\<close> is still an adapter.
\<close>

lemma replaced_prop_changes_create:
  "\<not> Library.lib_intact patched_state 9
   \<and> (case invoke 2 echo_natives patched_state (VObj 9) ''create'' [VObj 6] of
        Some (Inr (VObj w), st') \<Rightarrow>
          w = 13 \<and> get_prop st' 13 ''name'' = VStr ''name''
          \<and> (case wrapper_fn st' 13 ''greet'' of
               Some (f, c) \<Rightarrow> c = FnClosure ''greet'' (VObj 6) (VObj 13) | None \<Rightarrow> False)
      | _ \<Rightarrow> False)"
  by code_simp

end
