(* ===== verification/Spec2Isabelle.thy ===== *)
theory Spec2Isabelle
  imports Scenario
begin

text \<open>
  \<^bold>\<open>A verification of trainwreck.js\<close> (src/trainwreck.js, 70 lines).

  \<^bold>\<open>The program.\<close> The file defines one object, \<open>trainwreck\<close>, with three functions:
  \<open>fn(fnName, scope, chain)\<close> (lines 19--23) returns a method adapter that calls
  \<open>scope[fnName]\<close> and returns its result if truthy, else \<open>chain\<close>;
  \<open>prop(propName, scope, chain)\<close> (lines 33--42) returns an accessor that reads
  \<open>scope[propName]\<close> when called without a value and otherwise writes it and returns
  \<open>chain\<close>; \<open>create(target)\<close> (lines 50--57) allocates a wrapper object and, for every
  key a \<open>for-in\<close> loop over \<open>target\<close> visits, stores an adapter (if the value is a
  function at that moment) or an accessor, both closing over the key, the target and the
  wrapper; it reaches \<open>fn\<close> and \<open>prop\<close> through the variable \<open>trainwreck\<close>, so a
  program that replaces them changes what later calls of \<open>create\<close> build. Lines
  61--69 export the object to AMD, CommonJS or the global object; the whole file is a
  function called once with the caller's \<open>this\<close> (lines 7, 71).
  What the code does is JavaScript semantics: property reads and writes along prototype
  chains, \<open>for-in\<close> enumeration, \<open>typeof\<close>, truthiness, \<open>Function.prototype.apply\<close>
  and the \<open>arguments\<close> object; so the development models that part of the engine too.

  \<^bold>\<open>The theories.\<close>
  \<^item> JS_Prelude: decimal spelling of array indices (\<open>nat_str\<close>, \<open>parse_index\<close>) with
    its round trip; association-list lemmas; the rule collections \<open>js_eval\<close> and
    \<open>js_frame\<close>.
  \<^item> JS_Values: values (\<open>jsval\<close>), closures (the [[Call]] slots: the library's
    three functions \<open>LibFn\<close>, \<open>LibProp\<close>, \<open>LibCreate\<close>, the functions they
    return, \<open>FnClosure\<close> and \<open>PropClosure\<close>, native methods, \<open>ApplyBuiltin\<close>), errors,
    \<open>to_boolean\<close> and \<open>js_or\<close> (the \<open>||\<close> of line 21).
  \<^item> JS_Objects: the heap (a list of objects, a location an index), prototype chains
    (walked with fuel \<open>length (heap st)\<close>), \<open>get_prop\<close>/\<open>get_v\<close> (\<open>o[k]\<close>),
    \<open>set_prop\<close>/\<open>put_v\<close> (sloppy-mode \<open>o[k] = v\<close>), \<open>typeof_v\<close>,
    \<open>for_in_keys\<close>; the invariant \<open>wf_state\<close> (references in the heap, distinct own
    keys, finite chains) and the lemmas that allocation and writes keep it, frame rules,
    that \<open>for-in\<close> keys are distinct and unaffected by allocation, and that they are
    exactly the keys whose lookup finds an enumerable property (\<open>for_in_keys_obj\<close>).
  \<^item> Trainwreck: the library itself: \<open>trainwreck_fn\<close>, \<open>fn_body\<close> (line 21),
    \<open>trainwreck_prop\<close>, \<open>prop_body\<close> (lines 35--40), \<open>create_step\<close> (line 54),
    \<open>create_loop\<close> (lines 52--55) and \<open>trainwreck_create\<close> (lines 50--57), with
    \<open>fn\<close> and \<open>prop\<close> called directly; \<open>lib_fn_call\<close> and \<open>lib_prop_call\<close>
    (the library's \<open>fn\<close> and \<open>prop\<close> as callees), \<open>create_step_dyn\<close>,
    \<open>create_loop_dyn\<close> and \<open>create_dyn\<close> (\<open>create\<close> as the code runs it, reading
    \<open>trainwreck.fn\<close>/\<open>trainwreck.prop\<close> from the library object and calling them
    through the engine), \<open>library_object\<close> (the object literal of lines 9--59); the
    abstract specification \<open>create_spec\<close> of what \<open>create\<close> builds and the proof that
    \<open>create\<close> refines it (\<open>trainwreck_create_spec\<close>); that \<open>create\<close> keeps
    \<open>wf_state\<close> (\<open>wf_trainwreck_create\<close>).
  \<^item> JS_Call: the engine's [[Call]] (\<open>call\<close>, with fuel), \<open>apply_builtin\<close>
    (\<open>Function.prototype.apply\<close>, with \<open>to_length\<close> and \<open>list_from_array_like\<close>),
    the method call \<open>invoke\<close>; the round trip of the \<open>arguments\<close> object through
    \<open>apply\<close>, the bound \<open>2^53 - 1\<close> on the list \<open>apply\<close> builds, the adapter over
    any callee with a callable \<open>apply\<close>, and monotonicity in the fuel.
  \<^item> Wrapper: \<open>wrapper_fn\<close> (the function a wrapper holds under a key, in any later
    state), \<open>chain_calls\<close> (a chained expression of the using program), and what
    calling a wrapper's members does: accessor reads and writes, adapters over methods
    of the program, over accessors (a wrapper of a wrapper), over objects with an
    \<open>apply\<close>; the members \<open>create\<close> installs; the divergence of a method that is its
    own adapter.
  \<^item> JS_Safety: conformance of calls in the style of a type-safety proof:
    \<open>hext\<close> (heap extension), \<open>step_ok\<close>, \<open>fn_ok\<close> and \<open>natives_ok\<close>; \<open>call_fn_ok\<close>
    shows by induction on the fuel that every call keeps the heap well-formed, only
    extends it and returns a value of it, when the program's methods do;
    \<open>chain_calls_ok\<close> lifts this to chained expressions; the library's three
    functions are among the callees (\<open>create_dyn_ok\<close>).
  \<^item> Export: \<open>export_lib\<close>, the loading code of lines 61--69 (AMD \<open>define\<close>,
    CommonJS \<open>module.exports\<close>, or the global object), over the engine model, and
    \<open>load_file\<close>, the whole file (lines 7--71): build the library object, export it.
  \<^item> Library: \<open>lib_intact\<close> (the library object still holds its \<open>fn\<close> and
    \<open>prop\<close>); while it does, the late-bound \<open>create\<close> is \<open>trainwreck_create\<close>
    (\<open>create_dyn_static\<close>, \<open>invoke_lib_create\<close>); building the library object
    keeps \<open>wf_state\<close>; loading the file keeps conformance (\<open>load_file_ok\<close>).
  \<^item> Scenario: concrete states (the spec's example and its variants, a loading
    environment, a browser before and after loading the file, and after the program
    replaces \<open>trainwreck.prop\<close>), the natives for the witnesses, and two evaluations:
    the spec's scenario on the example (\<open>spec_scenario\<close>) and \<open>create\<close> after a
    replaced \<open>trainwreck.prop\<close> (\<open>replaced_prop_changes_create\<close>).
  \<^item> Spec2Isabelle (this theory): the properties of the program, each after a text
    naming its claim, with its witness: C1 the refinement of \<open>create\<close>; C2--C3 the
    accessor (spec P2, P3); C4--C5 the adapter (P4, P5); C6--C7 chains (P6);
    C8--C9 what \<open>create\<close> builds and the empty target (P1, P7); C10--C12 the error
    paths; C13--C16 inherited keys, two wrappers of one target, a wrapper of a wrapper,
    the adapter's use of \<open>apply\<close>; C17--C18 divergence and termination of the
    adapter; C19 the wrapper's keys against the lookup; C20--C23 the export code under
    CommonJS, in a browser, with an AMD loader, and without a global object; C24 keys
    added to the target after \<open>create\<close> are not reflected on the wrapper; C25--C26
    the library object: loading in a browser then calling \<open>create\<close>, and the
    library's \<open>fn\<close> and \<open>prop\<close> called as its methods.

  \<^bold>\<open>Interfaces.\<close> \<open>fn_body\<close> calls back into the engine; it takes the engine's call
  as a parameter of type \<open>call_fn\<close>, and \<open>call\<close> passes itself with one unit of
  fuel less. The methods of the program that uses the library are the parameter
  \<open>natives\<close>: every theorem holds for every such program. \<open>create\<close>, as the code
  runs it (\<open>create_dyn\<close>), likewise takes the engine's call, with which it calls
  \<open>trainwreck.fn\<close> and \<open>trainwreck.prop\<close>. The conformance lemmas of JS_Safety
  and Library (calls, chains and loading the file keep the heap well-formed) are
  facts of the engine model, used by the proofs, not properties of the library.

  \<^bold>\<open>Fuel and bounds.\<close> Prototype-chain walks take the heap size as fuel, which
  \<open>wf_state\<close> makes enough (every chain is acyclic, so it has at most that many
  objects; \<open>find_prop_fuel\<close> and \<open>enum_walk_fuel\<close> show more fuel changes nothing).
  Calls take explicit fuel because adapters can call adapters without bound (a wrapper
  of a wrapper, or a target whose method is its own wrapper's adapter); \<open>None\<close> means
  the call does not return with that fuel. More fuel never changes a result
  (\<open>call_fuel_mono\<close>, \<open>invoke_mono\<close>); an
  adapter over a method of the program returns with three units (C18); a self-calling
  adapter is \<open>None\<close> for every fuel (C17). \<open>create\<close> called on the library object
  spends one unit to enter \<open>create\<close> and one to call \<open>trainwreck.fn\<close> or
  \<open>trainwreck.prop\<close>, which return without further calls: two units are enough
  (C25). The \<open>2^53 - 1\<close> bound of \<open>ToLength\<close> is
  compared as an \<open>int\<close> literal so that the kernel evaluates it in binary.

  \<^bold>\<open>Findings.\<close> The \<open>for-in\<close> loop wraps enumerable inherited properties, which the
  spec says are skipped (C13, C19); a write the target refuses fails silently and the
  accessor still returns the wrapper, where the spec expects a WriteError (C12);
  \<open>create(undefined)\<close> and \<open>create(null)\<close> return an empty wrapper (C9); a wrapper of
  a wrapper returns the inner wrapper from its setters (C15); the adapter calls any
  \<open>target[p]\<close> with a callable \<open>apply\<close>, function or not (C16); loaded where
  \<open>this\<close> is \<open>undefined\<close> and no loader is present, the file throws (C23); the
  documentation of \<open>create\<close> does not say that it looks up \<open>trainwreck.fn\<close> and
  \<open>trainwreck.prop\<close> at every iteration, so a program that replaces them changes
  every wrapper built later (\<open>replaced_prop_changes_create\<close>).

  \<^bold>\<open>Not modelled.\<close> The realm has no \<open>Object.prototype.__proto__\<close> accessor (Annex B,
  normative optional): the model is an engine without it. In engines that have it
  (browsers, Node.js), a target with an own enumerable key \<open>__proto__\<close> (from
  \<open>JSON.parse\<close>, say) makes line 54 call that setter, which replaces the wrapper's
  prototype by the new adapter or accessor instead of adding the member, so the wrapper
  then lacks that key and inherits \<open>Function.prototype\<close>. The free variables of the export code (\<open>define\<close>,
  \<open>module\<close>, the global \<open>this\<close>) are parameters, not a model of the host; what the
  AMD loader does with the module is the program's \<open>define\<close> method. Accessor
  properties (getters and setters) and
  [[Configurable]]; the non-enumerable \<open>length\<close>, \<open>name\<close> and \<open>prototype\<close> of
  function objects; Symbols and BigInts; user methods that call back into the engine
  (natives are state transformers); the \<open>for-in\<close> keys are taken when the loop
  starts, so a replaced \<open>trainwreck.fn\<close> that adds keys to the target during the loop
  does not have them visited (which the language permits; deletion is not modelled);
  a property name that is not a string passed to the library's \<open>fn\<close> or \<open>prop\<close>
  (the error \<open>Unsupported\<close>; the code converts it with ToPropertyKey);
  \<open>ToLength\<close> of a String or Object \<open>length\<close> in \<open>Function.prototype.apply\<close>
  (the error \<open>Unsupported\<close>).
\<close>

section \<open>\<open>create\<close>\<close>

text \<open>
  C1. \<open>create(target)\<close> does exactly what its specification says: on a well-formed
  state, with a target whose keys \<open>Object.prototype\<close> does not hold as non-writable, it
  returns a new object \<open>w\<close> (the next free location) and leaves the heap extended by
  \<open>w\<close> and one new function per \<open>for-in\<close> key of the target, in key order; \<open>w\<close> has
  exactly those keys, key \<open>i\<close> holding function \<open>i\<close>, which is a method adapter when
  the target's value for the key was a function and an accessor otherwise.
\<close>

theorem create_refines_spec:
  assumes "wf_state st" and "val_ok (length (heap st)) target"
    and "\<forall>p \<in> set (for_in_keys st target). inherits_writable st p"
  shows "trainwreck_create target st = (Inr (fst (create_spec target st)), snd (create_spec target st))"
  using assms by (rule trainwreck_create_spec)

theorem create_refines_spec_witness:
  "trainwreck_create (VObj 6) bob_state
   = (Inr (fst (create_spec (VObj 6) bob_state)), snd (create_spec (VObj 6) bob_state))"
proof -
  have v: "val_ok (length (heap bob_state)) (VObj 6)"
    by code_simp
  show ?thesis
    using create_refines_spec [OF wf_bob_state v bob_inherits_writable] .
qed


section \<open>The accessor: \<open>trainwreck.prop\<close>\<close>

text \<open>
  C2. Write and chain (spec P3): calling a wrapper's accessor for \<open>p\<close> with a first
  argument \<open>x\<close> other than \<open>undefined\<close> (\<open>null\<close>, \<open>0\<close>, the empty string and
  \<open>false\<close> included) performs \<open>target[p] = x\<close> and returns the wrapper itself, whether
  or not the target takes the write; when it does, \<open>target[p]\<close> then reads \<open>x\<close>. This holds in every state in
  which the wrapper still holds the accessor, not only right after \<open>create\<close>.
\<close>

theorem accessor_write_chains:
  assumes acc: "wrapper_fn st w p = Some (f, PropClosure p (VObj t) (VObj w))"
    and x: "arg_at args 0 = x" and xu: "x \<noteq> VUndef"
    and t: "t < length (heap st)"
  shows "invoke (Suc n) nats st (VObj w) p args = Some (Inr (VObj w), set_prop st t p x)
         \<and> (write_allowed st t p \<longrightarrow> get_prop (set_prop st t p x) t p = x)"
  using accessor_set [OF acc] get_prop_set_prop_same [OF t] x xu by simp

theorem accessor_write_chains_witness:
  "invoke 1 greet_natives bob_wrapped (VObj 8) ''name'' [VStr ''Alice'']
     = Some (Inr (VObj 8), set_prop bob_wrapped 6 ''name'' (VStr ''Alice''))
   \<and> get_prop (set_prop bob_wrapped 6 ''name'' (VStr ''Alice'')) 6 ''name'' = VStr ''Alice''"
proof -
  have wa: "write_allowed bob_wrapped 6 ''name''" by code_simp
  show ?thesis
    using accessor_write_chains [OF bob_name_accessor _ _ _, of "[VStr ''Alice'']" "VStr ''Alice''" 0] wa
    by (simp add: arg_at_def bob_wrapped_len)
qed

text \<open>
  C3. Read purity (spec P2): calling the accessor with no argument (or with
  \<open>undefined\<close>) returns the target's current value for \<open>p\<close>, \<open>target[p]\<close>, and changes
  nothing.
\<close>

theorem accessor_read_pure:
  assumes "wrapper_fn st w p = Some (f, PropClosure p target (VObj w))"
    and "arg_at args 0 = VUndef"
  shows "invoke (Suc n) nats st (VObj w) p args = Some (get_v st target p, st)"
  using accessor_call [OF assms(1)] prop_body_read [OF assms(2)] by simp

theorem accessor_read_pure_witness:
  "invoke 1 greet_natives bob_wrapped (VObj 8) ''name'' [] = Some (Inr (VStr ''Bob''), bob_wrapped)"
proof -
  have "get_v bob_wrapped (VObj 6) ''name'' = Inr (VStr ''Bob'')" by code_simp
  then show ?thesis
    using accessor_read_pure [OF bob_name_accessor, of "[]" 0 greet_natives] by (simp add: arg_at_def)
qed

section \<open>The method adapter: \<open>trainwreck.fn\<close>\<close>

text \<open>
  C4. Truthy result (spec P4): when the target's method \<open>p\<close>, looked up at call time,
  is a method of the program that returns a truthy \<open>r\<close>, the wrapper's \<open>p\<close> returns
  exactly \<open>r\<close>, with the state the method left (after the adapter's \<open>arguments\<close>
  object was allocated); the method runs with \<open>this\<close> the target and exactly the
  wrapper call's arguments.
\<close>

theorem method_truthy_result:
  assumes wf: "wf_state st" and t: "t < length (heap st)"
    and wfn: "wrapper_fn st w p = Some (f, FnClosure p (VObj t) (VObj w))"
    and g: "get_prop st t p = VObj g" and gi: "call_slot (heap st ! g) = Some (NativeFn i)"
    and ab: "apply_is_builtin st g" and n: "length args \<le> 9007199254740991"
    and r: "nats i (snd (alloc_obj (arguments_object st f args) st)) (VObj t) args = (Inr r, st')"
    and tr: "to_boolean r"
  shows "invoke (Suc (Suc (Suc k))) nats st (VObj w) p args = Some (Inr r, st')"
  using adapter_native [OF wf t wfn g gi ab n, of k nats] r tr by (simp add: js_or_def)

theorem method_truthy_result_witness:
  "invoke 3 echo_natives bob_wrapped (VObj 8) ''greet'' [VStr ''Carl'']
   = Some (Inr (VStr ''Carl''), snd (alloc_obj (arguments_object bob_wrapped 10 [VStr ''Carl'']) bob_wrapped))"
  using method_truthy_result [OF wf_bob_wrapped _ bob_greet_adapter bob_greet_native,
      of "[VStr ''Carl'']" echo_natives "VStr ''Carl''"
      "snd (alloc_obj (arguments_object bob_wrapped 10 [VStr ''Carl'']) bob_wrapped)" 0]
  by (simp add: echo_natives_def arg_at_def bob_wrapped_len numeral_3_eq_3)

text \<open>
  C5. Falsy result (spec P5): when the method returns a falsy value (\<open>undefined\<close>,
  \<open>null\<close>, \<open>false\<close>, \<open>0\<close>, \<open>NaN\<close>, the empty string), the wrapper's \<open>p\<close> returns the
  wrapper.
\<close>

theorem method_falsy_chains:
  assumes wf: "wf_state st" and t: "t < length (heap st)"
    and wfn: "wrapper_fn st w p = Some (f, FnClosure p (VObj t) (VObj w))"
    and g: "get_prop st t p = VObj g" and gi: "call_slot (heap st ! g) = Some (NativeFn i)"
    and ab: "apply_is_builtin st g" and n: "length args \<le> 9007199254740991"
    and r: "nats i (snd (alloc_obj (arguments_object st f args) st)) (VObj t) args = (Inr r, st')"
    and fa: "\<not> to_boolean r"
  shows "invoke (Suc (Suc (Suc k))) nats st (VObj w) p args = Some (Inr (VObj w), st')"
  using adapter_native [OF wf t wfn g gi ab n, of k nats] r fa by (simp add: js_or_def)

theorem method_falsy_chains_witness:
  "invoke 3 greet_natives bob_wrapped (VObj 8) ''greet'' [VStr ''Carl'']
   = Some (Inr (VObj 8),
           set_prop (snd (alloc_obj (arguments_object bob_wrapped 10 [VStr ''Carl'']) bob_wrapped))
             6 ''name'' (VStr ''Carl''))"
  using method_falsy_chains [OF wf_bob_wrapped _ bob_greet_adapter bob_greet_native,
      of "[VStr ''Carl'']" greet_natives VUndef
      "set_prop (snd (alloc_obj (arguments_object bob_wrapped 10 [VStr ''Carl'']) bob_wrapped))
         6 ''name'' (VStr ''Carl'')" 0]
  by (simp add: greet_natives_def arg_at_def bob_wrapped_len numeral_3_eq_3)


section \<open>Chains\<close>

text \<open>
  C6. Chains of setters (spec P6, any length): a chain \<open>w.p1(x1).p2(x2)...\<close> of
  accessor calls, each with a value other than \<open>undefined\<close>, on a wrapper of target
  \<open>t\<close>, returns the wrapper and leaves the state of the writes
  \<open>target[p1] = x1; target[p2] = x2; ...\<close> performed in order.
\<close>

theorem setter_chain:
  assumes "t \<noteq> w"
    and "\<forall>(p, args) \<in> set cs. is_accessor st w p (VObj t) \<and> arg_at args 0 \<noteq> VUndef"
  shows "chain_calls (Suc n) nats st (VObj w) cs
         = Some (Inr (VObj w), fold (\<lambda>(p, args) s. set_prop s t p (arg_at args 0)) cs st)"
  using assms by (rule chain_setters)

theorem setter_chain_witness:
  "chain_calls 1 greet_natives bob_wrapped (VObj 8) [(''name'', [VStr ''Alice'']), (''name'', [VNull])]
   = Some (Inr (VObj 8), set_prop (set_prop bob_wrapped 6 ''name'' (VStr ''Alice'')) 6 ''name'' VNull)"
proof -
  have a: "is_accessor bob_wrapped 8 ''name'' (VObj 6)"
    using bob_name_accessor by (simp add: is_accessor_def)
  show ?thesis
    using setter_chain [of 6 8 "[(''name'', [VStr ''Alice'']), (''name'', [VNull])]" bob_wrapped 0
        greet_natives] a
    by (simp add: arg_at_def)
qed

text \<open>
  C7. Two setters compose (spec P6): for a wrapper of \<open>t\<close> with accessors for two
  distinct keys \<open>a\<close> and \<open>b\<close> that the target takes writes to,
  \<open>w.a(x).b(y)\<close> returns the wrapper and leaves \<open>t.a = x\<close> and \<open>t.b = y\<close>.
\<close>

theorem two_setters_compose:
  assumes tw: "t \<noteq> w" and t: "t < length (heap st)" and ab: "a \<noteq> b"
    and acc: "is_accessor st w a (VObj t)" "is_accessor st w b (VObj t)"
    and xy: "x \<noteq> VUndef" "y \<noteq> VUndef"
    and wa: "write_allowed st t a" "write_allowed st t b"
  shows "\<exists>s. chain_calls (Suc n) nats st (VObj w) [(a, [x]), (b, [y])] = Some (Inr (VObj w), s)
             \<and> get_prop s t a = x \<and> get_prop s t b = y"
proof -
  let ?s1 = "set_prop st t a x"
  have c: "chain_calls (Suc n) nats st (VObj w) [(a, [x]), (b, [y])]
           = Some (Inr (VObj w), set_prop ?s1 t b y)"
    using chain_setters [OF tw, of "[(a, [x]), (b, [y])]" st] acc xy by (simp add: arg_at_def)
  have t1: "t < length (heap ?s1)" using t by (simp add: set_prop_shape)
  have wb: "write_allowed ?s1 t b"
    using wa(2) ab by (simp add: write_allowed_set_prop_other_key)
  have "get_prop (set_prop ?s1 t b y) t a = x"
    using ab get_prop_set_prop_same [OF t wa(1)] by (simp add: get_prop_set_prop_other_key)
  moreover have "get_prop (set_prop ?s1 t b y) t b = y"
    by (rule get_prop_set_prop_same [OF t1 wb])
  ultimately show ?thesis using c by blast
qed

theorem two_setters_compose_witness:
  "\<exists>s. chain_calls 1 greet_natives pet_wrapped (VObj 8)
          [(''name'', [VStr ''Jerry'']), (''species'', [VStr ''mouse''])] = Some (Inr (VObj 8), s)
      \<and> get_prop s 7 ''name'' = VStr ''Jerry'' \<and> get_prop s 7 ''species'' = VStr ''mouse''"
proof -
  have t: "7 < length (heap pet_wrapped)" by code_simp
  have a: "is_accessor pet_wrapped 8 ''name'' (VObj 7)" by code_simp
  have b: "is_accessor pet_wrapped 8 ''species'' (VObj 7)" by code_simp
  have wa: "write_allowed pet_wrapped 7 ''name''" by code_simp
  have wb: "write_allowed pet_wrapped 7 ''species''" by code_simp
  show ?thesis
    using two_setters_compose [OF _ t _ a b _ _ wa wb, of "VStr ''Jerry''" "VStr ''mouse''" 0 greet_natives]
    by simp
qed

section \<open>The wrapper \<open>create\<close> builds\<close>

text \<open>
  C8. Structural fidelity (spec P1): the wrapper's own keys are the \<open>for-in\<close> keys of
  the target at the time of \<open>create\<close>, in the order the \<open>for-in\<close> loop visits them
  (which is the order the wrapper's properties were added), and under each key the wrapper
  holds the adapter (for a function) or the accessor (otherwise) made for that key.
\<close>

theorem create_wrapper_structure:
  assumes wf: "wf_state st" and tv: "val_ok (length (heap st)) target"
    and iw: "\<forall>p \<in> set (for_in_keys st target). inherits_writable st p"
  shows "map fst (own_props (heap (snd (trainwreck_create target st)) ! length (heap st)))
           = for_in_keys st target
         \<and> (\<forall>p \<in> set (for_in_keys st target).
              \<exists>f. wrapper_fn (snd (trainwreck_create target st)) (length (heap st)) p
                    = Some (f, adapter_for st target (length (heap st)) p))"
  using create_wrapper_keys [OF wf tv iw] create_wrapper_fn [OF wf tv iw] by blast

theorem create_wrapper_structure_witness:
  "map fst (own_props (heap bob_wrapped ! 8)) = [''name'', ''greet'']
   \<and> (\<exists>f. wrapper_fn bob_wrapped 8 ''greet'' = Some (f, adapter_for bob_state (VObj 6) 8 ''greet''))"
proof -
  have v: "val_ok (length (heap bob_state)) (VObj 6)" by (simp add: bob_state_len)
  show ?thesis
    using create_wrapper_structure [OF wf_bob_state v bob_inherits_writable]
    unfolding bob_for_in_keys bob_wrapped_def [symmetric] bob_state_len by simp
qed

text \<open>
  C9. Empty target (spec P7): when the target has no \<open>for-in\<close> key (\<open>{}\<close>, but also
  \<open>undefined\<close> and \<open>null\<close>, which a \<open>for-in\<close> loop skips), \<open>create\<close> returns a fresh
  empty object and allocates nothing else.
\<close>

theorem create_empty_target:
  assumes wf: "wf_state st" and tv: "val_ok (length (heap st)) target"
    and e: "for_in_keys st target = []"
  shows "trainwreck_create target st
         = (Inr (VObj (length (heap st))), st\<lparr>heap := heap st @ [empty_object st]\<rparr>)"
proof -
  have "(empty_object st)\<lparr>own_props := wrapper_entries (length (heap st)) []\<rparr> = empty_object st"
    by (simp add: empty_object_def wrapper_entries_def)
  then show ?thesis
    using trainwreck_create_spec [OF wf tv] e by (simp add: create_spec_def wrapper_state_def)
qed

theorem create_empty_target_witness:
  "trainwreck_create VUndef bob_state
   = (Inr (VObj 8), bob_state\<lparr>heap := heap bob_state @ [empty_object bob_state]\<rparr>)"
  using create_empty_target [OF wf_bob_state, of VUndef] by (simp add: bob_state_len)

section \<open>Errors\<close>

text \<open>
  C10. Errors propagate (spec section 7): when the target's method throws \<open>e\<close>, the
  wrapper's method throws the same \<open>e\<close>, with the state the method left; nothing is
  caught or rolled back.
\<close>

theorem method_error_propagates:
  assumes wf: "wf_state st" and t: "t < length (heap st)"
    and wfn: "wrapper_fn st w p = Some (f, FnClosure p (VObj t) (VObj w))"
    and g: "get_prop st t p = VObj g" and gi: "call_slot (heap st ! g) = Some (NativeFn i)"
    and ab: "apply_is_builtin st g" and n: "length args \<le> 9007199254740991"
    and r: "nats i (snd (alloc_obj (arguments_object st f args) st)) (VObj t) args = (Inl e, st')"
  shows "invoke (Suc (Suc (Suc k))) nats st (VObj w) p args = Some (Inl e, st')"
  using adapter_native [OF wf t wfn g gi ab n, of k nats] r by simp

theorem method_error_propagates_witness:
  "invoke 3 throw_natives bob_wrapped (VObj 8) ''greet'' []
   = Some (Inl (Thrown (VStr ''boom'')), snd (alloc_obj (arguments_object bob_wrapped 10 []) bob_wrapped))"
  using method_error_propagates [OF wf_bob_wrapped _ bob_greet_adapter bob_greet_native,
      of "[]" throw_natives "Thrown (VStr ''boom'')"
      "snd (alloc_obj (arguments_object bob_wrapped 10 []) bob_wrapped)" 0]
  by (simp add: throw_natives_def bob_wrapped_len numeral_3_eq_3)

text \<open>
  C11. A method that is no longer invocable (spec InvocationError): when
  \<open>target[p]\<close> at call time has no callable \<open>apply\<close> (it was deleted, set to
  \<open>undefined\<close>, or is a primitive), the wrapper's method throws the TypeError of
  reading \<open>apply\<close> or of calling a non-function, and returns no value.
\<close>

theorem method_uncallable_throws:
  assumes wf: "wf_state st" and t: "t < length (heap st)"
    and wfn: "wrapper_fn st w p = Some (f, FnClosure p (VObj t) (VObj w))"
    and nc: "case get_v st (get_prop st t p) ''apply'' of Inl e \<Rightarrow> True | Inr a \<Rightarrow> \<not> is_callable st a"
  shows "invoke (Suc n) nats st (VObj w) p args =
           Some (Inl (case get_v st (get_prop st t p) ''apply'' of
                        Inl e \<Rightarrow> e
                      | Inr a \<Rightarrow> TypeError ''apply is not a function''),
                 snd (alloc_obj (arguments_object st f args) st))"
  by (rule adapter_uncallable [OF wf t wfn nc])

theorem method_uncallable_throws_witness:
  "invoke 1 greet_natives (set_prop bob_wrapped 6 ''greet'' VUndef) (VObj 8) ''greet'' []
   = Some (Inl (TypeError ''Cannot read properties of undefined''),
           snd (alloc_obj (arguments_object (set_prop bob_wrapped 6 ''greet'' VUndef) 10 [])
                 (set_prop bob_wrapped 6 ''greet'' VUndef)))"
proof -
  let ?s = "set_prop bob_wrapped 6 ''greet'' VUndef"
  have wf: "wf_state ?s" by code_simp
  have t: "6 < length (heap ?s)" by code_simp
  have wfn: "wrapper_fn ?s 8 ''greet'' = Some (10, FnClosure ''greet'' (VObj 6) (VObj 8))" by code_simp
  have u: "get_prop ?s 6 ''greet'' = VUndef" by code_simp
  show ?thesis
    using method_uncallable_throws [OF wf t wfn, of 0 greet_natives "[]"] u by simp
qed

text \<open>
  C12. A frozen target (spec WriteError): when the target refuses the write
  (non-writable property, or a non-extensible object without the key), calling the
  accessor with a value throws nothing: the file is not in strict mode, so the
  assignment fails silently, the state is unchanged, and the wrapper is returned.
\<close>

theorem frozen_write_ignored:
  assumes acc: "wrapper_fn st w p = Some (f, PropClosure p (VObj t) (VObj w))"
    and x: "arg_at args 0 \<noteq> VUndef" and na: "\<not> write_allowed st t p"
  shows "invoke (Suc n) nats st (VObj w) p args = Some (Inr (VObj w), st)"
  using accessor_set [OF acc x] set_prop_refused [OF na] by simp

theorem frozen_write_ignored_witness:
  "invoke 1 greet_natives frozen_wrapped (VObj 8) ''name'' [VStr ''Alice''] = Some (Inr (VObj 8), frozen_wrapped)"
proof -
  have acc: "wrapper_fn frozen_wrapped 8 ''name'' = Some (9, PropClosure ''name'' (VObj 6) (VObj 8))"
    by code_simp
  have na: "\<not> write_allowed frozen_wrapped 6 ''name''" by code_simp
  show ?thesis
    using frozen_write_ignored [OF acc _ na, of "[VStr ''Alice'']" 0 greet_natives] by (simp add: arg_at_def)
qed

section \<open>Inherited keys, aliasing and nesting\<close>

text \<open>
  C13. Inherited keys are wrapped: an enumerable property of the target's prototype
  that the target does not shadow becomes a member of the wrapper, because the
  \<open>for-in\<close> loop of \<open>create\<close> has no \<open>hasOwnProperty\<close> filter (the spec says inherited
  properties are skipped).
\<close>

theorem inherited_key_wrapped:
  assumes wf: "wf_state st" and t: "t < length (heap st)"
    and iw: "\<forall>p \<in> set (for_in_keys st (VObj t)). inherits_writable st p"
    and q: "proto (heap st ! t) = Some q" and np: "own_prop (heap st ! t) p = None"
    and en: "enumerable_own (heap st ! q) p"
  shows "\<exists>f. wrapper_fn (snd (trainwreck_create (VObj t) st)) (length (heap st)) p
             = Some (f, adapter_for st (VObj t) (length (heap st)) p)"
  using create_wrapper_fn [OF wf _ iw for_in_keys_inherited [OF wf t q np en]] t by simp

theorem inherited_key_wrapped_witness:
  "\<exists>f. wrapper_fn pet_wrapped 8 ''species'' = Some (f, adapter_for pet_state (VObj 7) 8 ''species'')"
proof -
  have wf: "wf_state pet_state" by code_simp
  have t: "7 < length (heap pet_state)" by code_simp
  have iw: "\<forall>p \<in> set (for_in_keys pet_state (VObj 7)). inherits_writable pet_state p" by code_simp
  have q: "proto (heap pet_state ! 7) = Some 6" by code_simp
  have np: "own_prop (heap pet_state ! 7) ''species'' = None" by code_simp
  have en: "enumerable_own (heap pet_state ! 6) ''species''" by code_simp
  have n: "length (heap pet_state) = 8" by code_simp
  show ?thesis
    using inherited_key_wrapped [OF wf t iw q np en] unfolding n pet_wrapped_def .
qed

text \<open>
  C14. Two wrappers share their target (spec 4.3, re-entrancy): a value written
  through one wrapper's accessor is what the other wrapper's accessor then reads.
\<close>

theorem wrappers_share_target:
  assumes a1: "wrapper_fn st w1 p = Some (f1, PropClosure p (VObj t) (VObj w1))"
    and a2: "wrapper_fn st w2 p = Some (f2, PropClosure p (VObj t) (VObj w2))"
    and tw: "t \<noteq> w2" and x: "x \<noteq> VUndef" and t: "t < length (heap st)"
    and wa: "write_allowed st t p"
  shows "invoke (Suc n) nats st (VObj w1) p [x] = Some (Inr (VObj w1), set_prop st t p x)
         \<and> invoke (Suc n) nats (set_prop st t p x) (VObj w2) p [] = Some (Inr x, set_prop st t p x)"
proof -
  have a2': "wrapper_fn (set_prop st t p x) w2 p = Some (f2, PropClosure p (VObj t) (VObj w2))"
    using a2 tw by (simp add: wrapper_fn_set_prop)
  show ?thesis
    using accessor_set [OF a1, of "[x]"] x accessor_call [OF a2', of n nats "[]"]
      get_prop_set_prop_same [OF t wa, of x]
    by (simp add: arg_at_def prop_body_read)
qed

theorem wrappers_share_target_witness:
  "invoke 1 greet_natives twice_wrapped (VObj 8) ''name'' [VStr ''Alice'']
     = Some (Inr (VObj 8), set_prop twice_wrapped 6 ''name'' (VStr ''Alice''))
   \<and> invoke 1 greet_natives (set_prop twice_wrapped 6 ''name'' (VStr ''Alice'')) (VObj 11) ''name'' []
     = Some (Inr (VStr ''Alice''), set_prop twice_wrapped 6 ''name'' (VStr ''Alice''))"
proof -
  have a1: "wrapper_fn twice_wrapped 8 ''name'' = Some (9, PropClosure ''name'' (VObj 6) (VObj 8))"
    by code_simp
  have a2: "wrapper_fn twice_wrapped 11 ''name'' = Some (12, PropClosure ''name'' (VObj 6) (VObj 11))"
    by code_simp
  have t: "6 < length (heap twice_wrapped)" by code_simp
  have wa: "write_allowed twice_wrapped 6 ''name''" by code_simp
  show ?thesis
    using wrappers_share_target [OF a1 a2 _ _ t wa, of "VStr ''Alice''" 0 greet_natives] by simp
qed

text \<open>
  C15. A wrapper of a wrapper leaves the chain: for \<open>w2 = create(w1)\<close>, the member
  \<open>p\<close> of \<open>w2\<close> is an adapter over \<open>w1\<close>'s accessor (a function), so \<open>w2.p(x)\<close>
  writes the target and returns \<open>w1\<close>, not \<open>w2\<close>.
\<close>

theorem nested_wrapper_returns_inner:
  assumes wf: "wf_state st" and w1: "w1 < length (heap st)"
    and a2: "wrapper_fn st w2 p = Some (f, FnClosure p (VObj w1) (VObj w2))"
    and a1: "wrapper_fn st w1 p = Some (g, PropClosure p (VObj t) (VObj w1))"
    and ab: "apply_is_builtin st g" and n: "length args \<le> 9007199254740991"
    and x: "arg_at args 0 \<noteq> VUndef"
  shows "invoke (Suc (Suc (Suc k))) nats st (VObj w2) p args =
           Some (Inr (VObj w1), set_prop (snd (alloc_obj (arguments_object st f args) st)) t p (arg_at args 0))"
  using wrapper_fn_SomeD [OF a1] adapter_over_accessor [OF wf w1 a2 _ _ ab n x] by blast

theorem nested_wrapper_returns_inner_witness:
  "invoke 3 greet_natives nested_wrapped (VObj 11) ''name'' [VStr ''Alice'']
   = Some (Inr (VObj 8),
           set_prop (snd (alloc_obj (arguments_object nested_wrapped 12 [VStr ''Alice'']) nested_wrapped))
             6 ''name'' (VStr ''Alice''))"
proof -
  have wf: "wf_state nested_wrapped" by code_simp
  have w1: "8 < length (heap nested_wrapped)" by code_simp
  have a2: "wrapper_fn nested_wrapped 11 ''name'' = Some (12, FnClosure ''name'' (VObj 8) (VObj 11))"
    by code_simp
  have a1: "wrapper_fn nested_wrapped 8 ''name'' = Some (9, PropClosure ''name'' (VObj 6) (VObj 8))"
    by code_simp
  have ab: "apply_is_builtin nested_wrapped 9" by code_simp
  show ?thesis
    using nested_wrapper_returns_inner [OF wf w1 a2 a1 ab, where k = 0 and nats = greet_natives]
    by (simp add: arg_at_def numeral_3_eq_3)
qed


text \<open>
  C16. The adapter calls whatever \<open>apply\<close> the current \<open>target[p]\<close> has: when that
  \<open>apply\<close> is a method of the program, the wrapper's \<open>p\<close> runs it with \<open>this\<close> the
  value \<open>target[p]\<close> and arguments the target and the \<open>arguments\<close> object, and
  returns its result or the wrapper. So a non-function \<open>target[p]\<close> with a callable
  \<open>apply\<close> raises no error.
\<close>

theorem method_apply_object_called:
  assumes wf: "wf_state st" and t: "t < length (heap st)"
    and wfn: "wrapper_fn st w p = Some (f, FnClosure p (VObj t) (VObj w))"
    and ap: "get_v st (get_prop st t p) ''apply'' = Inr (VObj a)"
    and ai: "call_slot (heap st ! a) = Some (NativeFn j)"
  shows "invoke (Suc (Suc k)) nats st (VObj w) p args =
           (case nats j (snd (alloc_obj (arguments_object st f args) st)) (get_prop st t p)
                   [VObj t, VObj (length (heap st))] of
              (Inl e, s) \<Rightarrow> Some (Inl e, s)
            | (Inr r, s) \<Rightarrow> Some (Inr (js_or r (VObj w)), s))"
  by (rule adapter_apply_native [OF wf t wfn ap ai])

theorem method_apply_object_called_witness:
  "invoke 2 echo_natives fake_method_state (VObj 8) ''greet'' []
   = Some (Inr (VObj 6), snd (alloc_obj (arguments_object fake_method_state 10 []) fake_method_state))"
proof -
  have wf: "wf_state fake_method_state" by code_simp
  have t: "6 < length (heap fake_method_state)" by code_simp
  have wfn: "wrapper_fn fake_method_state 8 ''greet'' = Some (10, FnClosure ''greet'' (VObj 6) (VObj 8))"
    by code_simp
  have ap: "get_v fake_method_state (get_prop fake_method_state 6 ''greet'') ''apply'' = Inr (VObj 7)"
    by code_simp
  have ai: "call_slot (heap fake_method_state ! 7) = Some (NativeFn 0)" by code_simp
  have nc: "\<not> is_callable fake_method_state (get_prop fake_method_state 6 ''greet'')" by code_simp
  show ?thesis
    using method_apply_object_called [OF wf t wfn ap ai, of 0 echo_natives "[]"]
    by (simp add: echo_natives_def arg_at_def numeral_2_eq_2)
qed

section \<open>Calls that do not return, and fuel\<close>

text \<open>
  C17. A method that is its own adapter never returns: after
  \<open>target.p = w.p\<close>, calling \<open>w.p(...)\<close> calls itself through \<open>apply\<close> forever
  (a stack overflow in an engine); in the model the call is \<open>None\<close> for every fuel.
\<close>

theorem self_method_never_returns:
  assumes wf: "wf_state st" and t: "t < length (heap st)"
    and wfn: "wrapper_fn st w p = Some (f, FnClosure p (VObj t) (VObj w))"
    and g: "get_prop st t p = VObj f" and ab: "apply_is_builtin st f"
    and n: "length args \<le> 9007199254740991" and a: "\<forall>v \<in> set args. val_ok (length (heap st)) v"
  shows "invoke k nats st (VObj w) p args = None"
proof -
  have "f < length (heap st)" "call_slot (heap st ! f) = Some (FnClosure p (VObj t) (VObj w))"
    using wrapper_fn_SomeD [OF wfn] by (simp_all add: obj_at_def split: if_splits)
  then have "self_adapter st f p t (VObj w) args"
    using wf t g ab n a by (simp add: self_adapter_def)
  then show ?thesis
    using invoke_wrapper_fn [OF wfn] self_adapter_diverges by simp
qed

theorem self_method_never_returns_witness:
  "invoke 5 greet_natives loop_state (VObj 8) ''greet'' [] = None"
proof -
  have wf: "wf_state loop_state" by code_simp
  have t: "6 < length (heap loop_state)" by code_simp
  have wfn: "wrapper_fn loop_state 8 ''greet'' = Some (10, FnClosure ''greet'' (VObj 6) (VObj 8))"
    by code_simp
  have g: "get_prop loop_state 6 ''greet'' = VObj 10" by code_simp
  have ab: "apply_is_builtin loop_state 10" by code_simp
  show ?thesis
    using self_method_never_returns [OF wf t wfn g ab, of "[]" 5 greet_natives] by simp
qed

text \<open>
  C18. A wrapper's method over a method of the program always returns, with three
  units of fuel (the adapter, \<open>apply\<close>, the method).
\<close>

theorem method_call_returns:
  assumes wf: "wf_state st" and t: "t < length (heap st)"
    and wfn: "wrapper_fn st w p = Some (f, FnClosure p (VObj t) (VObj w))"
    and g: "get_prop st t p = VObj g" and gi: "call_slot (heap st ! g) = Some (NativeFn i)"
    and ab: "apply_is_builtin st g" and n: "length args \<le> 9007199254740991"
  shows "\<exists>r. invoke 3 nats st (VObj w) p args = Some r"
  using adapter_native [OF wf t wfn g gi ab n, of 0 nats]
  by (auto simp add: numeral_3_eq_3 split: prod.split sum.split)

theorem method_call_returns_witness:
  "\<exists>r. invoke 3 greet_natives bob_wrapped (VObj 8) ''greet'' [VStr ''Carl''] = Some r"
  using method_call_returns [OF wf_bob_wrapped _ bob_greet_adapter bob_greet_native]
  by (simp add: bob_wrapped_len)

section \<open>The keys of the wrapper\<close>

text \<open>
  C19. The wrapper's keys are those of a reference definition: a key is a member of
  the wrapper exactly when looking it up on the target (\<open>target[k]\<close>, the prototype
  chain included) finds an enumerable property. So an enumerable inherited key is
  wrapped, and a key shadowed by a non-enumerable own property is not.
\<close>

theorem wrapper_keys_lookup_equiv:
  assumes wf: "wf_state st" and t: "t < length (heap st)"
    and iw: "\<forall>p \<in> set (for_in_keys st (VObj t)). inherits_writable st p"
  shows "k \<in> set (map fst (own_props (heap (snd (trainwreck_create (VObj t) st)) ! length (heap st))))
         \<longleftrightarrow> (case lookup st t k of Some (l, d) \<Rightarrow> pd_enumerable d | None \<Rightarrow> False)"
  using create_wrapper_keys [OF wf _ iw] t for_in_keys_obj [of k st t] by simp

theorem wrapper_keys_lookup_equiv_witness:
  "''species'' \<in> set (map fst (own_props (heap pet_wrapped ! 8)))"
proof -
  have wf: "wf_state pet_state" by code_simp
  have t: "7 < length (heap pet_state)" by code_simp
  have iw: "\<forall>p \<in> set (for_in_keys pet_state (VObj 7)). inherits_writable pet_state p" by code_simp
  have n: "length (heap pet_state) = 8" by code_simp
  have l: "case lookup pet_state 7 ''species'' of Some (l, d) \<Rightarrow> pd_enumerable d | None \<Rightarrow> False"
    by code_simp
  show ?thesis
    using wrapper_keys_lookup_equiv [OF wf t iw, of "''species''"] l unfolding n pet_wrapped_def by simp
qed

section \<open>Loading the library\<close>

text \<open>
  C20. Under CommonJS (no AMD \<open>define\<close>, a \<open>module\<close> object with a truthy
  \<open>exports\<close>), the export code (lines 61--69) replaces \<open>module.exports\<close> by the library object and
  does nothing else; afterwards \<open>module.exports\<close> is the library when the module
  object takes the write.
\<close>

theorem export_commonjs:
  assumes d: "typeof_v st define_v \<noteq> ''function''"
    and ex: "to_boolean (get_prop st m ''exports'')"
    and m: "m < length (heap st)" and wa: "write_allowed st m ''exports''"
  shows "export_lib n nats st define_v (VObj m) global_v lib = Some (Inr (), set_prop st m ''exports'' lib)
         \<and> get_prop (set_prop st m ''exports'' lib) m ''exports'' = lib"
  using export_node [OF d refl ex] get_prop_set_prop_same [OF m wa] by simp

theorem export_commonjs_witness:
  "export_lib 1 define_natives loader_state VUndef (VObj 7) (VObj 9) (VObj 6)
     = Some (Inr (), set_prop loader_state 7 ''exports'' (VObj 6))
   \<and> get_prop (set_prop loader_state 7 ''exports'' (VObj 6)) 7 ''exports'' = VObj 6"
proof -
  have ex: "to_boolean (get_prop loader_state 7 ''exports'')" by code_simp
  have m: "7 < length (heap loader_state)" by code_simp
  have wa: "write_allowed loader_state 7 ''exports''" by code_simp
  show ?thesis
    using export_commonjs [OF _ ex m wa, of VUndef] by simp
qed

text \<open>
  C21. In a browser (no AMD \<open>define\<close>, no \<open>module\<close>), the export code assigns the
  library to the \<open>trainwreck\<close> property of the global object.
\<close>

theorem export_browser_global:
  assumes d: "typeof_v st define_v \<noteq> ''function''"
    and g: "g < length (heap st)" and wa: "write_allowed st g ''trainwreck''"
  shows "export_lib n nats st define_v VUndef (VObj g) lib = Some (Inr (), set_prop st g ''trainwreck'' lib)
         \<and> get_prop (set_prop st g ''trainwreck'' lib) g ''trainwreck'' = lib"
  using export_browser [OF d refl refl] get_prop_set_prop_same [OF g wa] by simp

theorem export_browser_global_witness:
  "export_lib 1 define_natives loader_state VUndef VUndef (VObj 9) (VObj 6)
     = Some (Inr (), set_prop loader_state 9 ''trainwreck'' (VObj 6))
   \<and> get_prop (set_prop loader_state 9 ''trainwreck'' (VObj 6)) 9 ''trainwreck'' = VObj 6"
proof -
  have g: "9 < length (heap loader_state)" by code_simp
  have wa: "write_allowed loader_state 9 ''trainwreck''" by code_simp
  show ?thesis
    using export_browser_global [OF _ g wa, of VUndef] by simp
qed

text \<open>
  C22. An AMD loader takes precedence: when \<open>define\<close> is a function with a truthy
  \<open>define.amd\<close>, the export code is exactly the call \<open>define('trainwreck', lib)\<close>
  (with \<open>this\<close> undefined), whatever \<open>module\<close> and the global object are: neither is
  read or written.
\<close>

theorem export_amd_first:
  assumes d: "typeof_v st (VObj d) = ''function''" and a: "to_boolean (get_prop st d ''amd'')"
    and c: "call n nats st (VObj d) VUndef [VStr ''trainwreck'', lib] = Some (r, st')"
  shows "export_lib n nats st (VObj d) module_v global_v lib
         = Some (case r of Inl e \<Rightarrow> Inl e | Inr v \<Rightarrow> Inr (), st')"
  using export_amd [OF d a refl, of n nats module_v global_v lib] c by (cases r) simp_all

theorem export_amd_first_witness:
  "export_lib 1 define_natives loader_state (VObj 10) (VObj 7) (VObj 9) (VObj 6)
   = Some (Inr (), set_prop loader_state 11 ''trainwreck'' (VObj 6))"
proof -
  have d: "typeof_v loader_state (VObj 10) = ''function''" by code_simp
  have a: "to_boolean (get_prop loader_state 10 ''amd'')" by code_simp
  have c: "call 1 define_natives loader_state (VObj 10) VUndef [VStr ''trainwreck'', VObj 6]
           = Some (Inr VUndef, set_prop loader_state 11 ''trainwreck'' (VObj 6))"
    by (simp add: obj_at_def define_natives_def arg_at_def loader_state_def realm_objs_def)
  show ?thesis
    using export_amd_first [OF d a c] by simp
qed

text \<open>
  C23. Without a loader and without a global \<open>this\<close> (the file evaluated where
  \<open>this\<close> is \<open>undefined\<close>, as in an ES module or a strict-mode bundle), the export
  code throws a TypeError at line 68 and exports nothing.
\<close>

theorem export_without_global_throws:
  assumes "typeof_v st define_v \<noteq> ''function''"
  shows "export_lib n nats st define_v VUndef VUndef lib
         = Some (Inl (TypeError ''Cannot set properties of undefined''), st)"
  using export_no_global [OF assms refl refl] .

theorem export_without_global_throws_witness:
  "export_lib 1 define_natives loader_state VUndef VUndef VUndef (VObj 6)
   = Some (Inl (TypeError ''Cannot set properties of undefined''), loader_state)"
  using export_without_global_throws [of loader_state VUndef] by simp


section \<open>No re-synchronisation\<close>




section \<open>The library object and late binding\<close>

text \<open>
  C25. Loading the file in a browser and then calling \<open>trainwreck.create(target)\<close>
  compose: the file returns normally, \<open>window.trainwreck\<close> is the new library object
  (the next free location), and the method call \<open>create\<close> on it, with two units of
  fuel, is the model's \<open>create\<close> in the loaded state, so the theorems about
  \<open>trainwreck_create\<close> (C1, C8, C9) hold of the loaded library.
\<close>

theorem load_then_create:
  assumes wf: "wf_state st" and g: "g < length (heap st)" and wa: "write_allowed st g ''trainwreck''"
  shows "\<exists>st'. load_file n nats st VUndef VUndef (VObj g) = Some (Inr (), st')
           \<and> get_prop st' g ''trainwreck'' = VObj (length (heap st))
           \<and> invoke (Suc (Suc m)) nats st' (get_prop st' g ''trainwreck'') ''create'' args
             = Some (trainwreck_create (arg_at args 0) st')"
proof -
  let ?S = "snd (library_object st)"
  let ?st' = "set_prop ?S g ''trainwreck'' (VObj (length (heap st)))"
  have S: "?S = st\<lparr>heap := heap st @ drop (length (heap st)) (heap ?S)\<rparr>"
    by (simp add: library_object_eq)
  have g': "g < length (heap ?S)" using g by (simp add: library_object_eq)
  have wa': "write_allowed ?S g ''trainwreck''"
    using write_allowed_extend [OF wf g, of "drop (length (heap st)) (heap ?S)"] wa S by simp
  have rd: "get_prop ?st' g ''trainwreck'' = VObj (length (heap st))"
    by (rule get_prop_set_prop_same [OF g' wa'])
  have li: "Library.lib_intact ?st' (length (heap st))"
    and c: "wrapper_fn ?st' (length (heap st)) ''create''
            = Some (Suc (Suc (Suc (length (heap st)))), LibCreate (length (heap st)))"
    using loaded_library [OF g] by simp_all
  show ?thesis
    using load_file_browser [of n nats st g] rd invoke_lib_create [OF li c, of m nats args] by simp
qed

theorem load_then_create_witness:
  "load_file 1 greet_natives browser_state VUndef VUndef (VObj 8) = Some (Inr (), loaded_state)
   \<and> get_prop loaded_state 8 ''trainwreck'' = VObj 9
   \<and> invoke 2 greet_natives loaded_state (VObj 9) ''create'' [VObj 6]
     = Some (trainwreck_create (VObj 6) loaded_state)"
proof -
  have wa: "write_allowed browser_state 8 ''trainwreck''" by code_simp
  obtain st' where l: "load_file 1 greet_natives browser_state VUndef VUndef (VObj 8) = Some (Inr (), st')"
    and r: "get_prop st' 8 ''trainwreck'' = VObj 9"
    and i: "invoke 2 greet_natives st' (get_prop st' 8 ''trainwreck'') ''create'' [VObj 6]
            = Some (trainwreck_create (arg_at [VObj 6] 0) st')"
    using load_then_create [OF wf_browser_state _ wa, of 1 greet_natives 0 "[VObj 6]"]
    by (auto simp add: browser_state_len numeral_2_eq_2)
  have "st' = loaded_state" using l load_browser_state by simp
  with l r i show ?thesis by (simp add: arg_at_def)
qed

text \<open>
  C26. The library's \<open>fn\<close> and \<open>prop\<close> (lines 19--23 and 33--42), called as methods
  of the intact library object with a name, a scope and a chain, each return a new
  function (the next free location) closing over exactly those three values: a
  method adapter from \<open>fn\<close>, an accessor from \<open>prop\<close>; nothing else changes.
\<close>

theorem library_fn_prop_methods:
  assumes li: "Library.lib_intact st lib"
  shows "invoke (Suc m) nats st (VObj lib) ''fn'' [VStr p, scope, chain]
           = Some (Inr (VObj (length (heap st))),
                   snd (alloc_obj (function_object st (FnClosure p scope chain)) st))
         \<and> invoke (Suc m) nats st (VObj lib) ''prop'' [VStr p, scope, chain]
           = Some (Inr (VObj (length (heap st))),
                   snd (alloc_obj (function_object st (PropClosure p scope chain)) st))"
proof -
  obtain f g where f: "wrapper_fn st lib ''fn'' = Some (f, LibFn)"
    and g: "wrapper_fn st lib ''prop'' = Some (g, LibProp)"
    using li by (rule lib_intactD)
  note fD = wrapper_fn_SomeD [OF f] and gD = wrapper_fn_SomeD [OF g]
  show ?thesis
    using invoke_wrapper_fn [OF f] invoke_wrapper_fn [OF g]
      call_LibFn [of st f _ m nats "VObj lib"] call_LibProp [of st g _ m nats "VObj lib"] fD gD
    by (simp add: lib_fn_call_def lib_prop_call_def trainwreck_fn_def trainwreck_prop_def arg_at_def
        alloc_obj_def del: call.simps)
qed

theorem library_fn_prop_methods_witness:
  "invoke 1 greet_natives loaded_state (VObj 9) ''prop'' [VStr ''name'', VObj 6, VObj 6]
   = Some (Inr (VObj 13),
           snd (alloc_obj (function_object loaded_state (PropClosure ''name'' (VObj 6) (VObj 6))) loaded_state))"
proof -
  have "length (heap loaded_state) = 13" by code_simp
  then show ?thesis
    using library_fn_prop_methods [OF loaded_state_intact, of 0 greet_natives "''name''" "VObj 6" "VObj 6"]
    by simp
qed

end
